(* ===== verification/Prelude.thy ===== *)
theory Prelude
  imports
    Main
    "HOL-Library.Word"
    "HOL-Library.Finite_Map"
    "HOL-Library.List_Lexorder"
    "HOL-Library.Char_ord"
    "HOL-Library.Monad_Syntax"
    "HOL-Library.Sublist"
begin

text \<open>
  Shared vocabulary of the development.

  \<^item> Go effects. A pure Go function that may panic is a function into \<open>option\<close>
    (\<open>None\<close> is the panic), written with the option monad's do-notation. A function that
    reads or writes the multistore through its \<open>sdk.Context\<close> is an \<open>op\<close>: a function from
    the store state to an \<open>outcome\<close>. \<open>Ok\<close> is a normal return, \<open>Err\<close> is a returned
    \<open>sdk.Error\<close> together with the writes made before it (a caller may ignore the error and
    keep them), \<open>Panic\<close> is a panic, whose writes \<open>runTx\<close> always discards.
  \<^item> Byte strings. An Isabelle \<open>char\<close> is a byte, so Go's \<open>string\<close> and \<open>[]byte\<close> are both
    \<open>string\<close>; \<open><\<close> on them is the byte-wise lexicographic order of Go.
  \<^item> Stores. A typed key-value substore is a finite map; sums over it carry the
    conservation proofs.
  \<^item> Regular expressions, the fragment the source uses, with a derivative matcher.
\<close>

section \<open>Go results\<close>

type_synonym bytes = string
type_synonym AccAddress = bytes
type_synonym uint64 = "64 word"

text \<open>An \<open>sdk.Error\<close> is identified by its codespace and code; messages are not modelled.\<close>

datatype sdk_error = SdkError (codespace_of: string) (code_of: nat)

datatype ('a, 's) outcome = Ok 'a 's | Err sdk_error 's | Panic

type_synonym ('s, 'a) op = "'s \<Rightarrow> ('a, 's) outcome"

definition ret :: "'a \<Rightarrow> ('s, 'a) op" where
  "ret x s = Ok x s"

definition fail :: "sdk_error \<Rightarrow> ('s, 'a) op" where
  "fail e s = Err e s"

definition panic :: "('s, 'a) op" where
  "panic s = Panic"

definition bind_op :: "('s, 'a) op \<Rightarrow> ('a \<Rightarrow> ('s, 'b) op) \<Rightarrow> ('s, 'b) op" where
  "bind_op m f s = (case m s of Ok x t \<Rightarrow> f x t | Err e t \<Rightarrow> Err e t | Panic \<Rightarrow> Panic)"

definition gets :: "('s \<Rightarrow> 'a) \<Rightarrow> ('s, 'a) op" where
  "gets f s = Ok (f s) s"

definition modify :: "('s \<Rightarrow> 's) \<Rightarrow> ('s, unit) op" where
  "modify f s = Ok () (f s)"

text \<open>A pure Go call inside a stateful function: its panic is a panic of the caller.\<close>

definition lift_go :: "'a option \<Rightarrow> ('s, 'a) op" where
  "lift_go m s = (case m of None \<Rightarrow> Panic | Some x \<Rightarrow> Ok x s)"

text \<open>A pure Go call returning \<open>(value, sdk.Error)\<close>, the error being passed on.\<close>

definition lift_res :: "sdk_error + 'a \<Rightarrow> ('s, 'a) op" where
  "lift_res r s = (case r of Inl e \<Rightarrow> Err e s | Inr x \<Rightarrow> Ok x s)"

text \<open>A call whose returned error the caller drops (\<open>k.f(ctx)\<close> as a statement).\<close>

definition ignore_err :: "('s, 'a) op \<Rightarrow> ('s, unit) op" where
  "ignore_err m s = (case m s of Ok x t \<Rightarrow> Ok () t | Err e t \<Rightarrow> Ok () t | Panic \<Rightarrow> Panic)"

text \<open>A call whose caller panics on an error.\<close>

definition err_panics :: "('s, 'a) op \<Rightarrow> ('s, 'a) op" where
  "err_panics m s = (case m s of Ok x t \<Rightarrow> Ok x t | Err e t \<Rightarrow> Panic | Panic \<Rightarrow> Panic)"

text \<open>\<open>for _, x := range xs { ... }\<close> with an early return on error.\<close>

fun for_each :: "'a list \<Rightarrow> ('a \<Rightarrow> ('s, unit) op) \<Rightarrow> ('s, unit) op" where
  "for_each [] f = ret ()"
| "for_each (x # xs) f = bind_op (f x) (\<lambda>_. for_each xs f)"

named_theorems op_simps \<open>one-step evaluation of the store monad\<close>
named_theorems maintains_intros \<open>rules that show that an operation maintains an invariant when it returns normally\<close>
named_theorems keeps_intros \<open>invariant preservation, one rule per program construct\<close>

lemma ret_eval [op_simps]: "ret x s = Ok x s" by (simp add: ret_def)
lemma fail_eval [op_simps]: "fail e s = Err e s" by (simp add: fail_def)
lemma panic_eval [op_simps]: "panic s = Panic" by (simp add: panic_def)
lemma gets_eval [op_simps]: "gets f s = Ok (f s) s" by (simp add: gets_def)
lemma modify_eval [op_simps]: "modify f s = Ok () (f s)" by (simp add: modify_def)

lemma lift_go_eval [op_simps]:
  "lift_go None s = Panic" "lift_go (Some x) s = Ok x s"
  by (simp_all add: lift_go_def)

lemma lift_res_eval [op_simps]:
  "lift_res (Inl e) s = Err e s" "lift_res (Inr x) s = Ok x s"
  by (simp_all add: lift_res_def)

declare op_simps [simp]

lemma lift_go_Ok [simp]: "lift_go m s = Ok x t \<longleftrightarrow> m = Some x \<and> t = s"
  by (cases m) auto

lemma lift_go_Err [simp]: "lift_go m s \<noteq> Err e t"
  by (cases m) auto

lemma lift_res_Ok [simp]: "lift_res r s = Ok x t \<longleftrightarrow> r = Inr x \<and> t = s"
  by (cases r) auto

lemma lift_res_Err [simp]: "lift_res r s = Err e t \<longleftrightarrow> r = Inl e \<and> t = s"
  by (cases r) auto

lemma bind_op_Ok [simp]:
  "bind_op m f s = Ok y t \<longleftrightarrow> (\<exists>x u. m s = Ok x u \<and> f x u = Ok y t)"
  by (auto simp: bind_op_def split: outcome.splits)

lemma bind_op_Err [simp]:
  "bind_op m f s = Err e t \<longleftrightarrow> m s = Err e t \<or> (\<exists>x u. m s = Ok x u \<and> f x u = Err e t)"
  by (auto simp: bind_op_def split: outcome.splits)

lemma ignore_err_Ok [simp]:
  "ignore_err m s = Ok y t \<longleftrightarrow> (\<exists>x. m s = Ok x t) \<or> (\<exists>e. m s = Err e t)"
  by (auto simp: ignore_err_def split: outcome.splits)

lemma ignore_err_Err [simp]: "ignore_err m s \<noteq> Err e t"
  by (auto simp: ignore_err_def split: outcome.splits)

lemma err_panics_Ok [simp]: "err_panics m s = Ok x t \<longleftrightarrow> m s = Ok x t"
  by (auto simp: err_panics_def split: outcome.splits)

lemma err_panics_Err [simp]: "err_panics m s \<noteq> Err e t"
  by (auto simp: err_panics_def split: outcome.splits)

lemma bind_op_eval:
  "m s = Ok x t \<Longrightarrow> bind_op m f s = f x t"
  "m s = Err e t \<Longrightarrow> bind_op m f s = Err e t"
  "m s = Panic \<Longrightarrow> bind_op m f s = Panic"
  by (simp_all add: bind_op_def)

text \<open>
  \<open>keeps I m\<close>: the operation \<open>m\<close> keeps the invariant \<open>I\<close>, on a normal and on an error
  return. The rules below follow the structure of the program text.
\<close>

definition keeps :: "('s \<Rightarrow> bool) \<Rightarrow> ('s, 'a) op \<Rightarrow> bool" where
  "keeps I m \<longleftrightarrow>
     (\<forall>s. I s \<longrightarrow> (case m s of Ok x t \<Rightarrow> I t | Err e t \<Rightarrow> I t | Panic \<Rightarrow> True))"

lemma keeps_iff:
  "keeps I m \<longleftrightarrow>
     (\<forall>s x t. I s \<longrightarrow> m s = Ok x t \<longrightarrow> I t) \<and> (\<forall>s e t. I s \<longrightarrow> m s = Err e t \<longrightarrow> I t)"
proof -
  have "(case m s of Ok x t \<Rightarrow> I t | Err e t \<Rightarrow> I t | Panic \<Rightarrow> True) \<longleftrightarrow>
      (\<forall>x t. m s = Ok x t \<longrightarrow> I t) \<and> (\<forall>e t. m s = Err e t \<longrightarrow> I t)" for s
    by (cases "m s") simp_all
  then show ?thesis unfolding keeps_def by blast
qed

lemma keepsI:
  "(\<And>s x t. I s \<Longrightarrow> m s = Ok x t \<Longrightarrow> I t) \<Longrightarrow> (\<And>s e t. I s \<Longrightarrow> m s = Err e t \<Longrightarrow> I t) \<Longrightarrow> keeps I m"
  unfolding keeps_iff by blast

lemma keeps_Ok: "keeps I m \<Longrightarrow> I s \<Longrightarrow> m s = Ok x t \<Longrightarrow> I t"
  unfolding keeps_iff by blast

lemma keeps_Err: "keeps I m \<Longrightarrow> I s \<Longrightarrow> m s = Err e t \<Longrightarrow> I t"
  unfolding keeps_iff by blast

lemma keeps_ret [keeps_intros]: "keeps I (ret x)" by (simp add: keeps_def)
lemma keeps_fail [keeps_intros]: "keeps I (fail e)" by (simp add: keeps_def)
lemma keeps_panic [keeps_intros]: "keeps I panic" by (simp add: keeps_def)
lemma keeps_gets [keeps_intros]: "keeps I (gets f)" by (simp add: keeps_def)

lemma keeps_lift_go [keeps_intros]: "keeps I (lift_go m)"
  by (cases m) (simp_all add: keeps_def)

lemma keeps_lift_res [keeps_intros]: "keeps I (lift_res r)"
  by (cases r) (simp_all add: keeps_def)

lemma keeps_modify: "(\<And>s. I s \<Longrightarrow> I (f s)) \<Longrightarrow> keeps I (modify f)"
  by (simp add: keeps_def)

lemma keeps_bind [keeps_intros]:
  assumes "keeps I m" and "\<And>x. keeps I (f x)"
  shows "keeps I (bind_op m f)"
proof (rule keepsI)
  fix s y t assume "I s" and "bind_op m f s = Ok y t"
  then obtain x u where "m s = Ok x u" and "f x u = Ok y t" by auto
  then show "I t" using assms \<open>I s\<close> by (blast intro: keeps_Ok)
next
  fix s e t assume "I s" and "bind_op m f s = Err e t"
  then consider "m s = Err e t" | x u where "m s = Ok x u" "f x u = Err e t" by auto
  then show "I t" using assms \<open>I s\<close> by cases (blast intro: keeps_Ok keeps_Err)+
qed

lemma keeps_ignore_err [keeps_intros]:
  assumes "keeps I m"
  shows "keeps I (ignore_err m)"
proof (rule keepsI)
  fix s y t assume "I s" and "ignore_err m s = Ok y t"
  then consider x where "m s = Ok x t" | e where "m s = Err e t" by auto
  then show "I t" using assms \<open>I s\<close> by cases (blast intro: keeps_Ok keeps_Err)+
qed simp

lemma keeps_err_panics [keeps_intros]:
  assumes "keeps I m"
  shows "keeps I (err_panics m)"
proof (rule keepsI)
  fix s x t assume "I s" and "err_panics m s = Ok x t"
  then show "I t" using keeps_Ok [OF assms] by simp
qed simp

lemma keeps_if [keeps_intros]:
  "(b \<Longrightarrow> keeps I m) \<Longrightarrow> (\<not> b \<Longrightarrow> keeps I n) \<Longrightarrow> keeps I (if b then m else n)"
  by simp

lemma keeps_let [keeps_intros]: "(\<And>x. x = v \<Longrightarrow> keeps I (f x)) \<Longrightarrow> keeps I (let x = v in f x)"
  by simp

lemma keeps_option [keeps_intros]:
  "(v = None \<Longrightarrow> keeps I m) \<Longrightarrow> (\<And>x. v = Some x \<Longrightarrow> keeps I (f x)) \<Longrightarrow>
   keeps I (case v of None \<Rightarrow> m | Some x \<Rightarrow> f x)"
  by (cases v) auto

lemma keeps_prod [keeps_intros]:
  "(\<And>x y. v = (x, y) \<Longrightarrow> keeps I (f x y)) \<Longrightarrow> keeps I (case v of (x, y) \<Rightarrow> f x y)"
  by (cases v) auto

lemma keeps_sum [keeps_intros]:
  "(\<And>e. v = Inl e \<Longrightarrow> keeps I (f e)) \<Longrightarrow> (\<And>x. v = Inr x \<Longrightarrow> keeps I (g x)) \<Longrightarrow>
   keeps I (case v of Inl e \<Rightarrow> f e | Inr x \<Rightarrow> g x)"
  by (cases v) auto

lemma keeps_for_each [keeps_intros]:
  "(\<And>x. keeps I (f x)) \<Longrightarrow> keeps I (for_each xs f)"
proof (induction xs)
  case Nil
  show ?case by (simp add: keeps_ret del: op_simps)
next
  case (Cons x xs)
  then show ?case by (simp add: keeps_bind)
qed

text \<open>
  \<open>maintains I m\<close>: the operation \<open>m\<close> keeps \<open>I\<close> on a normal return. For operations whose
  errors undo the transaction.
\<close>

definition maintains :: "('s \<Rightarrow> bool) \<Rightarrow> ('s, 'a) op \<Rightarrow> bool" where
  "maintains I m \<longleftrightarrow> (\<forall>s x t. I s \<longrightarrow> m s = Ok x t \<longrightarrow> I t)"

lemma maintainsI: "(\<And>s x t. I s \<Longrightarrow> m s = Ok x t \<Longrightarrow> I t) \<Longrightarrow> maintains I m"
  unfolding maintains_def by blast

lemma maintainsD: "maintains I m \<Longrightarrow> m s = Ok x t \<Longrightarrow> I s \<Longrightarrow> I t"
  unfolding maintains_def by blast

lemma maintains_keeps: "keeps I m \<Longrightarrow> maintains I m"
  by (rule maintainsI) (rule keeps_Ok)

lemmas maintains_basics [maintains_intros] =
  keeps_ret [THEN maintains_keeps] keeps_panic [THEN maintains_keeps] keeps_fail [THEN maintains_keeps]
  keeps_gets [THEN maintains_keeps] keeps_lift_go [THEN maintains_keeps] keeps_lift_res [THEN maintains_keeps]

lemma maintains_bind [maintains_intros]:
  assumes "maintains I m" "\<And>x. maintains I (f x)"
  shows "maintains I (bind_op m f)"
proof (rule maintainsI)
  fix s y t assume "I s" and "bind_op m f s = Ok y t"
  then obtain x u where "m s = Ok x u" "f x u = Ok y t" by auto
  then show "I t" using assms \<open>I s\<close> by (blast intro: maintainsD)
qed

lemma maintains_if [maintains_intros]:
  "(b \<Longrightarrow> maintains I m) \<Longrightarrow> (\<not> b \<Longrightarrow> maintains I n) \<Longrightarrow> maintains I (if b then m else n)"
  by simp

lemma maintains_let [maintains_intros]: "(\<And>x. x = v \<Longrightarrow> maintains I (f x)) \<Longrightarrow> maintains I (let x = v in f x)"
  by simp

lemma maintains_option [maintains_intros]:
  "(v = None \<Longrightarrow> maintains I m) \<Longrightarrow> (\<And>x. v = Some x \<Longrightarrow> maintains I (f x)) \<Longrightarrow>
   maintains I (case v of None \<Rightarrow> m | Some x \<Rightarrow> f x)"
  by (cases v) auto

lemma maintains_prod [maintains_intros]:
  "(\<And>x y. v = (x, y) \<Longrightarrow> maintains I (f x y)) \<Longrightarrow> maintains I (case v of (x, y) \<Rightarrow> f x y)"
  by (cases v) auto

lemma maintains_for_each [maintains_intros]: "(\<And>x. maintains I (f x)) \<Longrightarrow> maintains I (for_each xs f)"
  by (induction xs) (simp_all add: maintains_bind maintains_keeps [OF keeps_ret] del: op_simps)

text \<open>\<open>runs P m Q\<close>: from a state with \<open>P\<close> a normal return of \<open>m\<close> ends in \<open>Q\<close>.\<close>

definition runs :: "('s \<Rightarrow> bool) \<Rightarrow> ('s, 'a) op \<Rightarrow> ('a \<Rightarrow> 's \<Rightarrow> bool) \<Rightarrow> bool" where
  "runs P m Q \<longleftrightarrow> (\<forall>s x t. P s \<longrightarrow> m s = Ok x t \<longrightarrow> Q x t)"

lemma runsI: "(\<And>s x t. P s \<Longrightarrow> m s = Ok x t \<Longrightarrow> Q x t) \<Longrightarrow> runs P m Q"
  unfolding runs_def by blast

lemma runsD: "runs P m Q \<Longrightarrow> m s = Ok x t \<Longrightarrow> P s \<Longrightarrow> Q x t"
  unfolding runs_def by blast

lemma runs_bind:
  assumes "runs P m Q" "\<And>x. runs (Q x) (f x) R"
  shows "runs P (bind_op m f) R"
proof (rule runsI)
  fix s y t assume "P s" and "bind_op m f s = Ok y t"
  then obtain x u where "m s = Ok x u" "f x u = Ok y t" by auto
  then show "R y t" using assms \<open>P s\<close> by (blast intro: runsD)
qed

lemma runs_if: "(b \<Longrightarrow> runs P m Q) \<Longrightarrow> (\<not> b \<Longrightarrow> runs P n Q) \<Longrightarrow> runs P (if b then m else n) Q"
  by simp

lemma runs_ret: "(\<And>s. P s \<Longrightarrow> Q x s) \<Longrightarrow> runs P (ret x) Q"
  by (auto simp: runs_def)

lemma runs_same: "runs P (gets f) (\<lambda>_. P)" "runs P (lift_go v) (\<lambda>_. P)" "runs P panic Q"
  by (auto simp: runs_def)

section \<open>Finite maps and sums over them\<close>

text \<open>\<open>fm_sum f m\<close> adds \<open>f\<close> over the values stored in \<open>m\<close>.\<close>

definition fm_sum :: "('v \<Rightarrow> int) \<Rightarrow> ('k, 'v) fmap \<Rightarrow> int" where
  "fm_sum f m = (\<Sum>k\<in>fmdom' m. f (the (fmlookup m k)))"

definition fm_get :: "'v \<Rightarrow> ('k, 'v) fmap \<Rightarrow> 'k \<Rightarrow> 'v" where
  "fm_get d m k = (case fmlookup m k of None \<Rightarrow> d | Some v \<Rightarrow> v)"

lemma fst_sorted_list_of_fmap: "map fst (sorted_list_of_fmap m) = sorted_list_of_fset (fmdom m)"
  by (simp add: sorted_list_of_fmap_def comp_def)

lemma set_sorted_list_of_fmap: "set (sorted_list_of_fmap m) = {(k, v). fmlookup m k = Some v}"
  by (auto simp: sorted_list_of_fmap_def fmlookup_dom_iff image_iff)

lemma fm_sum_empty [simp]: "fm_sum f fmempty = 0"
  by (simp add: fm_sum_def)

lemma fm_sum_minus:
  "(\<Sum>k'\<in>fmdom' m - {k}. f (the (fmlookup m k'))) =
     fm_sum f m - (case fmlookup m k of None \<Rightarrow> 0 | Some w \<Rightarrow> f w)"
proof (cases "fmlookup m k")
  case None
  then have "fmdom' m - {k} = fmdom' m" by (auto simp: fmlookup_dom'_iff)
  with None show ?thesis by (simp add: fm_sum_def)
next
  case (Some w)
  then have "k \<in> fmdom' m" by (auto simp: fmlookup_dom'_iff)
  with Some show ?thesis by (simp add: fm_sum_def sum_diff1)
qed

lemma fm_sum_upd:
  "fm_sum f (fmupd k v m) =
     fm_sum f m + f v - (case fmlookup m k of None \<Rightarrow> 0 | Some w \<Rightarrow> f w)"
proof -
  let ?g = "\<lambda>k'. f (the (fmlookup (fmupd k v m) k'))"
  have "fm_sum f (fmupd k v m) = ?g k + (\<Sum>k'\<in>fmdom' m - {k}. ?g k')"
    by (simp add: fm_sum_def sum.insert_remove)
  also have "(\<Sum>k'\<in>fmdom' m - {k}. ?g k') = (\<Sum>k'\<in>fmdom' m - {k}. f (the (fmlookup m k')))"
    by (rule sum.cong) auto
  also have "\<dots> = fm_sum f m - (case fmlookup m k of None \<Rightarrow> 0 | Some w \<Rightarrow> f w)"
    by (rule fm_sum_minus)
  finally show ?thesis by simp
qed

lemma fm_sum_drop:
  "fm_sum f (fmdrop k m) = fm_sum f m - (case fmlookup m k of None \<Rightarrow> 0 | Some w \<Rightarrow> f w)"
proof -
  have "fm_sum f (fmdrop k m) = (\<Sum>k'\<in>fmdom' m - {k}. f (the (fmlookup m k')))"
    unfolding fm_sum_def by (rule sum.cong) auto
  also have "\<dots> = fm_sum f m - (case fmlookup m k of None \<Rightarrow> 0 | Some w \<Rightarrow> f w)"
    by (rule fm_sum_minus)
  finally show ?thesis .
qed

lemma fm_sum_nonneg: "(\<And>k v. fmlookup m k = Some v \<Longrightarrow> 0 \<le> f v) \<Longrightarrow> 0 \<le> fm_sum f m"
  unfolding fm_sum_def by (rule sum_nonneg) (auto simp: fmlookup_dom'_iff)

lemma fm_sum_ge:
  assumes "\<And>k v. fmlookup m k = Some v \<Longrightarrow> 0 \<le> f v" and "fmlookup m k = Some v"
  shows "f v \<le> fm_sum f m"
proof -
  have "0 \<le> fm_sum f (fmdrop k m)"
    by (rule fm_sum_nonneg) (auto simp: assms(1) split: if_splits)
  then show ?thesis using assms(2) by (simp add: fm_sum_drop)
qed

section \<open>Byte strings\<close>

text \<open>The functions of Go's \<open>strings\<close> package that the source calls. The case functions
  act on ASCII letters, which is all the denominations they are applied to can hold.\<close>

definition HasPrefix :: "string \<Rightarrow> string \<Rightarrow> bool" where
  "HasPrefix s p \<longleftrightarrow> prefix p s"

definition HasSuffix :: "string \<Rightarrow> string \<Rightarrow> bool" where
  "HasSuffix s p \<longleftrightarrow> suffix p s"

definition TrimPrefix :: "string \<Rightarrow> string \<Rightarrow> string" where
  "TrimPrefix s p = (if HasPrefix s p then drop (length p) s else s)"

definition TrimSuffix :: "string \<Rightarrow> string \<Rightarrow> string" where
  "TrimSuffix s p = (if HasSuffix s p then take (length s - length p) s else s)"

definition lower_char :: "char \<Rightarrow> char" where
  "lower_char c = (if CHR ''A'' \<le> c \<and> c \<le> CHR ''Z'' then char_of (of_char c + (32::nat)) else c)"

definition ToLower :: "string \<Rightarrow> string" where
  "ToLower s = map lower_char s"

fun Split :: "string \<Rightarrow> char \<Rightarrow> string list" where
  "Split [] d = [[]]"
| "Split (c # s) d =
     (if c = d then [] # Split s d
      else (case Split s d of [] \<Rightarrow> [[c]] | w # ws \<Rightarrow> (c # w) # ws))"

lemma Split_not_Nil [simp]: "Split s d \<noteq> []"
  by (induction s) (auto split: list.splits)

lemma Split_no_sep: "d \<notin> set s \<Longrightarrow> Split s d = [s]"
  by (induction s) auto

lemma Split_append_sep: "d \<notin> set p \<Longrightarrow> Split (p @ d # s) d = p # Split s d"
  by (induction p) auto

lemma TrimSuffix_append [simp]: "TrimSuffix (s @ p) p = s"
  by (simp add: TrimSuffix_def HasSuffix_def suffix_def)

lemma TrimPrefix_append [simp]: "TrimPrefix (p @ s) p = s"
  by (simp add: TrimPrefix_def HasPrefix_def)

section \<open>Regular expressions\<close>

datatype rexp =
    RZero
  | REps
  | RCls "char \<Rightarrow> bool"
  | RAlt rexp rexp
  | RSeq rexp rexp
  | RStar rexp

fun nullable :: "rexp \<Rightarrow> bool" where
  "nullable RZero = False"
| "nullable REps = True"
| "nullable (RCls p) = False"
| "nullable (RAlt r q) = (nullable r \<or> nullable q)"
| "nullable (RSeq r q) = (nullable r \<and> nullable q)"
| "nullable (RStar r) = True"

fun rderiv :: "char \<Rightarrow> rexp \<Rightarrow> rexp" where
  "rderiv c RZero = RZero"
| "rderiv c REps = RZero"
| "rderiv c (RCls p) = (if p c then REps else RZero)"
| "rderiv c (RAlt r q) = RAlt (rderiv c r) (rderiv c q)"
| "rderiv c (RSeq r q) =
     (if nullable r then RAlt (RSeq (rderiv c r) q) (rderiv c q) else RSeq (rderiv c r) q)"
| "rderiv c (RStar r) = RSeq (rderiv c r) (RStar r)"

text \<open>An anchored match \<open>^r$\<close>, and \<open>MatchString\<close> of an unanchored expression.\<close>

fun matches :: "rexp \<Rightarrow> string \<Rightarrow> bool" where
  "matches r [] = nullable r"
| "matches r (c # s) = matches (rderiv c r) s"

definition MatchString :: "rexp \<Rightarrow> string \<Rightarrow> bool" where
  "MatchString r s =
     matches (RSeq (RStar (RCls (\<lambda>_. True))) (RSeq r (RStar (RCls (\<lambda>_. True))))) s"

text \<open>Literals, optional parts \<open>r?\<close>, \<open>r{n}\<close> and \<open>r{n,n+k}\<close>.\<close>

fun rlit :: "string \<Rightarrow> rexp" where
  "rlit [] = REps"
| "rlit (c # s) = RSeq (RCls (\<lambda>x. x = c)) (rlit s)"

definition ropt :: "rexp \<Rightarrow> rexp" where
  "ropt r = RAlt REps r"

fun rupto :: "nat \<Rightarrow> rexp \<Rightarrow> rexp" where
  "rupto 0 r = REps"
| "rupto (Suc n) r = RAlt REps (RSeq r (rupto n r))"

fun rrep :: "nat \<Rightarrow> nat \<Rightarrow> rexp \<Rightarrow> rexp" where
  "rrep 0 k r = rupto k r"
| "rrep (Suc n) k r = RSeq r (rrep n k r)"

definition ralpha :: "char \<Rightarrow> bool" where
  "ralpha c \<longleftrightarrow> CHR ''a'' \<le> c \<and> c \<le> CHR ''z''"

definition rdigit :: "char \<Rightarrow> bool" where
  "rdigit c \<longleftrightarrow> CHR ''0'' \<le> c \<and> c \<le> CHR ''9''"

definition ralnum :: "char \<Rightarrow> bool" where
  "ralnum c \<longleftrightarrow> ralpha c \<or> rdigit c"

text \<open>The language of an expression, against which the matcher is proved correct.\<close>

inductive accepts :: "rexp \<Rightarrow> string \<Rightarrow> bool" where
  acc_eps: "accepts REps []"
| acc_cls: "p c \<Longrightarrow> accepts (RCls p) [c]"
| acc_left: "accepts r s \<Longrightarrow> accepts (RAlt r q) s"
| acc_right: "accepts q s \<Longrightarrow> accepts (RAlt r q) s"
| acc_seq: "accepts r s \<Longrightarrow> accepts q t \<Longrightarrow> accepts (RSeq r q) (s @ t)"
| acc_star_nil: "accepts (RStar r) []"
| acc_star: "accepts r s \<Longrightarrow> accepts (RStar r) t \<Longrightarrow> accepts (RStar r) (s @ t)"

inductive_simps accepts_simps [simp]:
  "accepts RZero s"
  "accepts REps s"
  "accepts (RCls p) s"
  "accepts (RAlt r q) s"

inductive_simps accepts_RSeq: "accepts (RSeq r q) s"

lemma accepts_Nil: "accepts r [] \<longleftrightarrow> nullable r"
  by (induction r) (auto simp: accepts_RSeq intro: acc_star_nil)

lemma accepts_RStar_Cons:
  "accepts (RStar r) (c # s) \<longleftrightarrow> (\<exists>u v. s = u @ v \<and> accepts r (c # u) \<and> accepts (RStar r) v)"
    (is "?L \<longleftrightarrow> ?R")
proof
  show "?L \<Longrightarrow> ?R"
  proof (induction "RStar r" "c # s" arbitrary: c s rule: accepts.induct)
    case (acc_star u v)
    then show ?case by (cases u) (auto simp: Cons_eq_append_conv)
  qed
next
  assume ?R
  then show ?L using acc_star [of r "c # u" v for u v] by fastforce
qed

lemma accepts_Cons: "accepts r (c # s) \<longleftrightarrow> accepts (rderiv c r) s"
proof (induction r arbitrary: s)
  case (RSeq r q)
  show ?case
  proof
    assume "accepts (RSeq r q) (c # s)"
    then obtain u v where uv: "c # s = u @ v" "accepts r u" "accepts q v"
      by (auto simp: accepts_RSeq)
    show "accepts (rderiv c (RSeq r q)) s"
    proof (cases u)
      case Nil
      with uv RSeq.IH show ?thesis by (auto simp: accepts_Nil)
    next
      case (Cons a u')
      with uv RSeq.IH show ?thesis by (auto simp: accepts_RSeq)
    qed
  next
    assume "accepts (rderiv c (RSeq r q)) s"
    then consider u v where "s = u @ v" "accepts r (c # u)" "accepts q v"
      | "nullable r" "accepts q (c # s)"
      using RSeq.IH by (auto simp: accepts_RSeq split: if_splits)
    then show "accepts (RSeq r q) (c # s)"
    proof cases
      case 1
      then show ?thesis using acc_seq [of r "c # u" q v] by simp
    next
      case 2
      then show ?thesis using acc_seq [of r "[]" q "c # s"] by (simp add: accepts_Nil)
    qed
  qed
next
  case (RStar r)
  then show ?case by (auto simp: accepts_RStar_Cons accepts_RSeq)
qed auto

theorem matches_iff: "matches r s \<longleftrightarrow> accepts r s"
  by (induction s arbitrary: r) (auto simp: accepts_Nil accepts_Cons)

section \<open>Decimal numerals\<close>

text \<open>
  \<open>itoa\<close> is \<open>strconv.Itoa\<close> and \<open>big.Int.String\<close>; \<open>SetString10\<close> is
  \<open>big.Int.SetString(s, 10)\<close>: an optional sign, then one or more digits.
\<close>

definition digit_char :: "nat \<Rightarrow> char" where
  "digit_char d = char_of (48 + d)"

definition is_digit :: "char \<Rightarrow> bool" where
  "is_digit c \<longleftrightarrow> 48 \<le> (of_char c :: nat) \<and> (of_char c :: nat) \<le> 57"

definition digit_val :: "char \<Rightarrow> nat" where
  "digit_val c = of_char c - 48"

fun utoa :: "nat \<Rightarrow> string" where
  "utoa n = (if n < 10 then [digit_char n] else utoa (n div 10) @ [digit_char (n mod 10)])"

declare utoa.simps [simp del]

definition itoa :: "int \<Rightarrow> string" where
  "itoa i = (if i < 0 then CHR ''-'' # utoa (nat (- i)) else utoa (nat i))"

definition digits_val :: "string \<Rightarrow> nat" where
  "digits_val = foldl (\<lambda>acc c. 10 * acc + digit_val c) 0"

definition parse_digits :: "string \<Rightarrow> nat option" where
  "parse_digits s = (if s \<noteq> [] \<and> list_all is_digit s then Some (digits_val s) else None)"

definition SetString10 :: "string \<Rightarrow> int option" where
  "SetString10 s =
     (case s of [] \<Rightarrow> None
      | c # cs \<Rightarrow>
          if c = CHR ''-'' then map_option (\<lambda>n. - int n) (parse_digits cs)
          else if c = CHR ''+'' then map_option int (parse_digits cs)
          else map_option int (parse_digits s))"

text \<open>For evaluation, the digits are summed up as an integer.\<close>

definition digits_int :: "string \<Rightarrow> int" where
  "digits_int = foldl (\<lambda>acc c. 10 * acc + int (digit_val c)) 0"

lemma int_digits_val: "int (digits_val s) = digits_int s"
proof -
  have "int (foldl (\<lambda>acc c. 10 * acc + digit_val c) n s) = foldl (\<lambda>acc c. 10 * acc + int (digit_val c)) (int n) s" for n
    by (induction s arbitrary: n) simp_all
  then show ?thesis by (simp add: digits_val_def digits_int_def)
qed

lemma SetString10_code [code]:
  "SetString10 s =
     (let parse = (\<lambda>ds. if ds \<noteq> [] \<and> list_all is_digit ds then Some (digits_int ds) else None) in
      case s of [] \<Rightarrow> None
      | c # cs \<Rightarrow>
          if c = CHR ''-'' then map_option uminus (parse cs)
          else if c = CHR ''+'' then parse cs
          else parse s)"
  by (cases s) (auto simp: SetString10_def parse_digits_def int_digits_val [symmetric])

lemma of_char_digit: "d < 10 \<Longrightarrow> (of_char (digit_char d) :: nat) = 48 + d"
  by (simp add: digit_char_def)

lemma digit_char_facts [simp]:
  assumes "d < 10"
  shows "is_digit (digit_char d)" "digit_val (digit_char d) = d"
  using assms by (simp_all add: is_digit_def digit_val_def of_char_digit)

lemma not_digit [simp]: "\<not> is_digit (CHR ''-'')" "\<not> is_digit (CHR ''+'')" "\<not> is_digit (CHR ''.'')"
  by (simp_all add: is_digit_def)

lemma digits_val_foldl:
  "foldl (\<lambda>acc c. 10 * acc + digit_val c) a ys = a * 10 ^ length ys + digits_val ys"
proof (induction ys arbitrary: a)
  case (Cons y ys)
  show ?case
    using Cons [of "10 * a + digit_val y"] Cons [of "digit_val y"]
    by (simp add: digits_val_def add_mult_distrib mult.assoc)
qed (simp add: digits_val_def)

lemma digits_val_append: "digits_val (xs @ ys) = digits_val xs * 10 ^ length ys + digits_val ys"
  unfolding digits_val_def foldl_append
  by (simp only: digits_val_foldl)

lemma digits_val_simps [simp]: "digits_val [] = 0" "digits_val [c] = digit_val c"
  by (simp_all add: digits_val_def)

lemma utoa_nonempty [simp]: "utoa n \<noteq> []"
  by (subst utoa.simps) simp

lemma utoa_digits [simp]: "list_all is_digit (utoa n)"
proof (induction n rule: utoa.induct)
  case (1 n)
  then show ?case by (subst utoa.simps) simp
qed

lemma utoa_val [simp]: "digits_val (utoa n) = n"
proof (induction n rule: utoa.induct)
  case (1 n)
  then show ?case by (subst utoa.simps) (simp add: digits_val_append)
qed

lemma utoa_length_le: "length (utoa n) \<le> Suc k \<longleftrightarrow> n < 10 ^ Suc k"
proof (induction k arbitrary: n)
  case 0
  show ?case by (subst utoa.simps) (auto simp: not_less Suc_le_eq)
next
  case (Suc k)
  show ?case
  proof (cases "n < 10")
    case True
    then have "n < 10 ^ Suc (Suc k)" by (rule less_le_trans) simp
    with True show ?thesis by (subst utoa.simps) simp
  next
    case False
    then have "length (utoa n) \<le> Suc (Suc k) \<longleftrightarrow> n div 10 < 10 ^ Suc k"
      by (subst utoa.simps) (simp add: Suc.IH [simplified])
    also have "\<dots> \<longleftrightarrow> n < 10 ^ Suc (Suc k)" by (simp add: div_less_iff_less_mult mult.commute)
    finally show ?thesis .
  qed
qed

lemma parse_utoa [simp]: "parse_digits (utoa n) = Some n"
  by (simp add: parse_digits_def)

lemma is_digit_first:
  "list_all is_digit s \<Longrightarrow> s \<noteq> [] \<Longrightarrow> SetString10 s = Some (int (digits_val s))"
  by (cases s) (auto simp: SetString10_def parse_digits_def)

lemma SetString10_itoa: "SetString10 (itoa i) = Some i"
proof (cases "i < 0")
  case True
  then show ?thesis by (simp add: itoa_def SetString10_def)
next
  case False
  then show ?thesis by (simp add: itoa_def is_digit_first)
qed

lemma utoa_inj: "utoa m = utoa n \<longleftrightarrow> m = n"
  by (metis utoa_val)

lemma itoa_inj: "itoa i = itoa j \<longleftrightarrow> i = j"
  by (metis SetString10_itoa option.inject)

section \<open>Binary encodings\<close>

text \<open>\<open>encoding/hex\<close> and the big-endian bytes of \<open>sdk.Uint64ToBigEndian\<close>.\<close>

definition hex_digit :: "nat \<Rightarrow> char" where
  "hex_digit n = (if n < 10 then char_of (48 + n) else char_of (87 + n))"

definition hex_val :: "char \<Rightarrow> nat option" where
  "hex_val c =
     (let n = of_char c :: nat in
      if 48 \<le> n \<and> n \<le> 57 then Some (n - 48)
      else if 97 \<le> n \<and> n \<le> 102 then Some (n - 87)
      else if 65 \<le> n \<and> n \<le> 70 then Some (n - 55)
      else None)"

fun EncodeToString :: "bytes \<Rightarrow> string" where
  "EncodeToString [] = []"
| "EncodeToString (b # bs) =
     hex_digit (of_char b div 16) # hex_digit (of_char b mod 16) # EncodeToString bs"

fun DecodeString :: "string \<Rightarrow> bytes option" where
  "DecodeString [] = Some []"
| "DecodeString [c] = None"
| "DecodeString (c # d # s) =
     do { h \<leftarrow> hex_val c; l \<leftarrow> hex_val d; bs \<leftarrow> DecodeString s; Some (char_of (16 * h + l) # bs) }"

definition Uint64ToBigEndian :: "uint64 \<Rightarrow> bytes" where
  "Uint64ToBigEndian i = map (\<lambda>k. char_of (unat i div 256 ^ k mod 256)) [7, 6, 5, 4, 3, 2, 1, 0]"

lemma char_of_int: "char_of (int n) = char_of n"
  by (simp add: char_of_def bit_of_nat_iff_bit)

lemma int_byte_at: "int (unat (i::uint64) div 256 ^ k mod 256) = uint i div 256 ^ k mod 256"
  by (simp add: of_nat_div of_nat_mod)

lemma Uint64ToBigEndian_code [code]:
  "Uint64ToBigEndian i = map (\<lambda>k. char_of (uint i div 256 ^ k mod 256)) [7, 6, 5, 4, 3, 2, 1, 0]"
  unfolding Uint64ToBigEndian_def int_byte_at [symmetric] char_of_int ..

lemma hex_val_digit: "n < 16 \<Longrightarrow> hex_val (hex_digit n) = Some n"
  by (auto simp: hex_val_def hex_digit_def Let_def)

lemma Decode_Encode: "DecodeString (EncodeToString bs) = Some bs"
proof (induction bs)
  case (Cons b bs)
  have "(of_char b :: nat) < 256" by simp
  then have "(of_char b :: nat) div 16 < 16" by (rule less_mult_imp_div_less [of _ 16 16, simplified])
  with Cons show ?case by (simp add: hex_val_digit)
qed simp

definition be_val :: "bytes \<Rightarrow> nat" where
  "be_val = foldl (\<lambda>acc b. 256 * acc + of_char b) 0"

lemma be_val_foldl:
  "foldl (\<lambda>acc b. 256 * acc + of_char b) a bs = a * 256 ^ length bs + be_val bs"
proof (induction bs arbitrary: a)
  case (Cons b bs)
  show ?case
    using Cons [of "256 * a + of_char b"] Cons [of "of_char b"]
    by (simp add: be_val_def add_mult_distrib mult.assoc)
qed (simp add: be_val_def)

lemma be_val_digits:
  "be_val (map (\<lambda>k. char_of (n div 256 ^ k mod 256)) (rev [0..<m])) = n mod 256 ^ m"
proof (induction m)
  case (Suc m)
  have "be_val (map (\<lambda>k. char_of (n div 256 ^ k mod 256)) (rev [0..<Suc m])) =
      (n div 256 ^ m mod 256) * 256 ^ m + n mod 256 ^ m"
    using be_val_foldl [of "n div 256 ^ m mod 256"] Suc by (simp add: be_val_def)
  also have "\<dots> = n mod (256 ^ m * 256)" by (subst mod_mult2_eq) (simp add: mult.commute)
  finally show ?case by (simp only: power_Suc2)
qed (simp add: be_val_def)

lemma be_val_Uint64: "be_val (Uint64ToBigEndian i) = unat i"
proof -
  have "unat i < 256 ^ 8" using unsigned_less [where ?'a = nat, of i] by simp
  moreover have "[7, 6, 5, 4, 3, 2, 1, 0] = rev [0..<8]" by (simp add: upt_rec)
  ultimately show ?thesis
    using be_val_digits [of "unat i" 8] unfolding Uint64ToBigEndian_def by simp
qed

lemma Uint64ToBigEndian_inj: "Uint64ToBigEndian i = Uint64ToBigEndian j \<longleftrightarrow> i = j"
  by (metis be_val_Uint64 word_unat_eq_iff)

lemma length_Uint64ToBigEndian [simp]: "length (Uint64ToBigEndian i) = 8"
  by (simp add: Uint64ToBigEndian_def)

end
