(* ===== verification/Ints.thy ===== *)
theory Ints
  imports Prelude
begin

text \<open>
  Component: \<open>src/types/int.go\<close>, the bounded integers \<open>Int\<close> and \<open>Uint\<close>.

  Go's \<open>Int\<close> wraps a \<open>*big.Int\<close>; here it is a mathematical \<open>int\<close>, and the overflow
  checks of the source are written out over \<open>BitLen\<close>. A panic is \<open>None\<close>. The pointer is
  taken to be non-nil: the amino decoder, the constructors and every operation allocate it,
  and the few messages whose validation tests \<open>IsNil\<close> carry an \<open>option\<close> instead.
\<close>

section \<open>Bit length\<close>

text \<open>\<open>big.Int.BitLen\<close>: the length of the absolute value in bits.\<close>

fun bits :: "nat \<Rightarrow> nat" where
  "bits n = (if n = 0 then 0 else Suc (bits (n div 2)))"

declare bits.simps [simp del]

definition BitLen :: "int \<Rightarrow> nat" where
  "BitLen i = bits (nat \<bar>i\<bar>)"

text \<open>The same on binary integers, for evaluation.\<close>

function int_bits :: "int \<Rightarrow> nat" where
  "int_bits i = (if i \<le> 0 then 0 else Suc (int_bits (i div 2)))"
  by auto

termination
  by (relation "measure nat") auto

declare int_bits.simps [simp del]

lemma int_bits_eq: "int_bits (int n) = bits n"
proof (induction n rule: bits.induct)
  case (1 n)
  have "int (n div 2) = int n div 2" by simp
  with 1 show ?case by (cases "n = 0") (simp_all add: bits.simps [of n] int_bits.simps [of "int n"] int_bits.simps [of 0] bits.simps [of 0])
qed

lemma BitLen_code [code]: "BitLen i = int_bits \<bar>i\<bar>"
  using int_bits_eq [of "nat \<bar>i\<bar>"] by (simp add: BitLen_def)

lemma bits_0 [simp]: "bits 0 = 0"
  by (simp add: bits.simps)

lemma bits_le_iff: "bits n \<le> k \<longleftrightarrow> n < 2 ^ k"
proof (induction k arbitrary: n)
  case 0
  then show ?case by (simp add: bits.simps [of n])
next
  case (Suc k)
  show ?case
  proof (cases "n = 0")
    case False
    then have "bits n \<le> Suc k \<longleftrightarrow> n div 2 < 2 ^ k"
      using Suc.IH by (simp add: bits.simps [of n])
    also have "\<dots> \<longleftrightarrow> n < 2 ^ Suc k" by auto
    finally show ?thesis .
  qed simp
qed

lemma BitLen_le_iff: "BitLen i \<le> k \<longleftrightarrow> \<bar>i\<bar> < 2 ^ k"
proof -
  have "BitLen i \<le> k \<longleftrightarrow> nat \<bar>i\<bar> < 2 ^ k" by (simp add: BitLen_def bits_le_iff)
  also have "\<dots> \<longleftrightarrow> \<bar>i\<bar> < 2 ^ k" by (simp add: nat_less_iff)
  finally show ?thesis .
qed

lemma BitLen_gt_iff [simp]: "k < BitLen i \<longleftrightarrow> 2 ^ k \<le> \<bar>i\<bar>"
  using BitLen_le_iff [of i k] by linarith

lemma BitLen_pow_le: "i \<noteq> 0 \<Longrightarrow> 2 ^ (BitLen i - 1) \<le> \<bar>i\<bar>"
proof -
  assume "i \<noteq> 0"
  then have "0 < BitLen i" using BitLen_gt_iff [of 0 i] by simp
  then have "BitLen i - 1 < BitLen i" by (rule diff_less [OF zero_less_one])
  then show ?thesis by (rule BitLen_gt_iff [THEN iffD1])
qed

section \<open>Int\<close>

definition NewIntFromBigInt :: "int \<Rightarrow> int option" where
  "NewIntFromBigInt i = (if BitLen i > 255 then None else Some i)"

definition NewIntWithDecimal :: "int \<Rightarrow> int \<Rightarrow> int option" where
  "NewIntWithDecimal n dec =
     (if dec < 0 then None
      else let i = n * 10 ^ nat dec in if BitLen i > 255 then None else Some i)"

definition Int64 :: "int \<Rightarrow> int option" where
  "Int64 i = (if - (2 ^ 63) \<le> i \<and> i < 2 ^ 63 then Some i else None)"

definition Int_Add :: "int \<Rightarrow> int \<Rightarrow> int option" where
  "Int_Add i i2 = (let res = i + i2 in if BitLen res > 255 then None else Some res)"

definition Int_Sub :: "int \<Rightarrow> int \<Rightarrow> int option" where
  "Int_Sub i i2 = (let res = i - i2 in if BitLen res > 255 then None else Some res)"

definition Int_Mul :: "int \<Rightarrow> int \<Rightarrow> int option" where
  "Int_Mul i i2 =
     (if BitLen i + BitLen i2 - 1 > 255 then None
      else let res = i * i2 in if BitLen res > 255 then None else Some res)"

text \<open>\<open>big.Int.Div\<close> and \<open>big.Int.Mod\<close> are Euclidean: the remainder is never negative.\<close>

definition euclid_div :: "int \<Rightarrow> int \<Rightarrow> int" where
  "euclid_div a b = sgn b * (a div \<bar>b\<bar>)"

definition Int_Div :: "int \<Rightarrow> int \<Rightarrow> int option" where
  "Int_Div i i2 = (if i2 = 0 then None else Some (euclid_div i i2))"

definition Int_Mod :: "int \<Rightarrow> int \<Rightarrow> int option" where
  "Int_Mod i i2 = (if i2 = 0 then None else Some (i mod \<bar>i2\<bar>))"

definition Int_Neg :: "int \<Rightarrow> int" where
  "Int_Neg i = - i"

definition MinInt :: "int \<Rightarrow> int \<Rightarrow> int" where
  "MinInt i i2 = (if i > i2 then i2 else i)"

definition in_range :: "int \<Rightarrow> bool" where
  "in_range i \<longleftrightarrow> \<bar>i\<bar> < 2 ^ 255"

lemma NewIntFromBigInt_Some [simp]: "NewIntFromBigInt i = Some j \<longleftrightarrow> j = i \<and> in_range i"
  by (auto simp: NewIntFromBigInt_def in_range_def)

lemma Int_Add_Some [simp]: "Int_Add a b = Some c \<longleftrightarrow> c = a + b \<and> in_range (a + b)"
  by (auto simp: Int_Add_def in_range_def Let_def)

lemma Int_Sub_Some [simp]: "Int_Sub a b = Some c \<longleftrightarrow> c = a - b \<and> in_range (a - b)"
  by (auto simp: Int_Sub_def in_range_def Let_def)

text \<open>The first check of \<open>Mul\<close>, on the bit lengths, never refuses a product that fits.\<close>

lemma Int_Mul_early_check:
  assumes "BitLen a + BitLen b - 1 > 255" and "in_range a" and "in_range b"
  shows "\<not> in_range (a * b)"
proof -
  have a0: "a \<noteq> 0"
  proof
    assume "a = 0"
    then have "255 < BitLen b" using assms(1) by (simp add: BitLen_def)
    then show False using assms(3) by (simp add: in_range_def)
  qed
  have b0: "b \<noteq> 0"
  proof
    assume "b = 0"
    then have "255 < BitLen a" using assms(1) by (simp add: BitLen_def)
    then show False using assms(2) by (simp add: in_range_def)
  qed
  have "(2::int) ^ 255 \<le> 2 ^ (BitLen a - 1 + (BitLen b - 1))"
    using assms(1) by (intro power_increasing) auto
  also have "\<dots> \<le> \<bar>a\<bar> * \<bar>b\<bar>"
    using BitLen_pow_le [OF a0] BitLen_pow_le [OF b0] by (simp add: power_add mult_mono)
  finally show ?thesis by (simp add: in_range_def abs_mult)
qed

lemma Int_Mul_Some_imp: "Int_Mul a b = Some c \<Longrightarrow> c = a * b \<and> in_range (a * b)"
  by (auto simp: Int_Mul_def in_range_def Let_def split: if_splits)

lemma Int_Mul_in_range:
  "in_range a \<Longrightarrow> in_range b \<Longrightarrow>
   Int_Mul a b = (if in_range (a * b) then Some (a * b) else None)"
  using Int_Mul_early_check [of a b] by (auto simp: Int_Mul_def in_range_def Let_def)

lemma Int_Div_Some [simp]:
  "0 < b \<Longrightarrow> Int_Div a b = Some c \<longleftrightarrow> c = a div b"
  by (auto simp: Int_Div_def euclid_div_def)

lemma Int_Div_pos: "0 < b \<Longrightarrow> Int_Div a b = Some (a div b)"
  by simp

lemma euclid_div_mod: "b \<noteq> 0 \<Longrightarrow> a = b * euclid_div a b + a mod \<bar>b\<bar>"
proof -
  have "b * euclid_div a b = \<bar>b\<bar> * (a div \<bar>b\<bar>)"
    by (simp add: euclid_div_def abs_sgn [of b] mult.assoc)
  then show ?thesis by simp
qed

lemma abs_div_pos_le: "0 < n \<Longrightarrow> \<bar>(a::int) div n\<bar> \<le> \<bar>a\<bar>"
proof (cases "0 \<le> a")
  case True
  assume "0 < n"
  with True show ?thesis using zdiv_mono2 [of a 1 n] by (simp add: pos_imp_zdiv_nonneg_iff)
next
  case False
  assume "0 < n"
  have "a \<le> a div n"
  proof -
    have "a * n \<le> a * 1" using False \<open>0 < n\<close> by (intro mult_left_mono_neg) auto
    then show ?thesis using \<open>0 < n\<close> by (simp add: zdiv_mono1 [of "a * n" a n, simplified])
  qed
  moreover have "a div n < 0" using False \<open>0 < n\<close> by (simp add: pos_imp_zdiv_neg_iff)
  ultimately show ?thesis using False by simp
qed

section \<open>Uint\<close>

definition UintOverflow :: "int \<Rightarrow> bool" where
  "UintOverflow x \<longleftrightarrow> x < 0 \<or> (0 < x \<and> BitLen x > 256)"

definition Uint_Add :: "int \<Rightarrow> int \<Rightarrow> int option" where
  "Uint_Add i i2 = (let res = i + i2 in if UintOverflow res then None else Some res)"

definition Uint_Sub :: "int \<Rightarrow> int \<Rightarrow> int option" where
  "Uint_Sub i i2 = (let res = i - i2 in if UintOverflow res then None else Some res)"

definition Uint_SafeSub :: "int \<Rightarrow> int \<Rightarrow> int \<times> bool" where
  "Uint_SafeSub i i2 = (let res = i - i2 in if UintOverflow res then (res, True) else (res, False))"

definition Uint_Mul :: "int \<Rightarrow> int \<Rightarrow> int option" where
  "Uint_Mul i i2 =
     (if BitLen i + BitLen i2 - 1 > 256 then None
      else let res = i * i2 in if UintOverflow res then None else Some res)"

definition Uint_Div :: "int \<Rightarrow> int \<Rightarrow> int option" where
  "Uint_Div i i2 = (if i2 = 0 then None else Some (euclid_div i i2))"

definition Uint_Mod :: "int \<Rightarrow> int \<Rightarrow> int option" where
  "Uint_Mod i i2 = (if i2 = 0 then None else Some (i mod \<bar>i2\<bar>))"

definition MinUint :: "int \<Rightarrow> int \<Rightarrow> int" where
  "MinUint i i2 = (if i > i2 then i2 else i)"

definition AddUint64Overflow :: "uint64 \<Rightarrow> uint64 \<Rightarrow> uint64 \<times> bool" where
  "AddUint64Overflow a b = (if (- 1) - a < b then (0, True) else (a + b, False))"

lemma UintOverflow_iff: "UintOverflow x \<longleftrightarrow> \<not> (0 \<le> x \<and> x < 2 ^ 256)"
  by (auto simp: UintOverflow_def)

lemma Uint_SafeSub_flag: "snd (Uint_SafeSub a b) \<longleftrightarrow> Uint_Sub a b = None"
  by (simp add: Uint_SafeSub_def Uint_Sub_def Let_def)

end
