(* ===== verification/Coins.thy ===== *)
theory Coins
  imports Ints
begin

text \<open>
  Component: \<open>src/types/coin.go\<close> (and the denomination constants of \<open>config.go\<close> and
  \<open>coin_type.go\<close>): \<open>Coin\<close>, the sorted coin sets \<open>Coins\<close> and their arithmetic.

  A \<open>Coins\<close> slice is a list. \<open>removeZeroCoins\<close> compacts its argument in place, so the
  operations built on it exist in two forms: the value they return, and (suffix \<open>_mem\<close>) the
  value together with what the caller's slices look like afterwards. The abstract view of a
  coin set is \<open>bal\<close>, the amount held of each denomination.
\<close>

section \<open>Denominations\<close>

definition Iris :: string where
  "Iris = ''iris''"

definition IrisAtto :: string where
  "IrisAtto = ''iris-atto''"

definition MinDenomSuffix :: string where
  "MinDenomSuffix = ''-min''"

definition FormatUniABSPrefix :: string where
  "FormatUniABSPrefix = ''uni:''"

definition reABS :: rexp where
  "reABS = ropt (RSeq (RCls ralpha) (RSeq (rrep 2 0 (RCls ralnum)) (rlit '':'')))"

definition reName :: rexp where
  "reName = RSeq (RCls ralpha) (rrep 2 5 (RCls ralnum))"

definition reCoinName :: rexp where
  "reCoinName = RSeq reABS (RSeq (ropt (RSeq (RAlt reName (rlit ''x'')) (rlit ''.''))) reName)"

definition reDenom :: rexp where
  "reDenom = RSeq reCoinName (ropt (RSeq (rlit ''-'') (rrep 3 2 (RCls ralpha))))"

definition IsCoinNameValid :: "string \<Rightarrow> bool" where
  "IsCoinNameValid coinName = matches reCoinName coinName"

definition IsCoinMinDenomValid :: "string \<Rightarrow> bool" where
  "IsCoinMinDenomValid denom =
     (if denom \<noteq> IrisAtto \<and> (\<not> HasSuffix denom MinDenomSuffix \<or> HasPrefix denom (Iris @ ''-''))
      then False else matches reDenom denom)"

section \<open>Coin\<close>

record Coin =
  Denom :: string
  Amount :: int

definition NewCoin :: "string \<Rightarrow> int \<Rightarrow> Coin option" where
  "NewCoin denom amount = (if amount < 0 then None else Some \<lparr>Denom = denom, Amount = amount\<rparr>)"

definition Coin_IsZero :: "Coin \<Rightarrow> bool" where
  "Coin_IsZero coin \<longleftrightarrow> Amount coin = 0"

definition Coin_IsPositive :: "Coin \<Rightarrow> bool" where
  "Coin_IsPositive coin \<longleftrightarrow> Amount coin > 0"

definition Coin_IsNegative :: "Coin \<Rightarrow> bool" where
  "Coin_IsNegative coin \<longleftrightarrow> Amount coin < 0"

definition Coin_IsValid :: "Coin \<Rightarrow> bool" where
  "Coin_IsValid coin = (if Coin_IsNegative coin then False else IsCoinMinDenomValid (Denom coin))"

definition Coin_IsValidIrisAtto :: "Coin \<Rightarrow> bool" where
  "Coin_IsValidIrisAtto coin \<longleftrightarrow> Denom coin = IrisAtto \<and> Coin_IsPositive coin"

definition Coin_IsGTE :: "Coin \<Rightarrow> Coin \<Rightarrow> bool" where
  "Coin_IsGTE coin other \<longleftrightarrow> Denom coin = Denom other \<and> Amount coin \<ge> Amount other"

definition Coin_IsLT :: "Coin \<Rightarrow> Coin \<Rightarrow> bool" where
  "Coin_IsLT coin other \<longleftrightarrow> Denom coin = Denom other \<and> Amount coin < Amount other"

definition Coin_IsEqual :: "Coin \<Rightarrow> Coin \<Rightarrow> bool" where
  "Coin_IsEqual coin other \<longleftrightarrow> Denom coin = Denom other \<and> Amount coin = Amount other"

definition Coin_Add :: "Coin \<Rightarrow> Coin \<Rightarrow> Coin option" where
  "Coin_Add coin coinB =
     (if Denom coin \<noteq> Denom coinB then None
      else do { amt \<leftarrow> Int_Add (Amount coin) (Amount coinB);
                Some \<lparr>Denom = Denom coin, Amount = amt\<rparr> })"

definition Coin_Sub :: "Coin \<Rightarrow> Coin \<Rightarrow> Coin option" where
  "Coin_Sub coin coinB =
     (if Denom coin \<noteq> Denom coinB then None
      else do { amt \<leftarrow> Int_Sub (Amount coin) (Amount coinB);
                NewCoin (Denom coin) amt })"

lemmas Coin_sign_defs [simp] = Coin_IsZero_def Coin_IsPositive_def Coin_IsNegative_def

section \<open>Coins\<close>

type_synonym Coins = "Coin list"

fun IsValid_from :: "string \<Rightarrow> Coins \<Rightarrow> bool" where
  "IsValid_from lowDenom [] = True"
| "IsValid_from lowDenom (coin # coins) =
     (if \<not> Coin_IsValid coin then False
      else if Denom coin \<le> lowDenom then False
      else IsValid_from (Denom coin) coins)"

fun Coins_IsValid :: "Coins \<Rightarrow> bool" where
  "Coins_IsValid [] = True"
| "Coins_IsValid [coin] = Coin_IsValid coin"
| "Coins_IsValid (coin # coins) =
     (if \<not> Coin_IsValid coin then False else IsValid_from (Denom coin) coins)"

definition Coins_IsValidIrisAtto :: "Coins \<Rightarrow> bool" where
  "Coins_IsValidIrisAtto coins = (case coins of [coin] \<Rightarrow> Coin_IsValidIrisAtto coin | _ \<Rightarrow> False)"

text \<open>
  \<open>removeZeroCoins\<close> walks the slice with an index \<open>i\<close> and a length \<open>l\<close>; each zero coin is
  removed by moving the rest of the slice one place to the left inside the backing array
  \<open>arr\<close>, whose tail keeps its old contents. The result is the slice \<open>arr[:i]\<close>; the caller's
  own slice, which still has its full length, now shows \<open>arr\<close>.
\<close>

function removeZero_loop :: "Coins \<Rightarrow> nat \<Rightarrow> nat \<Rightarrow> Coins \<times> Coins" where
  "removeZero_loop arr i l =
     (if i < l then
        (if Coin_IsZero (arr ! i)
         then removeZero_loop (take i arr @ drop (Suc i) (take l arr) @ drop (l - 1) arr) i (l - 1)
         else removeZero_loop arr (Suc i) l)
      else (take i arr, arr))"
  by pat_completeness auto
termination
  by (relation "measure (\<lambda>(arr, i, l). l - i)") auto

declare removeZero_loop.simps [simp del]

definition removeZeroCoins_mem :: "Coins \<Rightarrow> Coins \<times> Coins" where
  "removeZeroCoins_mem coins = removeZero_loop coins 0 (length coins)"

definition removeZeroCoins :: "Coins \<Rightarrow> Coins" where
  "removeZeroCoins coins = fst (removeZeroCoins_mem coins)"

text \<open>
  The merge loop of \<open>safeAdd\<close>. It returns the sum and what the two argument slices hold
  afterwards: the tail left over when one of them is exhausted is compacted in place.
\<close>

fun safeAdd_mem :: "Coins \<Rightarrow> Coins \<Rightarrow> (Coins \<times> Coins \<times> Coins) option" where
  "safeAdd_mem [] [] = Some ([], [], [])"
| "safeAdd_mem [] (b # bs) = (let (r, bs') = removeZeroCoins_mem (b # bs) in Some (r, [], bs'))"
| "safeAdd_mem (a # as) [] = (let (r, as') = removeZeroCoins_mem (a # as) in Some (r, as', []))"
| "safeAdd_mem (a # as) (b # bs) =
     (if Denom a < Denom b then
        do { (sum, as', bs') \<leftarrow> safeAdd_mem as (b # bs);
             Some (if Coin_IsZero a then sum else a # sum, a # as', bs') }
      else if Denom a = Denom b then
        do { res \<leftarrow> Coin_Add a b;
             (sum, as', bs') \<leftarrow> safeAdd_mem as bs;
             Some (if Coin_IsZero res then sum else res # sum, a # as', b # bs') }
      else
        do { (sum, as', bs') \<leftarrow> safeAdd_mem (a # as) bs;
             Some (if Coin_IsZero b then sum else b # sum, as', b # bs') })"

definition safeAdd :: "Coins \<Rightarrow> Coins \<Rightarrow> Coins option" where
  "safeAdd coins coinsB = map_option fst (safeAdd_mem coins coinsB)"

definition Coins_IsAnyNegative :: "Coins \<Rightarrow> bool" where
  "Coins_IsAnyNegative coins = list_ex Coin_IsNegative coins"

definition SafeAdd :: "Coins \<Rightarrow> Coins \<Rightarrow> (Coins \<times> bool) option" where
  "SafeAdd coins coinsB = do { sum \<leftarrow> safeAdd coins coinsB; Some (sum, Coins_IsAnyNegative sum) }"

definition Coins_Add :: "Coins \<Rightarrow> Coins \<Rightarrow> Coins option" where
  "Coins_Add coins coinsB =
     do { (sum, hasNeg) \<leftarrow> SafeAdd coins coinsB; if hasNeg then None else Some sum }"

text \<open>\<open>Add\<close> together with what the caller's second slice holds after the call.\<close>

definition Coins_Add_mem :: "Coins \<Rightarrow> Coins \<Rightarrow> (Coins \<times> Coins) option" where
  "Coins_Add_mem coins coinsB =
     do { (sum, _, coinsB') \<leftarrow> safeAdd_mem coins coinsB;
          if Coins_IsAnyNegative sum then None else Some (sum, coinsB') }"

definition negative :: "Coins \<Rightarrow> Coins" where
  "negative coins = map (\<lambda>coin. \<lparr>Denom = Denom coin, Amount = Int_Neg (Amount coin)\<rparr>) coins"

definition SafeSub :: "Coins \<Rightarrow> Coins \<Rightarrow> (Coins \<times> bool) option" where
  "SafeSub coins coinsB =
     do { diff \<leftarrow> safeAdd coins (negative coinsB); Some (diff, Coins_IsAnyNegative diff) }"

definition Coins_Sub :: "Coins \<Rightarrow> Coins \<Rightarrow> Coins option" where
  "Coins_Sub coins coinsB =
     do { (diff, hasNeg) \<leftarrow> SafeSub coins coinsB; if hasNeg then None else Some diff }"

definition Coins_IsZero :: "Coins \<Rightarrow> bool" where
  "Coins_IsZero coins = list_all Coin_IsZero coins"

function AmountOf :: "Coins \<Rightarrow> string \<Rightarrow> int" where
  "AmountOf [] denom = 0"
| "AmountOf [coin] denom = (if Denom coin = denom then Amount coin else 0)"
| "AmountOf (c1 # c2 # cs) denom =
     (let coins = c1 # c2 # cs; midIdx = length coins div 2; coin = coins ! midIdx in
      if denom < Denom coin then AmountOf (take midIdx coins) denom
      else if denom = Denom coin then Amount coin
      else AmountOf (drop (midIdx + 1) coins) denom)"
  by pat_completeness auto
termination
  by (relation "measure (\<lambda>(coins, denom). length coins)") auto

definition IsAllGT :: "Coins \<Rightarrow> Coins \<Rightarrow> bool" where
  "IsAllGT coins coinsB =
     (if Coins_IsZero coins then False
      else if Coins_IsZero coinsB then True
      else list_all (\<lambda>coinB. \<not> AmountOf coins (Denom coinB) \<le> Amount coinB) coinsB)"

definition IsAllGTE :: "Coins \<Rightarrow> Coins \<Rightarrow> bool" where
  "IsAllGTE coins coinsB =
     (if Coins_IsZero coinsB then True
      else if Coins_IsZero coins then False
      else list_all (\<lambda>coinB. \<not> AmountOf coins (Denom coinB) < Amount coinB) coinsB)"

definition IsAllLT :: "Coins \<Rightarrow> Coins \<Rightarrow> bool" where
  "IsAllLT coins coinsB = IsAllGT coinsB coins"

definition IsAllLTE :: "Coins \<Rightarrow> Coins \<Rightarrow> bool" where
  "IsAllLTE coins coinsB = IsAllGTE coinsB coins"

definition IsAnyGT :: "Coins \<Rightarrow> Coins \<Rightarrow> bool" where
  "IsAnyGT coins coinsB =
     (if coinsB = [] then False
      else list_ex (\<lambda>coin. let amt = AmountOf coinsB (Denom coin)
                           in Amount coin > amt \<and> amt \<noteq> 0) coins)"

definition IsAnyGTE :: "Coins \<Rightarrow> Coins \<Rightarrow> bool" where
  "IsAnyGTE coins coinsB =
     (if coinsB = [] then False
      else list_ex (\<lambda>coin. let amt = AmountOf coinsB (Denom coin)
                           in Amount coin \<ge> amt \<and> amt \<noteq> 0) coins)"

text \<open>\<open>sort.Sort\<close> by denomination. On coin sets, whose denominations differ, every sorting
  algorithm gives this list.\<close>

definition Coins_Sort :: "Coins \<Rightarrow> Coins" where
  "Coins_Sort coins = sort_key Denom coins"

definition Coins_IsEqual :: "Coins \<Rightarrow> Coins \<Rightarrow> bool" where
  "Coins_IsEqual coins coinsB =
     (if length coins \<noteq> length coinsB then False
      else list_all2 Coin_IsEqual (Coins_Sort coins) (Coins_Sort coinsB))"

definition IsAllPositive :: "Coins \<Rightarrow> bool" where
  "IsAllPositive coins = (if coins = [] then False else list_all Coin_IsPositive coins)"

fun GetCoin :: "Coins \<Rightarrow> string \<Rightarrow> Coin option" where
  "GetCoin [] denom = None"
| "GetCoin (coin # coins) denom = (if Denom coin = denom then Some coin else GetCoin coins denom)"

definition NewCoins :: "Coins \<Rightarrow> Coins option" where
  "NewCoins coins =
     (let newCoins = removeZeroCoins coins in
      if newCoins = [] then Some []
      else let newCoins = Coins_Sort newCoins in
        if \<not> Coins_IsValid newCoins then None else Some newCoins)"

fun IsValidV0_from :: "string \<Rightarrow> Coins \<Rightarrow> bool" where
  "IsValidV0_from lowDenom [] = True"
| "IsValidV0_from lowDenom (coin # coins) =
     (if Denom coin \<le> lowDenom then False
      else if \<not> Coin_IsPositive coin then False
      else IsValidV0_from (Denom coin) coins)"

fun Coins_IsValidV0 :: "Coins \<Rightarrow> bool" where
  "Coins_IsValidV0 [] = True"
| "Coins_IsValidV0 [coin] = Coin_IsPositive coin"
| "Coins_IsValidV0 (coin # coins) =
     (if \<not> Coin_IsPositive coin then False else IsValidV0_from (Denom coin) coins)"

section \<open>The abstract view of a coin set\<close>

text \<open>\<open>bal coins d\<close> is the amount of denomination \<open>d\<close> in \<open>coins\<close>; \<open>sorted_denoms\<close> is the
  order the merge relies on; \<open>holding\<close> is what the store keeps for an account: sorted, every
  amount positive and within the range of \<open>Int\<close>.\<close>

fun bal :: "Coins \<Rightarrow> string \<Rightarrow> int" where
  "bal [] d = 0"
| "bal (c # cs) d = (if Denom c = d then Amount c else 0) + bal cs d"

abbreviation sorted_denoms :: "Coins \<Rightarrow> bool" where
  "sorted_denoms cs \<equiv> sorted_wrt (<) (map Denom cs)"

definition nonneg :: "Coins \<Rightarrow> bool" where
  "nonneg cs \<longleftrightarrow> (\<forall>c\<in>set cs. 0 \<le> Amount c)"

definition no_zero :: "Coins \<Rightarrow> bool" where
  "no_zero cs \<longleftrightarrow> (\<forall>c\<in>set cs. Amount c \<noteq> 0)"

definition ranged :: "Coins \<Rightarrow> bool" where
  "ranged cs \<longleftrightarrow> (\<forall>c\<in>set cs. in_range (Amount c))"

definition holding :: "Coins \<Rightarrow> bool" where
  "holding cs \<longleftrightarrow> sorted_denoms cs \<and> nonneg cs \<and> no_zero cs \<and> ranged cs"

lemma bal_append [simp]: "bal (xs @ ys) d = bal xs d + bal ys d"
  by (induction xs) auto

lemma bal_notin: "d \<notin> Denom ` set cs \<Longrightarrow> bal cs d = 0"
  by (induction cs) auto

lemma bal_nonneg: "nonneg cs \<Longrightarrow> 0 \<le> bal cs d"
  by (induction cs) (auto simp: nonneg_def)

lemma bal_negative [simp]: "bal (negative cs) d = - bal cs d"
  by (induction cs) (auto simp: negative_def Int_Neg_def)

lemma Denom_negative [simp]: "map Denom (negative cs) = map Denom cs"
  by (simp add: negative_def comp_def)

lemma bal_filter_zero [simp]: "bal (filter (\<lambda>c. Amount c \<noteq> 0) cs) d = bal cs d"
  by (induction cs) auto

lemma bal_sorted_in:
  "sorted_denoms cs \<Longrightarrow> c \<in> set cs \<Longrightarrow> bal cs (Denom c) = Amount c"
proof (induction cs)
  case (Cons x xs)
  show ?case
  proof (cases "c = x")
    case True
    then have "Denom c \<notin> Denom ` set xs" using Cons.prems(1) by auto
    with True show ?thesis by (simp add: bal_notin)
  next
    case False
    then have "c \<in> set xs" using Cons.prems(2) by simp
    moreover from this have "Denom x \<noteq> Denom c" using Cons.prems(1) by auto
    ultimately show ?thesis using Cons by simp
  qed
qed simp

text \<open>Two sorted coin sets without zero entries and with equal balances are the same list.\<close>

lemma sorted_no_zero_dom:
  "sorted_denoms cs \<Longrightarrow> no_zero cs \<Longrightarrow> d \<in> Denom ` set cs \<longleftrightarrow> bal cs d \<noteq> 0"
  using bal_sorted_in [of cs] bal_notin [of d cs] by (auto simp: no_zero_def)

lemma Coin_eq_iff: "(x::Coin) = y \<longleftrightarrow> Denom x = Denom y \<and> Amount x = Amount y"
  by (cases x, cases y) simp

lemma coins_eqI:
  assumes "sorted_denoms xs" "no_zero xs" "sorted_denoms ys" "no_zero ys"
    and "\<And>d. bal xs d = bal ys d"
  shows "xs = ys"
proof -
  have "Denom ` set xs = Denom ` set ys"
    by (intro set_eqI) (simp only: sorted_no_zero_dom [OF assms(1,2)]
        sorted_no_zero_dom [OF assms(3,4)] assms(5))
  then have dens: "map Denom xs = map Denom ys"
    using assms(1,3) by (intro strict_sorted_equal) auto
  moreover have "map Amount xs = map Amount ys"
  proof -
    have a: "map Amount xs = map (bal xs) (map Denom xs)"
      using bal_sorted_in [OF assms(1)] by simp
    have b: "map Amount ys = map (bal ys) (map Denom ys)"
      using bal_sorted_in [OF assms(3)] by simp
    have "bal xs = bal ys" using assms(5) by (rule ext)
    then show ?thesis unfolding a b dens by simp
  qed
  ultimately show ?thesis
  proof (induction xs arbitrary: ys)
    case (Cons x xs)
    then obtain y ys' where "ys = y # ys'" by (cases ys) auto
    with Cons show ?case by (simp add: Coin_eq_iff)
  qed simp
qed

section \<open>In-place compaction\<close>

abbreviation nz :: "Coin \<Rightarrow> bool" where
  "nz c \<equiv> Amount c \<noteq> 0"

lemma removeZero_loop_stop: "\<not> i < l \<Longrightarrow> removeZero_loop arr i l = (take i arr, arr)"
  by (subst removeZero_loop.simps) simp

lemma removeZero_loop_zero:
  "i < l \<Longrightarrow> Amount (arr ! i) = 0 \<Longrightarrow>
   removeZero_loop arr i l =
     removeZero_loop (take i arr @ drop (Suc i) (take l arr) @ drop (l - 1) arr) i (l - 1)"
  by (subst removeZero_loop.simps) simp

lemma removeZero_loop_next:
  "i < l \<Longrightarrow> Amount (arr ! i) \<noteq> 0 \<Longrightarrow> removeZero_loop arr i l = removeZero_loop arr (Suc i) l"
  by (subst removeZero_loop.simps) simp

lemma drop_take_Cons:
  "i < l \<Longrightarrow> l \<le> length arr \<Longrightarrow> drop i (take l arr) = arr ! i # drop (Suc i) (take l arr)"
  using Cons_nth_drop_Suc [of i "take l arr"] by simp

lemma removeZero_loop_fst:
  "i \<le> l \<Longrightarrow> l \<le> length arr \<Longrightarrow>
   fst (removeZero_loop arr i l) = take i arr @ filter nz (drop i (take l arr))"
proof (induction arr i l rule: removeZero_loop.induct)
  case (1 arr i l)
  consider (stop) "\<not> i < l" | (zero) "i < l" "Amount (arr ! i) = 0"
    | (step) "i < l" "Amount (arr ! i) \<noteq> 0" by blast
  then show ?case
  proof cases
    case stop
    with "1.prems" show ?thesis by (simp add: removeZero_loop_stop)
  next
    case zero
    let ?arr = "take i arr @ drop (Suc i) (take l arr) @ drop (l - 1) arr"
    have "fst (removeZero_loop arr i l) = fst (removeZero_loop ?arr i (l - 1))"
      using zero by (simp only: removeZero_loop_zero)
    also have "\<dots> = take i ?arr @ filter nz (drop i (take (l - 1) ?arr))"
      using "1.prems" zero by (intro "1.IH"(1)) auto
    also have "take i ?arr = take i arr" using "1.prems" zero by simp
    also have "drop i (take (l - 1) ?arr) = drop (Suc i) (take l arr)"
      using "1.prems" zero by simp
    finally show ?thesis
      using zero drop_take_Cons [OF zero(1) "1.prems"(2)] by simp
  next
    case step
    then have "fst (removeZero_loop arr i l) =
        take (Suc i) arr @ filter nz (drop (Suc i) (take l arr))"
      using "1.IH"(2) "1.prems" by (simp add: removeZero_loop_next)
    then show ?thesis
      using step drop_take_Cons [OF step(1) "1.prems"(2)] "1.prems"
      by (simp add: take_Suc_conv_app_nth)
  qed
qed

lemma removeZero_loop_id:
  "l \<le> length arr \<Longrightarrow> \<forall>c\<in>set (drop i (take l arr)). nz c \<Longrightarrow> snd (removeZero_loop arr i l) = arr"
proof (induction arr i l rule: removeZero_loop.induct)
  case (1 arr i l)
  show ?case
  proof (cases "i < l")
    case True
    with "1.prems" have "Amount (arr ! i) \<noteq> 0" and "\<forall>c\<in>set (drop (Suc i) (take l arr)). nz c"
      by (simp_all add: drop_take_Cons)
    with "1.IH"(2) True "1.prems"(1) show ?thesis by (simp add: removeZero_loop_next)
  qed (simp add: removeZero_loop_stop)
qed

lemma removeZeroCoins_filter: "removeZeroCoins cs = filter nz cs"
  using removeZero_loop_fst [of 0 "length cs" cs]
  by (simp add: removeZeroCoins_def removeZeroCoins_mem_def)

lemma removeZeroCoins_mem_fst [simp]: "fst (removeZeroCoins_mem cs) = filter nz cs"
  using removeZeroCoins_filter by (simp add: removeZeroCoins_def)

lemma removeZeroCoins_mem_id: "no_zero cs \<Longrightarrow> snd (removeZeroCoins_mem cs) = cs"
  using removeZero_loop_id [of "length cs" cs 0]
  by (simp add: removeZeroCoins_mem_def no_zero_def)

section \<open>The merge\<close>

lemma Coin_Add_Some [simp]:
  "Coin_Add a b = Some c \<longleftrightarrow>
     Denom a = Denom b \<and> in_range (Amount a + Amount b) \<and>
     c = \<lparr>Denom = Denom a, Amount = Amount a + Amount b\<rparr>"
  by (auto simp: Coin_Add_def bind_eq_Some_conv)

lemma removeZeroCoins_memD: "removeZeroCoins_mem cs = (r, x) \<Longrightarrow> r = filter nz cs"
  using removeZeroCoins_mem_fst [of cs] by simp

lemma safeAdd_mem_lt:
  "Denom a < Denom b \<Longrightarrow> safeAdd_mem (a # as) (b # bs) = Some (c, a', b') \<longleftrightarrow>
     (\<exists>sum as'. safeAdd_mem as (b # bs) = Some (sum, as', b') \<and> a' = a # as' \<and>
        c = (if nz a then a # sum else sum))"
  by (auto simp: bind_eq_Some_conv)

lemma safeAdd_mem_eq:
  "Denom a = Denom b \<Longrightarrow> safeAdd_mem (a # as) (b # bs) = Some (c, a', b') \<longleftrightarrow>
     in_range (Amount a + Amount b) \<and>
     (\<exists>sum as' bs'. safeAdd_mem as bs = Some (sum, as', bs') \<and> a' = a # as' \<and> b' = b # bs' \<and>
        c = (if Amount a + Amount b = 0 then sum
             else \<lparr>Denom = Denom a, Amount = Amount a + Amount b\<rparr> # sum))"
  by (auto simp: bind_eq_Some_conv)

lemma safeAdd_mem_gt:
  "Denom b < Denom a \<Longrightarrow> safeAdd_mem (a # as) (b # bs) = Some (c, a', b') \<longleftrightarrow>
     (\<exists>sum bs'. safeAdd_mem (a # as) bs = Some (sum, a', bs') \<and> b' = b # bs' \<and>
        c = (if nz b then b # sum else sum))"
  by (auto simp: bind_eq_Some_conv)

text \<open>Case analysis of one round of the merge, with what the recursive call returned.\<close>

lemma safeAdd_mem_cases [consumes 1, case_names lt eq gt]:
  assumes "safeAdd_mem (a # as) (b # bs) = Some (c, a', b')"
  obtains sum as' where "Denom a < Denom b" "safeAdd_mem as (b # bs) = Some (sum, as', b')"
      "a' = a # as'" "c = (if nz a then a # sum else sum)"
  | sum as' bs' where "Denom a = Denom b" "in_range (Amount a + Amount b)"
      "safeAdd_mem as bs = Some (sum, as', bs')" "a' = a # as'" "b' = b # bs'"
      "c = (if Amount a + Amount b = 0 then sum
            else \<lparr>Denom = Denom a, Amount = Amount a + Amount b\<rparr> # sum)"
  | sum bs' where "Denom b < Denom a" "safeAdd_mem (a # as) bs = Some (sum, a', bs')"
      "b' = b # bs'" "c = (if nz b then b # sum else sum)"
proof -
  consider "Denom a < Denom b" | "Denom a = Denom b" | "Denom b < Denom a"
    by (rule linorder_cases)
  then show ?thesis
  proof cases
    case 1 with assms that(1) show ?thesis by (simp only: safeAdd_mem_lt) blast
  next
    case 2 with assms that(2) show ?thesis by (simp only: safeAdd_mem_eq) blast
  next
    case 3 with assms that(3) show ?thesis by (simp only: safeAdd_mem_gt) blast
  qed
qed

lemma safeAdd_mem_bal:
  "safeAdd_mem a b = Some (c, a', b') \<Longrightarrow> bal c d = bal a d + bal b d"
proof (induction a b arbitrary: c a' b' rule: safeAdd_mem.induct)
  case (4 a as b bs)
  from "4.prems" show ?case
  proof (cases rule: safeAdd_mem_cases)
    case (lt sum as')
    from "4.IH"(1) [OF lt(1,2)] lt(4) show ?thesis by simp
  next
    case (eq sum as' bs')
    have "bal sum d = bal as d + bal bs d"
      using "4.IH"(2) eq(1,2,3) by simp
    with eq(1,6) show ?thesis by simp
  next
    case (gt sum bs')
    have "bal sum d = bal (a # as) d + bal bs d"
      using "4.IH"(3) gt(1,2) by simp
    with gt(4) show ?thesis by simp
  qed
qed (auto split: prod.splits dest!: removeZeroCoins_memD)

lemma safeAdd_mem_denoms:
  "safeAdd_mem a b = Some (c, a', b') \<Longrightarrow> Denom ` set c \<subseteq> Denom ` set a \<union> Denom ` set b"
proof (induction a b arbitrary: c a' b' rule: safeAdd_mem.induct)
  case (4 a as b bs)
  from "4.prems" show ?case
  proof (cases rule: safeAdd_mem_cases)
    case (lt sum as')
    from "4.IH"(1) [OF lt(1,2)] lt(4) show ?thesis by auto
  next
    case (eq sum as' bs')
    have "Denom ` set sum \<subseteq> Denom ` set as \<union> Denom ` set bs" using "4.IH"(2) eq(1,2,3) by simp
    with eq(6) show ?thesis by auto
  next
    case (gt sum bs')
    have "Denom ` set sum \<subseteq> Denom ` set (a # as) \<union> Denom ` set bs" using "4.IH"(3) gt(1,2) by simp
    with gt(4) show ?thesis by auto
  qed
qed (auto split: prod.splits if_splits dest!: removeZeroCoins_memD)

lemma safeAdd_mem_no_zero: "safeAdd_mem a b = Some (c, a', b') \<Longrightarrow> no_zero c"
proof (induction a b arbitrary: c a' b' rule: safeAdd_mem.induct)
  case (4 a as b bs)
  from "4.prems" show ?case
  proof (cases rule: safeAdd_mem_cases)
    case (lt sum as')
    from "4.IH"(1) [OF lt(1,2)] lt(4) show ?thesis by (simp add: no_zero_def)
  next
    case (eq sum as' bs')
    have "no_zero sum" using "4.IH"(2) eq(1,2,3) by simp
    with eq(6) show ?thesis by (simp add: no_zero_def)
  next
    case (gt sum bs')
    have "no_zero sum" using "4.IH"(3) gt(1,2) by simp
    with gt(4) show ?thesis by (simp add: no_zero_def)
  qed
qed (auto split: prod.splits if_splits dest!: removeZeroCoins_memD simp: no_zero_def)

lemma sorted_denoms_filter: "sorted_denoms cs \<Longrightarrow> sorted_denoms (filter P cs)"
  by (induction cs) auto

lemma sorted_denoms_Cons_below:
  "sorted_denoms cs \<Longrightarrow> Denom ` set cs \<subseteq> A \<Longrightarrow> (\<And>d. d \<in> A \<Longrightarrow> Denom c < d) \<Longrightarrow> sorted_denoms (c # cs)"
  by auto

lemma safeAdd_mem_sorted:
  "safeAdd_mem a b = Some (c, a', b') \<Longrightarrow> sorted_denoms a \<Longrightarrow> sorted_denoms b \<Longrightarrow> sorted_denoms c"
proof (induction a b arbitrary: c a' b' rule: safeAdd_mem.induct)
  case (4 a as b bs)
  from "4.prems"(1) show ?case
  proof (cases rule: safeAdd_mem_cases)
    case (lt sum as')
    have "sorted_denoms sum" using "4.IH"(1) [OF lt(1,2)] "4.prems" by simp
    moreover have "sorted_denoms (a # sum)"
      by (rule sorted_denoms_Cons_below [OF \<open>sorted_denoms sum\<close> safeAdd_mem_denoms [OF lt(2)]])
        (use lt(1) "4.prems" in auto)
    ultimately show ?thesis using lt(4) by simp
  next
    case (eq sum as' bs')
    have s: "sorted_denoms sum" using "4.IH"(2) eq(1,2,3) "4.prems" by simp
    have "sorted_denoms (\<lparr>Denom = Denom a, Amount = Amount a + Amount b\<rparr> # sum)"
      by (rule sorted_denoms_Cons_below [OF s safeAdd_mem_denoms [OF eq(3)]])
        (use eq(1) "4.prems" in auto)
    then show ?thesis using eq(6) s by simp
  next
    case (gt sum bs')
    have s: "sorted_denoms sum" using "4.IH"(3) gt(1,2) "4.prems" by simp
    have "sorted_denoms (b # sum)"
      by (rule sorted_denoms_Cons_below [OF s safeAdd_mem_denoms [OF gt(2)]])
        (use gt(1) "4.prems" in auto)
    then show ?thesis using gt(4) s by simp
  qed
qed (auto split: prod.splits dest!: removeZeroCoins_memD intro: sorted_denoms_filter)

lemma safeAdd_mem_defined:
  "sorted_denoms a \<Longrightarrow> sorted_denoms b \<Longrightarrow> (\<And>d. in_range (bal a d + bal b d)) \<Longrightarrow>
   \<exists>c a' b'. safeAdd_mem a b = Some (c, a', b')"
proof (induction a b rule: safeAdd_mem.induct)
  case (4 a as b bs)
  note sa = "4.prems"(1) and sb = "4.prems"(2) and rng = "4.prems"(3)
  have tails: "sorted_denoms as" "sorted_denoms bs" using sa sb by simp_all
  consider (lt) "Denom a < Denom b" | (eq) "Denom a = Denom b" | (gt) "Denom b < Denom a"
    by (rule linorder_cases)
  then show ?case
  proof cases
    case lt
    have "in_range (bal as d + bal (b # bs) d)" for d
    proof (cases "d = Denom a")
      case True
      then have "d \<notin> Denom ` set (b # bs)" "d \<notin> Denom ` set as" using lt sa sb by auto
      then have "bal as d + bal (b # bs) d = 0" by (simp add: bal_notin del: bal.simps)
      then show ?thesis by (simp add: in_range_def)
    next
      case False
      then show ?thesis using rng [of d] by auto
    qed
    from "4.IH"(1) [OF lt tails(1) sb this] lt show ?thesis by auto
  next
    case eq
    have r: "in_range (Amount a + Amount b)"
      using rng [of "Denom a"] bal_sorted_in [OF sa, of a] bal_sorted_in [OF sb, of b] eq by simp
    have "in_range (bal as d + bal bs d)" for d
    proof (cases "d = Denom a")
      case True
      then have "d \<notin> Denom ` set bs" "d \<notin> Denom ` set as" using eq sa sb by auto
      then show ?thesis by (simp add: bal_notin in_range_def)
    next
      case False
      then show ?thesis using rng [of d] eq by auto
    qed
    then obtain c a' b' where "safeAdd_mem as bs = Some (c, a', b')"
      using "4.IH"(2) [of "\<lparr>Denom = Denom a, Amount = Amount a + Amount b\<rparr>"] eq tails r by auto
    moreover have "Coin_Add a b = Some \<lparr>Denom = Denom a, Amount = Amount a + Amount b\<rparr>"
      using eq r by simp
    ultimately show ?thesis using eq by (simp del: Coin_Add_Some)
  next
    case gt
    then have n: "\<not> Denom a < Denom b" "Denom a \<noteq> Denom b" by auto
    have "in_range (bal (a # as) d + bal bs d)" for d
    proof (cases "d = Denom b")
      case True
      then have "d \<notin> Denom ` set (a # as)" "d \<notin> Denom ` set bs" using gt sa sb by auto
      then have "bal (a # as) d + bal bs d = 0" by (simp add: bal_notin del: bal.simps)
      then show ?thesis by (simp add: in_range_def)
    next
      case False
      then show ?thesis using rng [of d] by auto
    qed
    from "4.IH"(3) [OF n sa tails(2) this] n show ?thesis by auto
  qed
qed (auto split: prod.splits)

text \<open>A slice without zero coins is not touched by the compaction.\<close>

lemma safeAdd_mem_args:
  "safeAdd_mem a b = Some (c, a', b') \<Longrightarrow> (no_zero a \<longrightarrow> a' = a) \<and> (no_zero b \<longrightarrow> b' = b)"
proof (induction a b arbitrary: c a' b' rule: safeAdd_mem.induct)
  case (2 b bs)
  then show ?case using removeZeroCoins_mem_id [of "b # bs"] by (auto split: prod.splits)
next
  case (3 a as)
  then show ?case using removeZeroCoins_mem_id [of "a # as"] by (auto split: prod.splits)
next
  case (4 a as b bs)
  from "4.prems" show ?case
  proof (cases rule: safeAdd_mem_cases)
    case (lt sum as')
    from "4.IH"(1) [OF lt(1,2)] lt(3) show ?thesis by (simp add: no_zero_def)
  next
    case (eq sum as' bs')
    have "(no_zero as \<longrightarrow> as' = as) \<and> (no_zero bs \<longrightarrow> bs' = bs)" using "4.IH"(2) eq(1,2,3) by simp
    with eq(4,5) show ?thesis by (simp add: no_zero_def)
  next
    case (gt sum bs')
    have "(no_zero (a # as) \<longrightarrow> a' = a # as) \<and> (no_zero bs \<longrightarrow> bs' = bs)"
      using "4.IH"(3) gt(1,2) by simp
    with gt(3) show ?thesis by (simp add: no_zero_def)
  qed
qed simp

lemma ranged_simps [simp]: "ranged []" "ranged (c # cs) \<longleftrightarrow> in_range (Amount c) \<and> ranged cs"
  by (simp_all add: ranged_def)

lemma ranged_filter: "ranged cs \<Longrightarrow> ranged (filter P cs)"
  by (simp add: ranged_def)

lemma safeAdd_mem_ranged: "safeAdd_mem a b = Some (c, a', b') \<Longrightarrow> ranged a \<Longrightarrow> ranged b \<Longrightarrow> ranged c"
proof (induction a b arbitrary: c a' b' rule: safeAdd_mem.induct)
  case (4 a as b bs)
  from "4.prems"(1) show ?case
  proof (cases rule: safeAdd_mem_cases)
    case (lt sum as')
    from "4.IH"(1) [OF lt(1,2)] lt(4) "4.prems"(2,3) show ?thesis by simp
  next
    case (eq sum as' bs')
    have "ranged sum" using "4.IH"(2) eq(1,2,3) "4.prems"(2,3) by simp
    with eq(2,6) show ?thesis by simp
  next
    case (gt sum bs')
    have "ranged sum" using "4.IH"(3) gt(1,2) "4.prems"(2,3) by simp
    with gt(4) "4.prems"(3) show ?thesis by simp
  qed
qed (auto split: prod.splits dest!: removeZeroCoins_memD simp: ranged_filter)

section \<open>Addition, subtraction and comparison\<close>

lemma safeAdd_SomeE:
  assumes "safeAdd a b = Some c"
  obtains a' b' where "safeAdd_mem a b = Some (c, a', b')"
  using assms by (auto simp: safeAdd_def)

lemma safeAdd_bal: "safeAdd a b = Some c \<Longrightarrow> bal c d = bal a d + bal b d"
  by (elim safeAdd_SomeE) (rule safeAdd_mem_bal)

lemma safeAdd_wf:
  "safeAdd a b = Some c \<Longrightarrow> sorted_denoms a \<Longrightarrow> sorted_denoms b \<Longrightarrow> sorted_denoms c \<and> no_zero c"
  by (elim safeAdd_SomeE) (blast intro: safeAdd_mem_sorted safeAdd_mem_no_zero)

lemma safeAdd_defined:
  "sorted_denoms a \<Longrightarrow> sorted_denoms b \<Longrightarrow> (\<And>d. in_range (bal a d + bal b d)) \<Longrightarrow>
   \<exists>c. safeAdd a b = Some c"
  using safeAdd_mem_defined [of a b] by (auto simp: safeAdd_def)

lemma IsAnyNegative_nonneg [simp]: "Coins_IsAnyNegative cs \<longleftrightarrow> \<not> nonneg cs"
  by (auto simp: nonneg_def Coins_IsAnyNegative_def list_ex_iff not_le)

lemma nonneg_bal_iff:
  assumes "sorted_denoms cs"
  shows "nonneg cs \<longleftrightarrow> (\<forall>d. 0 \<le> bal cs d)"
proof
  assume "\<forall>d. 0 \<le> bal cs d"
  then show "nonneg cs" using bal_sorted_in [OF assms] by (metis nonneg_def)
qed (simp add: bal_nonneg)

lemma Coins_Add_Some:
  "Coins_Add a b = Some c \<longleftrightarrow> safeAdd a b = Some c \<and> nonneg c"
  by (auto simp: Coins_Add_def SafeAdd_def bind_eq_Some_conv)

lemma Coins_Add_mem_Some:
  "Coins_Add_mem a b = Some (c, b') \<longleftrightarrow> (\<exists>a'. safeAdd_mem a b = Some (c, a', b')) \<and> nonneg c"
  by (auto simp: Coins_Add_mem_def bind_eq_Some_conv split: if_splits)

text \<open>\<open>Add\<close> of two account holdings always returns, with the pointwise sum, unless an amount
  leaves the 255-bit range.\<close>

lemma Coins_Add_bal: "Coins_Add a b = Some c \<Longrightarrow> bal c d = bal a d + bal b d"
  by (auto simp: Coins_Add_Some safeAdd_bal)

lemma Coins_Add_holding:
  assumes "Coins_Add a b = Some c" "holding a" "sorted_denoms b" "ranged b"
  shows "holding c"
proof -
  have "safeAdd a b = Some c" "nonneg c" using assms(1) by (simp_all add: Coins_Add_Some)
  moreover from this(1) have "ranged c"
    by (elim safeAdd_SomeE) (use assms in \<open>auto simp: holding_def intro: safeAdd_mem_ranged\<close>)
  ultimately show ?thesis using assms safeAdd_wf [of a b c] by (simp add: holding_def)
qed

lemma Coins_Add_mem_fst: "Coins_Add_mem a b = Some (c, b') \<Longrightarrow> Coins_Add a b = Some c"
  by (auto simp: Coins_Add_mem_Some Coins_Add_Some safeAdd_def)

lemma Coins_Add_mem_arg:
  "Coins_Add_mem a b = Some (c, b') \<Longrightarrow> no_zero b \<Longrightarrow> b' = b"
  by (auto simp: Coins_Add_mem_Some dest: safeAdd_mem_args)

lemma SafeSub_Some:
  "SafeSub a b = Some (c, neg) \<longleftrightarrow> safeAdd a (negative b) = Some c \<and> neg = (\<not> nonneg c)"
  by (auto simp: SafeSub_def bind_eq_Some_conv)

lemma SafeSub_bal: "SafeSub a b = Some (c, neg) \<Longrightarrow> bal c d = bal a d - bal b d"
  using safeAdd_bal [of a "negative b" c d] by (simp add: SafeSub_Some)

lemma SafeSub_wf:
  "SafeSub a b = Some (c, neg) \<Longrightarrow> sorted_denoms a \<Longrightarrow> sorted_denoms b \<Longrightarrow>
   sorted_denoms c \<and> no_zero c"
  using safeAdd_wf [of a "negative b" c] by (simp add: SafeSub_Some)

text \<open>The flag of \<open>SafeSub\<close> is raised exactly when some denomination is short.\<close>

lemma SafeSub_flag:
  assumes "SafeSub a b = Some (c, neg)" "sorted_denoms a" "sorted_denoms b"
  shows "neg \<longleftrightarrow> (\<exists>d. bal a d < bal b d)"
  using nonneg_bal_iff [of c] SafeSub_wf [OF assms] SafeSub_bal [OF assms(1)] assms(1)
  by (simp add: SafeSub_Some not_le)

lemma ranged_bal:
  assumes "sorted_denoms cs"
  shows "ranged cs \<longleftrightarrow> (\<forall>d. in_range (bal cs d))"
proof
  assume r: "ranged cs"
  have "in_range (bal cs d)" for d
  proof (cases "d \<in> Denom ` set cs")
    case True
    then obtain c where "c \<in> set cs" "d = Denom c" by blast
    then show ?thesis using r bal_sorted_in [OF assms] by (simp add: ranged_def)
  qed (simp add: bal_notin in_range_def)
  then show "\<forall>d. in_range (bal cs d)" ..
next
  assume "\<forall>d. in_range (bal cs d)"
  then show "ranged cs" using bal_sorted_in [OF assms] by (metis ranged_def)
qed

lemma in_range_between: "0 \<le> x \<Longrightarrow> x \<le> y \<Longrightarrow> in_range y \<Longrightarrow> in_range x"
  by (simp add: in_range_def)

lemma SafeSub_holding:
  assumes "SafeSub a b = Some (c, False)" "holding a" "sorted_denoms b" "nonneg b"
  shows "holding c" "ranged b"
proof -
  have a: "sorted_denoms a" "\<And>d. in_range (bal a d)"
    using assms(2) ranged_bal [of a] by (auto simp: holding_def)
  have c: "sorted_denoms c" "no_zero c" "nonneg c"
    using SafeSub_wf [OF assms(1) a(1) assms(3)] assms(1) by (auto simp: SafeSub_Some)
  note eq = SafeSub_bal [OF assms(1)] and pos = bal_nonneg [OF c(3)] bal_nonneg [OF assms(4)]
  have "in_range (bal c d)" "in_range (bal b d)" for d
    using eq [of d] pos [of d] by (auto intro: in_range_between [OF _ _ a(2) [of d]])
  then show "holding c" "ranged b"
    using c ranged_bal [OF c(1)] ranged_bal [OF assms(3)] by (auto simp: holding_def)
qed

text \<open>Neither operation panics on stored holdings, as long as the sum stays in range.\<close>

lemma in_range_diff: "0 \<le> x \<Longrightarrow> 0 \<le> y \<Longrightarrow> in_range x \<Longrightarrow> in_range y \<Longrightarrow> in_range (x - y)"
  by (simp add: in_range_def)

lemma SafeSub_defined:
  assumes "holding a" "sorted_denoms b" "nonneg b" "ranged b"
  shows "\<exists>c. SafeSub a b = Some (c, \<exists>d. bal a d < bal b d)"
proof -
  have a: "sorted_denoms a" "nonneg a" "ranged a" using assms(1) by (simp_all add: holding_def)
  have "in_range (bal a d - bal b d)" for d
    using a assms ranged_bal [OF a(1)] ranged_bal [OF assms(2)]
    by (intro in_range_diff) (simp_all add: bal_nonneg)
  then obtain c where "safeAdd a (negative b) = Some c"
    using safeAdd_defined [of a "negative b"] a(1) assms(2) by auto
  then have s: "SafeSub a b = Some (c, \<not> nonneg c)" by (simp add: SafeSub_Some)
  then show ?thesis using SafeSub_flag [OF s a(1) assms(2)] by auto
qed

lemma Coins_Add_defined:
  assumes "holding a" "sorted_denoms b" "nonneg b" "\<And>d. in_range (bal a d + bal b d)"
  shows "\<exists>c b'. Coins_Add_mem a b = Some (c, b')"
proof -
  have a: "sorted_denoms a" "nonneg a" using assms(1) by (simp_all add: holding_def)
  obtain c a' b' where m: "safeAdd_mem a b = Some (c, a', b')"
    using safeAdd_mem_defined [OF a(1) assms(2,4)] by blast
  have "nonneg c"
    using nonneg_bal_iff [OF safeAdd_mem_sorted [OF m a(1) assms(2)]] safeAdd_mem_bal [OF m]
      bal_nonneg [OF a(2)] bal_nonneg [OF assms(3)] by simp
  with m show ?thesis unfolding Coins_Add_mem_Some by blast
qed

lemma Coins_Sub_Some: "Coins_Sub a b = Some c \<longleftrightarrow> SafeSub a b = Some (c, False)"
  by (auto simp: Coins_Sub_def bind_eq_Some_conv split: if_splits)

lemma bal_in_range:
  assumes "sorted_denoms cs" "\<forall>c\<in>set cs. in_range (Amount c)"
  shows "in_range (bal cs d)"
proof (cases "d \<in> Denom ` set cs")
  case True
  then show ?thesis using assms bal_sorted_in [OF assms(1)] by auto
qed (simp add: bal_notin in_range_def)

text \<open>The binary search of \<open>AmountOf\<close> finds the amount in every sorted set.\<close>

lemma bal_split_mid:
  assumes "sorted_denoms cs" "m < length cs"
  shows "bal cs d =
    (if d < Denom (cs ! m) then bal (take m cs) d
     else if d = Denom (cs ! m) then Amount (cs ! m) else bal (drop (Suc m) cs) d)"
proof -
  let ?x = "cs ! m"
  have split: "cs = take m cs @ ?x # drop (Suc m) cs" using assms(2) by (rule id_take_nth_drop)
  have low: "e < Denom ?x" if "e \<in> Denom ` set (take m cs)" for e
    using assms(1) that by (subst (asm) split) (auto simp: sorted_wrt_append)
  have high: "Denom ?x < e" if "e \<in> Denom ` set (drop (Suc m) cs)" for e
    using assms(1) that by (subst (asm) split) (auto simp: sorted_wrt_append)
  have sum: "bal cs d =
      bal (take m cs) d + (if Denom ?x = d then Amount ?x else 0) + bal (drop (Suc m) cs) d"
    by (subst split) simp
  consider "d < Denom ?x" | "d = Denom ?x" | "Denom ?x < d" by (rule linorder_cases)
  then show ?thesis
  proof cases
    case 1
    then have "d \<notin> Denom ` set (drop (Suc m) cs)" using high by fastforce
    with 1 show ?thesis using sum by (auto simp: bal_notin)
  next
    case 2
    then have "d \<notin> Denom ` set (drop (Suc m) cs)" "d \<notin> Denom ` set (take m cs)"
      using high low by fastforce+
    with 2 show ?thesis using sum by (simp add: bal_notin)
  next
    case 3
    then have "d \<notin> Denom ` set (take m cs)" using low by fastforce
    with 3 show ?thesis using sum by (auto simp: bal_notin)
  qed
qed

lemma AmountOf_bal: "sorted_denoms cs \<Longrightarrow> AmountOf cs d = bal cs d"
proof (induction cs d rule: AmountOf.induct)
  case (3 c1 c2 cs d)
  let ?cs = "c1 # c2 # cs" and ?m = "length (c1 # c2 # cs) div 2"
  have len: "?m < length ?cs" by simp
  have parts: "sorted_denoms (take ?m ?cs)" "sorted_denoms (drop (Suc ?m) ?cs)"
    using "3.prems" by (simp_all only: take_map [symmetric] drop_map [symmetric]
        sorted_wrt_take sorted_wrt_drop)
  show ?case
    unfolding AmountOf.simps Let_def bal_split_mid [OF "3.prems" len]
    using "3.IH"(1) [OF refl refl refl _ parts(1)] "3.IH"(2) [OF refl refl refl _ _ ] parts(2)
    by simp
qed simp_all

lemma Coins_IsZero_bal:
  assumes "sorted_denoms cs"
  shows "Coins_IsZero cs \<longleftrightarrow> (\<forall>d. bal cs d = 0)"
proof
  assume "Coins_IsZero cs"
  then show "\<forall>d. bal cs d = 0"
    by (induction cs) (auto simp: Coins_IsZero_def)
next
  assume "\<forall>d. bal cs d = 0"
  then show "Coins_IsZero cs"
    using bal_sorted_in [OF assms] by (auto simp: Coins_IsZero_def list_all_iff)
qed

lemma all_coins_le_bal:
  assumes "sorted_denoms b" and f: "\<And>d. 0 \<le> f d"
  shows "list_all (\<lambda>c. \<not> f (Denom c) < Amount c) b \<longleftrightarrow> (\<forall>d. bal b d \<le> f d)"
proof
  assume l: "list_all (\<lambda>c. \<not> f (Denom c) < Amount c) b"
  show "\<forall>d. bal b d \<le> f d"
  proof
    fix d show "bal b d \<le> f d"
    proof (cases "d \<in> Denom ` set b")
      case True
      then obtain c where "c \<in> set b" "d = Denom c" by blast
      with l show ?thesis using bal_sorted_in [OF assms(1)] by (simp add: list_all_iff not_less)
    qed (simp add: bal_notin f)
  qed
next
  assume r: "\<forall>d. bal b d \<le> f d"
  have "Amount c \<le> f (Denom c)" if "c \<in> set b" for c
    using r [rule_format, of "Denom c"] bal_sorted_in [OF assms(1) that] by simp
  then show "list_all (\<lambda>c. \<not> f (Denom c) < Amount c) b" by (simp add: list_all_iff not_less)
qed

lemma IsAllGTE_iff:
  assumes "sorted_denoms a" "sorted_denoms b" "nonneg a" "nonneg b"
  shows "IsAllGTE a b \<longleftrightarrow> (\<forall>d. bal b d \<le> bal a d)"
proof -
  note pos = bal_nonneg [OF assms(3)] bal_nonneg [OF assms(4)]
  have gte: "list_all (\<lambda>c. \<not> AmountOf a (Denom c) < Amount c) b \<longleftrightarrow> (\<forall>d. bal b d \<le> bal a d)"
    using all_coins_le_bal [OF assms(2) pos(1)] by (simp add: AmountOf_bal [OF assms(1)])
  show ?thesis
  proof (cases "Coins_IsZero b")
    case True
    then show ?thesis using pos by (simp add: IsAllGTE_def Coins_IsZero_bal [OF assms(2)])
  next
    case False
    then obtain d where "bal b d > 0"
      using pos Coins_IsZero_bal [OF assms(2)] by (metis order_le_less)
    then have "(\<forall>d. bal b d \<le> bal a d) \<Longrightarrow> \<not> Coins_IsZero a"
      using Coins_IsZero_bal [OF assms(1)] by (metis not_less)
    then show ?thesis using False gte by (auto simp: IsAllGTE_def)
  qed
qed

lemma IsValid_from_sorted:
  "IsValid_from low cs \<Longrightarrow> sorted_denoms cs \<and> nonneg cs \<and> (\<forall>c\<in>set cs. low < Denom c \<and> Coin_IsValid c)"
proof (induction low cs rule: IsValid_from.induct)
  case (2 low c cs)
  then have "low < Denom c" and "Coin_IsValid c" and
    "sorted_denoms cs \<and> nonneg cs \<and> (\<forall>x\<in>set cs. Denom c < Denom x \<and> Coin_IsValid x)"
    by (auto split: if_splits)
  moreover from this have "0 \<le> Amount c" by (auto simp: Coin_IsValid_def split: if_splits)
  ultimately show ?case by (auto simp: nonneg_def intro: less_trans)
qed (simp add: nonneg_def)

lemma Coins_IsValid_sorted:
  assumes "Coins_IsValid cs"
  shows "sorted_denoms cs" "nonneg cs" "\<And>c. c \<in> set cs \<Longrightarrow> IsCoinMinDenomValid (Denom c)"
proof -
  have "sorted_denoms cs \<and> nonneg cs \<and> (\<forall>c\<in>set cs. Coin_IsValid c)"
  proof (cases cs rule: Coins_IsValid.cases)
    case (3 c d ds)
    then have "Coin_IsValid c" "IsValid_from (Denom c) (d # ds)"
      using assms by (simp_all split: if_splits)
    moreover from this(2) have "sorted_denoms (d # ds) \<and> nonneg (d # ds) \<and>
        (\<forall>x\<in>set (d # ds). Denom c < Denom x \<and> Coin_IsValid x)"
      by (rule IsValid_from_sorted)
    moreover have "0 \<le> Amount c"
      using \<open>Coin_IsValid c\<close> by (simp add: Coin_IsValid_def split: if_splits)
    ultimately show ?thesis unfolding 3 nonneg_def by simp
  qed (use assms in \<open>auto simp: nonneg_def Coin_IsValid_def split: if_splits\<close>)
  then show "sorted_denoms cs" "nonneg cs" "\<And>c. c \<in> set cs \<Longrightarrow> IsCoinMinDenomValid (Denom c)"
    by (auto simp: Coin_IsValid_def split: if_splits)
qed

section \<open>Coin sets as an interface\<close>

text \<open>
  What the account keepers rely on: a set of amounts with a partial addition and a partial
  subtraction, both pointwise, that keep stored holdings well formed. The keepers' transfer
  lemmas are proved from these laws alone.
\<close>

locale coin_sets =
  fixes amount :: "'c \<Rightarrow> string \<Rightarrow> int"
    and stored :: "'c \<Rightarrow> bool"
    and operand :: "'c \<Rightarrow> bool"
    and fits :: "'c \<Rightarrow> bool"
    and plus :: "'c \<Rightarrow> 'c \<Rightarrow> 'c option"
    and minus :: "'c \<Rightarrow> 'c \<Rightarrow> ('c \<times> bool) option"
  assumes stored_nonneg: "stored a \<Longrightarrow> 0 \<le> amount a d"
    and operand_nonneg: "operand x \<Longrightarrow> 0 \<le> amount x d"
    and plus_amount: "plus a x = Some b \<Longrightarrow> amount b d = amount a d + amount x d"
    and plus_stored: "plus a x = Some b \<Longrightarrow> stored a \<Longrightarrow> operand x \<Longrightarrow> fits x \<Longrightarrow> stored b"
    and minus_amount: "minus a x = Some (b, neg) \<Longrightarrow> amount b d = amount a d - amount x d"
    and minus_short: "minus a x = Some (b, neg) \<Longrightarrow> stored a \<Longrightarrow> operand x \<Longrightarrow>
      neg \<longleftrightarrow> (\<exists>d. amount a d < amount x d)"
    and minus_stored: "minus a x = Some (b, False) \<Longrightarrow> stored a \<Longrightarrow> operand x \<Longrightarrow> stored b"
    and minus_fits: "minus a x = Some (b, False) \<Longrightarrow> stored a \<Longrightarrow> operand x \<Longrightarrow> fits x"
    and stored_ext: "stored a \<Longrightarrow> stored b \<Longrightarrow> (\<And>d. amount a d = amount b d) \<Longrightarrow> a = b"
begin

lemma move_conserves:
  assumes "minus a x = Some (a', neg)" "plus b x = Some b'"
  shows "amount a' d + amount b' d = amount a d + amount b d"
  using minus_amount [OF assms(1)] plus_amount [OF assms(2)] by simp

lemma move_stored:
  assumes "minus a x = Some (a', False)" "plus b x = Some b'" "stored a" "stored b" "operand x"
  shows "stored a' \<and> stored b'"
  using assms minus_stored minus_fits plus_stored by blast

lemma minus_plus_back:
  assumes "minus a x = Some (b, False)" "plus b x = Some c" "stored a" "operand x"
  shows "c = a"
proof (rule stored_ext)
  show "stored c" using assms minus_stored minus_fits plus_stored by blast
  show "amount c d = amount a d" for d
    using minus_amount [OF assms(1)] plus_amount [OF assms(2)] by simp
qed fact

lemma plus_minus_back:
  assumes "plus a x = Some b" "minus b x = Some (c, neg)" "stored a" "operand x" "fits x"
  shows "neg = False \<and> c = a"
proof -
  have b: "stored b" using assms plus_stored by blast
  have "amount x d \<le> amount b d" for d
    using plus_amount [OF assms(1)] stored_nonneg [OF assms(3)] by simp
  then have n: "neg = False" using minus_short [OF assms(2) b assms(4)] by (simp add: not_less)
  have "c = a"
  proof (rule stored_ext)
    show "stored c" using minus_stored assms(2,4) b n by blast
    show "amount c d = amount a d" for d
      using minus_amount [OF assms(2)] plus_amount [OF assms(1)] by simp
  qed fact
  with n show ?thesis by simp
qed

end

definition operand_coins :: "Coins \<Rightarrow> bool" where
  "operand_coins cs \<longleftrightarrow> sorted_denoms cs \<and> nonneg cs"

lemma operand_valid: "Coins_IsValid cs \<Longrightarrow> operand_coins cs"
  by (simp add: operand_coins_def Coins_IsValid_sorted)

interpretation cs: coin_sets bal holding operand_coins ranged Coins_Add SafeSub
proof unfold_locales
  fix a x b :: Coins and d neg
  show "0 \<le> bal a d" if "holding a" using that by (simp add: holding_def bal_nonneg)
  show "0 \<le> bal x d" if "operand_coins x" using that by (simp add: operand_coins_def bal_nonneg)
  show "bal b d = bal a d + bal x d" if "Coins_Add a x = Some b" using that by (rule Coins_Add_bal)
  show "holding b" if "Coins_Add a x = Some b" "holding a" "operand_coins x" "ranged x"
    using Coins_Add_holding that by (auto simp: operand_coins_def)
  show "bal b d = bal a d - bal x d" if "SafeSub a x = Some (b, neg)"
    using that by (rule SafeSub_bal)
  show "neg \<longleftrightarrow> (\<exists>d. bal a d < bal x d)"
    if "SafeSub a x = Some (b, neg)" "holding a" "operand_coins x"
    using SafeSub_flag that by (auto simp: operand_coins_def holding_def)
  show "holding b" "ranged x" if "SafeSub a x = Some (b, False)" "holding a" "operand_coins x"
    using SafeSub_holding that by (auto simp: operand_coins_def)
  show "a = b" if "holding a" "holding b" "\<And>d. bal a d = bal b d"
    using coins_eqI that by (auto simp: holding_def)
qed

end
