(* ===== verification/Errors.thy ===== *)
theory Errors
  imports Prelude
begin

text \<open>
  Component: \<open>src/types/errors.go\<close>. The code types of the root codespace and the error
  constructors; an error is its codespace and code, messages are not modelled.
\<close>

definition CodespaceRoot :: string where
  "CodespaceRoot = ''sdk''"

definition CodespaceUndefined :: string where
  "CodespaceUndefined = ''''"

definition newErrorWithRootCodespace :: "nat \<Rightarrow> sdk_error" where
  "newErrorWithRootCodespace code = SdkError CodespaceRoot code"

definition ErrInternal :: sdk_error where
  "ErrInternal = newErrorWithRootCodespace 1"

definition ErrTxDecode :: sdk_error where
  "ErrTxDecode = newErrorWithRootCodespace 2"

definition ErrInvalidSequence :: sdk_error where
  "ErrInvalidSequence = newErrorWithRootCodespace 3"

definition ErrUnauthorized :: sdk_error where
  "ErrUnauthorized = newErrorWithRootCodespace 4"

definition ErrInsufficientFunds :: sdk_error where
  "ErrInsufficientFunds = newErrorWithRootCodespace 5"

definition ErrUnknownRequest :: sdk_error where
  "ErrUnknownRequest = newErrorWithRootCodespace 6"

definition ErrInvalidAddress :: sdk_error where
  "ErrInvalidAddress = newErrorWithRootCodespace 7"

definition ErrInvalidPubKey :: sdk_error where
  "ErrInvalidPubKey = newErrorWithRootCodespace 8"

definition ErrUnknownAddress :: sdk_error where
  "ErrUnknownAddress = newErrorWithRootCodespace 9"

definition ErrInsufficientCoins :: sdk_error where
  "ErrInsufficientCoins = newErrorWithRootCodespace 10"

definition ErrInvalidCoins :: sdk_error where
  "ErrInvalidCoins = newErrorWithRootCodespace 11"

definition ErrOutOfGas :: sdk_error where
  "ErrOutOfGas = newErrorWithRootCodespace 12"

definition ErrMemoTooLarge :: sdk_error where
  "ErrMemoTooLarge = newErrorWithRootCodespace 13"

definition ErrInsufficientFee :: sdk_error where
  "ErrInsufficientFee = newErrorWithRootCodespace 14"

definition ErrTooManySignatures :: sdk_error where
  "ErrTooManySignatures = newErrorWithRootCodespace 16"

definition ErrGasPriceTooLow :: sdk_error where
  "ErrGasPriceTooLow = newErrorWithRootCodespace 17"

definition ErrInvalidGas :: sdk_error where
  "ErrInvalidGas = newErrorWithRootCodespace 18"

text \<open>\<open>WithDefaultCodespace\<close> computes the codespace to keep and then uses its argument.\<close>

definition WithDefaultCodespace :: "sdk_error \<Rightarrow> string \<Rightarrow> sdk_error" where
  "WithDefaultCodespace err cs =
     (let codespace = (if codespace_of err = CodespaceUndefined then cs else codespace_of err)
      in SdkError cs (code_of err))"

end
