(* ===== verification/Denoms.thy ===== *)
theory Denoms
  imports Coins Errors
begin

text \<open>
  Component: denominations and token ids, \<open>src/types/asset.go\<close> and the name functions of
  \<open>src/types/coin_type.go\<close>. A returned Go \<open>error\<close> is \<open>None\<close>.
\<close>

section \<open>Token ids and supply keys\<close>

definition token_char :: "char \<Rightarrow> bool" where
  "token_char c \<longleftrightarrow> ralnum c \<or> (CHR ''A'' \<le> c \<and> c \<le> CHR ''Z'') \<or> c = CHR ''.''"

definition denom_char :: "char \<Rightarrow> bool" where
  "denom_char c \<longleftrightarrow> token_char c \<or> c = CHR ''-''"

definition ConvertIdToTokenKeyId :: "string \<Rightarrow> string option" where
  "ConvertIdToTokenKeyId tokenId =
     (if \<not> MatchString (rrep 3 14 (RCls token_char)) tokenId then None
      else if CHR ''.'' \<in> set tokenId then Some (ToLower tokenId)
      else Some (ToLower (''i.'' @ tokenId)))"

definition ConvertDenomToTokenId :: "string \<Rightarrow> string option" where
  "ConvertDenomToTokenId denom =
     (if \<not> MatchString (rrep 3 18 (RCls denom_char)) denom then None
      else Some (ToLower (hd (Split denom (CHR ''-'')))))"

definition ConvertDenomToTokenKeyId :: "string \<Rightarrow> string option" where
  "ConvertDenomToTokenKeyId denom =
     do { tokenId \<leftarrow> ConvertDenomToTokenId denom; ConvertIdToTokenKeyId tokenId }"

section \<open>Units and coin names\<close>

record Unit =
  unit_Denom :: string
  unit_Decimal :: nat

record CoinType =
  ct_Name :: string
  ct_MinUnit :: Unit
  ct_Units :: "Unit list"

definition NewUnit :: "string \<Rightarrow> nat \<Rightarrow> Unit" where
  "NewUnit denom decimal = \<lparr>unit_Denom = denom, unit_Decimal = decimal\<rparr>"

definition GetScaleFactor :: "Unit \<Rightarrow> int option" where
  "GetScaleFactor u = NewIntWithDecimal 1 (int (unit_Decimal u))"

fun GetUnit :: "Unit list \<Rightarrow> string \<Rightarrow> Unit option" where
  "GetUnit [] denom = None"
| "GetUnit (unit # units) denom =
     (if ToLower denom = ToLower (unit_Denom unit) then Some unit else GetUnit units denom)"

definition iris_units :: "Unit list" where
  "iris_units =
     [NewUnit Iris 0, NewUnit (Iris @ ''-milli'') 3, NewUnit (Iris @ ''-micro'') 6,
      NewUnit (Iris @ ''-nano'') 9, NewUnit (Iris @ ''-pico'') 12,
      NewUnit (Iris @ ''-femto'') 15, NewUnit (Iris @ ''-atto'') 18]"

definition NewIrisCoinType :: CoinType where
  "NewIrisCoinType =
     \<lparr>ct_Name = Iris, ct_MinUnit = iris_units ! 6, ct_Units = iris_units\<rparr>"

definition GetCoinNameByDenom :: "string \<Rightarrow> string option" where
  "GetCoinNameByDenom denom0 =
     (let denom = ToLower denom0 in
      if HasPrefix denom (Iris @ ''-'') then
        (case GetUnit (ct_Units NewIrisCoinType) denom of None \<Rightarrow> None | Some _ \<Rightarrow> Some Iris)
      else if \<not> IsCoinMinDenomValid denom then None
      else let coinName = TrimSuffix denom MinDenomSuffix in
        if coinName = '''' then None else Some coinName)"

definition is_space :: "char \<Rightarrow> bool" where
  "is_space c \<longleftrightarrow> c = CHR '' '' \<or> (CHR 0x09 \<le> c \<and> c \<le> CHR 0x0D)"

definition TrimSpace :: "string \<Rightarrow> string" where
  "TrimSpace s = rev (dropWhile is_space (rev (dropWhile is_space s)))"

definition GetCoinMinDenom :: "string \<Rightarrow> string option" where
  "GetCoinMinDenom coinName0 =
     (let coinName = ToLower (TrimSpace coinName0) in
      if coinName = Iris then Some IrisAtto else Some (coinName @ MinDenomSuffix))"

section \<open>The language of valid denominations\<close>

lemma accepts_RSeqE:
  assumes "accepts (RSeq r q) s"
  obtains u v where "s = u @ v" "accepts r u" "accepts q v"
  using assms by (auto simp: accepts_RSeq)

lemma accepts_rlit [simp]: "accepts (rlit w) s \<longleftrightarrow> s = w"
proof (induction w arbitrary: s)
  case (Cons c w)
  then show ?case by (auto simp: accepts_RSeq Cons_eq_append_conv intro: exI [of _ "[c]"])
qed simp

lemma accepts_ropt [simp]: "accepts (ropt r) s \<longleftrightarrow> s = [] \<or> accepts r s"
  by (simp add: ropt_def)

lemma accepts_cls_seq: "accepts (RSeq (RCls p) q) s \<longleftrightarrow> (\<exists>c t. s = c # t \<and> p c \<and> accepts q t)"
  using acc_seq [OF acc_cls] by (fastforce simp: accepts_RSeq)

lemma accepts_rupto_cls: "accepts (rupto n (RCls p)) s \<longleftrightarrow> length s \<le> n \<and> list_all p s"
proof (induction n arbitrary: s)
  case (Suc n)
  show ?case by (cases s) (auto simp: accepts_cls_seq Suc)
qed auto

lemma accepts_rrep_cls:
  "accepts (rrep n k (RCls p)) s \<longleftrightarrow> n \<le> length s \<and> length s \<le> n + k \<and> list_all p s"
proof (induction n arbitrary: s)
  case (Suc n)
  show ?case by (cases s) (auto simp: accepts_cls_seq Suc)
qed (simp add: accepts_rupto_cls)

text \<open>A coin name is an optional three-letter prefix with a colon, an optional gateway with a
  dot, and a symbol.\<close>

definition name_parts :: "string \<Rightarrow> string \<Rightarrow> string \<Rightarrow> bool" where
  "name_parts chn gw tok \<longleftrightarrow>
     (chn = [] \<or> (\<exists>a b c. chn = [a, b, c, CHR '':''] \<and> ralpha a \<and> ralnum b \<and> ralnum c)) \<and>
     (gw = [] \<or> gw = ''x.'' \<or>
      (\<exists>a w. gw = a # w @ ''.'' \<and> ralpha a \<and> 2 \<le> length w \<and> length w \<le> 7 \<and> list_all ralnum w)) \<and>
     (\<exists>a w. tok = a # w \<and> ralpha a \<and> 2 \<le> length w \<and> length w \<le> 7 \<and> list_all ralnum w)"

lemma accepts_reName:
  "accepts reName s \<longleftrightarrow> (\<exists>a w. s = a # w \<and> ralpha a \<and> 2 \<le> length w \<and> length w \<le> 7 \<and> list_all ralnum w)"
  by (auto simp: reName_def accepts_cls_seq accepts_rrep_cls)

lemma length_2_iff: "length xs = 2 \<longleftrightarrow> (\<exists>a b. xs = [a, b])"
  by (auto simp: numeral_2_eq_2 length_Suc_conv)

lemma accepts_reABS:
  "accepts reABS s \<longleftrightarrow>
     s = [] \<or> (\<exists>a b c. s = [a, b, c, CHR '':''] \<and> ralpha a \<and> ralnum b \<and> ralnum c)"
proof -
  have "accepts (RSeq (rrep 2 0 (RCls ralnum)) (rlit '':'')) t \<longleftrightarrow>
      (\<exists>b c. t = [b, c, CHR '':''] \<and> ralnum b \<and> ralnum c)" for t
  proof
    assume "\<exists>b c. t = [b, c, CHR '':''] \<and> ralnum b \<and> ralnum c"
    then obtain b c where "t = [b, c] @ '':''" "ralnum b" "ralnum c" by auto
    then show "accepts (RSeq (rrep 2 0 (RCls ralnum)) (rlit '':'')) t"
      by (simp only:) (rule acc_seq, auto simp: accepts_rrep_cls simp del: rrep.simps rlit.simps)
  qed (auto simp: accepts_RSeq accepts_rrep_cls length_2_iff simp del: rrep.simps rlit.simps)
  then show ?thesis by (auto simp: reABS_def accepts_cls_seq simp del: rrep.simps rlit.simps)
qed

lemma reCoinName_parts:
  assumes "accepts reCoinName s"
  obtains chn gw tok where "s = chn @ gw @ tok" "name_parts chn gw tok"
proof -
  obtain chn t where 1: "s = chn @ t" "accepts reABS chn"
    and t: "accepts (RSeq (ropt (RSeq (RAlt reName (rlit ''x'')) (rlit ''.''))) reName) t"
    using assms unfolding reCoinName_def by (rule accepts_RSeqE)
  from t obtain gw tok where 2: "t = gw @ tok" "accepts reName tok"
    and gw: "accepts (ropt (RSeq (RAlt reName (rlit ''x'')) (rlit ''.''))) gw"
    by (rule accepts_RSeqE)
  have "gw = [] \<or> gw = ''x.'' \<or>
      (\<exists>a w. gw = a # w @ ''.'' \<and> ralpha a \<and> 2 \<le> length w \<and> length w \<le> 7 \<and> list_all ralnum w)"
    using gw by (auto simp: accepts_RSeq accepts_reName simp del: rlit.simps)
  then have "name_parts chn gw tok"
    using 1(2) 2(2) by (simp add: name_parts_def accepts_reABS accepts_reName)
  then show ?thesis using that 1(1) 2(1) by simp
qed

lemma alpha_not_special [simp]:
  "\<not> ralnum (CHR ''-'')" "\<not> ralnum (CHR ''.'')" "\<not> ralnum (CHR '':'')" "\<not> ralpha (CHR ''-'')"
  "\<not> ralpha (CHR ''.'')" "\<not> ralpha (CHR '':'')" "ralpha c \<Longrightarrow> ralnum c"
  by (simp_all add: ralnum_def ralpha_def rdigit_def less_eq_char_def)

definition name_char :: "char \<Rightarrow> bool" where
  "name_char c \<longleftrightarrow> ralnum c \<or> c = CHR '':'' \<or> c = CHR ''.''"

lemma name_parts_chars: "name_parts chn gw tok \<Longrightarrow> list_all name_char (chn @ gw @ tok)"
  by (auto simp: name_parts_def name_char_def list_all_iff ralnum_def ralpha_def less_eq_char_def)

lemma name_no_dash: "list_all name_char s \<Longrightarrow> CHR ''-'' \<notin> set s"
  by (auto simp: list_all_iff name_char_def)

lemma valid_denom_parts:
  assumes "IsCoinMinDenomValid d" "d \<noteq> IrisAtto"
  obtains chn gw tok where "d = chn @ gw @ tok @ MinDenomSuffix" "name_parts chn gw tok"
proof -
  have suf: "HasSuffix d MinDenomSuffix" and "accepts reDenom d"
    using assms by (auto simp: IsCoinMinDenomValid_def matches_iff split: if_splits)
  then obtain name rest where d: "d = name @ rest" and name: "accepts reCoinName name"
    and rest: "accepts (ropt (RSeq (rlit ''-'') (rrep 3 2 (RCls ralpha)))) rest"
    unfolding reDenom_def by (elim accepts_RSeqE)
  from name obtain chn gw tok where n: "name = chn @ gw @ tok" "name_parts chn gw tok"
    by (rule reCoinName_parts)
  have nd: "CHR ''-'' \<notin> set name" using name_parts_chars [OF n(2)] n(1) name_no_dash by blast
  obtain p where p: "d = p @ CHR ''-'' # ''min''"
    using suf by (auto simp: HasSuffix_def suffix_def MinDenomSuffix_def)
  have "rest \<noteq> []" using nd d p by (metis append_Nil2 in_set_conv_decomp)
  then obtain w where w: "rest = CHR ''-'' # w" "list_all ralpha w"
    using rest by (auto simp: accepts_RSeq accepts_rrep_cls simp del: rrep.simps rlit.simps)
  then have "CHR ''-'' \<notin> set w" by (auto simp: list_all_iff)
  moreover have "p @ CHR ''-'' # ''min'' = name @ CHR ''-'' # w" using p d w(1) by simp
  ultimately have "w = ''min''"
    using nd append_Cons_eq_iff [of "CHR ''-''" name w p "''min''"] by simp
  then show ?thesis using that [of chn gw tok] d n w(1) by (simp add: MinDenomSuffix_def)
qed

lemma accepts_any: "accepts (RStar (RCls (\<lambda>_. True))) s"
proof (induction s)
  case Nil
  show ?case by (rule acc_star_nil)
next
  case (Cons c s)
  then show ?case using acc_star [OF acc_cls [of "\<lambda>_. True" c]] by simp
qed

lemma MatchString_iff: "MatchString r s \<longleftrightarrow> (\<exists>a b c. s = a @ b @ c \<and> accepts r b)"
  by (auto simp: MatchString_def matches_iff accepts_RSeq accepts_any)

lemma lower_name [simp]: "list_all name_char s \<Longrightarrow> ToLower s = s"
  unfolding ToLower_def
  by (rule map_idI) (auto simp: list_all_iff lower_char_def name_char_def ralnum_def ralpha_def
      rdigit_def less_eq_char_def)

lemma name_parts_tok:
  assumes "name_parts chn gw tok"
  shows "3 \<le> length tok" "length tok \<le> 8" "list_all ralnum tok" "tok \<noteq> []"
  using assms by (auto simp: name_parts_def)

text \<open>The token key of a valid denomination: its name, with the native gateway \<open>i.\<close> put
  before a name that has no gateway.\<close>

lemma TokenKeyId_valid:
  assumes "name_parts chn gw tok"
  shows "ConvertDenomToTokenKeyId (chn @ gw @ tok @ MinDenomSuffix) =
    Some (if gw = [] then ''i.'' @ chn @ tok else chn @ gw @ tok)"
proof -
  let ?n = "chn @ gw @ tok"
  have chars: "list_all name_char ?n" using assms by (rule name_parts_chars)
  have "accepts (rrep 3 18 (RCls denom_char)) tok" "accepts (rrep 3 14 (RCls token_char)) tok"
    using name_parts_tok [OF assms]
    by (auto simp: accepts_rrep_cls denom_char_def token_char_def list_all_iff simp del: rrep.simps)
  then have m: "MatchString (rrep 3 18 (RCls denom_char)) (chn @ gw @ tok @ MinDenomSuffix)"
      "MatchString (rrep 3 14 (RCls token_char)) ?n"
    unfolding MatchString_iff by (metis append.assoc append_Nil2)+
  have id: "ConvertDenomToTokenId (chn @ gw @ tok @ MinDenomSuffix) = Some ?n"
    using m(1) chars Split_append_sep [OF name_no_dash [OF chars], of "''min''"]
    by (simp add: ConvertDenomToTokenId_def MinDenomSuffix_def del: rrep.simps)
  have dot: "CHR ''.'' \<in> set ?n \<longleftrightarrow> gw \<noteq> []"
    using assms by (auto simp: name_parts_def list_all_iff) (use alpha_not_special(2) in blast)+
  have low: "ToLower (''i.'' @ ?n) = ''i.'' @ ?n"
    using chars by (intro lower_name) (simp add: name_char_def ralnum_def ralpha_def less_eq_char_def)
  show ?thesis
    unfolding ConvertDenomToTokenKeyId_def id using m(2) dot low chars
    by (cases "gw = []") (simp_all add: ConvertIdToTokenKeyId_def del: rrep.simps)
qed

lemma native_key_distinct:
  assumes "name_parts chn gw tok" "gw \<noteq> []"
  shows "chn @ gw @ tok \<noteq> ''i.'' @ s"
proof
  assume "chn @ gw @ tok = ''i.'' @ s"
  with assms show False
    by (auto simp: name_parts_def Cons_eq_append_conv append_eq_Cons_conv)
qed

lemma TokenKeyId_inj:
  assumes "IsCoinMinDenomValid d" "IsCoinMinDenomValid e" "d \<noteq> IrisAtto" "e \<noteq> IrisAtto"
    and eq: "ConvertDenomToTokenKeyId d = ConvertDenomToTokenKeyId e"
  shows "d = e"
proof -
  obtain c1 g1 t1 where d: "d = c1 @ g1 @ t1 @ MinDenomSuffix" and p1: "name_parts c1 g1 t1"
    using assms(1,3) by (rule valid_denom_parts)
  obtain c2 g2 t2 where e: "e = c2 @ g2 @ t2 @ MinDenomSuffix" and p2: "name_parts c2 g2 t2"
    using assms(2,4) by (rule valid_denom_parts)
  have "(if g1 = [] then ''i.'' @ c1 @ t1 else c1 @ g1 @ t1) =
      (if g2 = [] then ''i.'' @ c2 @ t2 else c2 @ g2 @ t2)"
    using eq unfolding d e TokenKeyId_valid [OF p1] TokenKeyId_valid [OF p2] by simp
  then have "c1 @ g1 @ t1 = c2 @ g2 @ t2"
    using native_key_distinct [OF p1, of "c2 @ t2"] native_key_distinct [OF p2, of "c1 @ t1"]
    by (auto split: if_splits)
  then show ?thesis unfolding d e by (metis append.assoc)
qed

lemma TokenKeyId_defined:
  assumes "IsCoinMinDenomValid d" "d \<noteq> IrisAtto"
  shows "\<exists>k. ConvertDenomToTokenKeyId d = Some k"
  using assms TokenKeyId_valid by (elim valid_denom_parts) auto

end
