(* ===== verification/Auth.thy ===== *)
theory Auth
  imports Denoms
begin

text \<open>
  Component: \<open>src/app/v1/auth\<close>: accounts (\<open>account.go\<close>), the account keeper
  (\<open>keeper.go\<close>), the fee keeper (\<open>feekeeper.go\<close>), fee checks and refunds
  (\<open>feeauth.go\<close>), parameters (\<open>params.go\<close>) and genesis (\<open>genesis.go\<close>).

  \<open>auth_state\<close> is the account store and the fee store: typed maps instead of amino bytes
  under key prefixes, whose keys are proved distinct below. Modules with a store of their own
  extend the record, so that every operation here applies to their states unchanged.
  Code from outside the repository (the address hash, signature verification) is a field of
  the record \<open>externals\<close>, an argument \<open>E\<close> of the operations that use it.
\<close>

section \<open>Accounts\<close>

text \<open>The key types that the repository distinguishes.\<close>

datatype PubKey =
    PubKeyEd25519 bytes
  | PubKeySecp256k1 bytes
  | PubKeyMultisigThreshold nat "PubKey list"
  | PubKeyOther bytes

record BaseAccount =
  acc_Address :: AccAddress
  acc_Coins :: Coins
  acc_PubKey :: "PubKey option"
  acc_AccountNumber :: uint64
  acc_Sequence :: uint64
  acc_MemoRegexp :: string

definition ProtoBaseAccount :: BaseAccount where
  "ProtoBaseAccount =
     \<lparr>acc_Address = '''', acc_Coins = [], acc_PubKey = None, acc_AccountNumber = 0,
      acc_Sequence = 0, acc_MemoRegexp = ''''\<rparr>"

definition SetAddress :: "AccAddress \<Rightarrow> BaseAccount \<Rightarrow> BaseAccount option" where
  "SetAddress addr acc =
     (if length (acc_Address acc) \<noteq> 0 then None else Some (acc\<lparr>acc_Address := addr\<rparr>))"

text \<open>Code the repository imports: \<open>crypto.AddressHash\<close> of tendermint, the hash function
  \<open>SHA256\<close>, and the syntax of Go's \<open>regexp\<close> package for expressions that users supply
  (\<open>None\<close> does not compile).\<close>

record externals =
  AddressHash :: "bytes \<Rightarrow> AccAddress"
  SHA256 :: "bytes \<Rightarrow> bytes"
  RegexpCompile :: "string \<Rightarrow> (string \<Rightarrow> bool) option"

definition BurnedCoinsAccAddr :: "'z externals_scheme \<Rightarrow> AccAddress" where
  "BurnedCoinsAccAddr E = AddressHash E ''burnedCoins''"

definition HTLCLockedCoinsAccAddr :: "'z externals_scheme \<Rightarrow> AccAddress" where
  "HTLCLockedCoinsAccAddr E = AddressHash E ''HTLCLockedCoins''"

section \<open>Parameters\<close>

record AuthParams =
  GasPriceThreshold :: int
  TxSizeLimit :: uint64

definition MinimumGasPrice :: int where
  "MinimumGasPrice = 0"

definition MaximumGasPrice :: int where
  "MaximumGasPrice = 10 ^ 18"

definition MinimumTxSizeLimit :: uint64 where
  "MinimumTxSizeLimit = 500"

definition MaximumTxSizeLimit :: uint64 where
  "MaximumTxSizeLimit = 1500"

definition DefaultAuthParams :: AuthParams where
  "DefaultAuthParams = \<lparr>GasPriceThreshold = 6 * 10 ^ 12, TxSizeLimit = 1000\<rparr>"

definition validateAuthParams :: "AuthParams \<Rightarrow> sdk_error + unit" where
  "validateAuthParams p =
     (if \<not> GasPriceThreshold p > MinimumGasPrice \<or> GasPriceThreshold p > MaximumGasPrice
      then Inl (SdkError ''params'' 600)
      else if TxSizeLimit p < MinimumTxSizeLimit \<or> TxSizeLimit p > MaximumTxSizeLimit
      then Inl (SdkError ''params'' 601)
      else Inr ())"

section \<open>The account keeper\<close>

record auth_state =
  accounts :: "(AccAddress, BaseAccount) fmap"
  globalAccountNumber :: "uint64 option"
  totalLoosenToken :: Coins
  totalSupply :: "(bytes, Coin) fmap"
  burnedToken :: "Coins option"
  collectedFees :: Coins
  feeAuth :: "string option"
  authParams :: AuthParams

definition AddressStoreKey :: "AccAddress \<Rightarrow> bytes" where
  "AddressStoreKey addr = ''account:'' @ addr"

definition TotalSupplyStoreKey :: "string \<Rightarrow> bytes" where
  "TotalSupplyStoreKey denom =
     ''totalSupply:'' @ (case ConvertDenomToTokenKeyId denom of None \<Rightarrow> '''' | Some keyId \<Rightarrow> keyId)"

definition GetAccount :: "AccAddress \<Rightarrow> 'z auth_state_scheme \<Rightarrow> BaseAccount option" where
  "GetAccount addr s = fmlookup (accounts s) addr"

definition SetAccount :: "BaseAccount \<Rightarrow> ('z auth_state_scheme, unit) op" where
  "SetAccount acc = modify (\<lambda>s. s\<lparr>accounts := fmupd (acc_Address acc) acc (accounts s)\<rparr>)"

definition RemoveAccount :: "BaseAccount \<Rightarrow> ('z auth_state_scheme, unit) op" where
  "RemoveAccount acc = modify (\<lambda>s. s\<lparr>accounts := fmdrop (acc_Address acc) (accounts s)\<rparr>)"

definition GetNextAccountNumber :: "('z auth_state_scheme, uint64) op" where
  "GetNextAccountNumber =
     bind_op (gets (\<lambda>s. case globalAccountNumber s of None \<Rightarrow> 0 | Some n \<Rightarrow> n)) (\<lambda>accNumber.
     bind_op (modify (\<lambda>s. s\<lparr>globalAccountNumber := Some (accNumber + 1)\<rparr>)) (\<lambda>_.
     ret accNumber))"

definition NewAccountWithAddress :: "AccAddress \<Rightarrow> ('z auth_state_scheme, BaseAccount) op" where
  "NewAccountWithAddress addr =
     bind_op (lift_go (SetAddress addr ProtoBaseAccount)) (\<lambda>acc.
     bind_op GetNextAccountNumber (\<lambda>n.
     ret (acc\<lparr>acc_AccountNumber := n\<rparr>)))"

text \<open>\<open>IterateAccounts\<close> visits the accounts in the order of their addresses.\<close>

definition GetAllAccounts :: "'z auth_state_scheme \<Rightarrow> BaseAccount list" where
  "GetAllAccounts s = map snd (sorted_list_of_fmap (accounts s))"

definition GetPubKey :: "AccAddress \<Rightarrow> 'z auth_state_scheme \<Rightarrow> sdk_error + PubKey option" where
  "GetPubKey addr s =
     (case GetAccount addr s of None \<Rightarrow> Inl ErrUnknownAddress | Some acc \<Rightarrow> Inr (acc_PubKey acc))"

definition GetSequence :: "AccAddress \<Rightarrow> 'z auth_state_scheme \<Rightarrow> sdk_error + uint64" where
  "GetSequence addr s =
     (case GetAccount addr s of None \<Rightarrow> Inl ErrUnknownAddress | Some acc \<Rightarrow> Inr (acc_Sequence acc))"

definition setSequence :: "AccAddress \<Rightarrow> uint64 \<Rightarrow> ('z auth_state_scheme, unit) op" where
  "setSequence addr newSequence =
     bind_op (gets (GetAccount addr)) (\<lambda>acc. case acc of
       None \<Rightarrow> fail ErrUnknownAddress
     | Some acc \<Rightarrow> SetAccount (acc\<lparr>acc_Sequence := newSequence\<rparr>))"

definition IncreaseTotalLoosenToken :: "Coins \<Rightarrow> ('z auth_state_scheme, unit) op" where
  "IncreaseTotalLoosenToken coins =
     (if coins = [] then ret ()
      else bind_op (lift_go (GetCoin coins IrisAtto)) (\<lambda>deltaCoin.
        if \<not> Coin_IsPositive deltaCoin then ret ()
        else
          bind_op (gets totalLoosenToken) (\<lambda>total.
          bind_op (lift_go (Coins_Add total [deltaCoin])) (\<lambda>total'.
          modify (\<lambda>s. s\<lparr>totalLoosenToken := total'\<rparr>)))))"

definition DecreaseTotalLoosenToken :: "Coins \<Rightarrow> ('z auth_state_scheme, unit) op" where
  "DecreaseTotalLoosenToken coins =
     (if coins = [] then ret ()
      else bind_op (lift_go (GetCoin coins IrisAtto)) (\<lambda>deltaCoin.
        if \<not> Coin_IsPositive deltaCoin then ret ()
        else
          bind_op (gets totalLoosenToken) (\<lambda>total.
          bind_op (lift_go (SafeSub total [deltaCoin])) (\<lambda>(total', hasNeg).
          if hasNeg then panic
          else modify (\<lambda>s. s\<lparr>totalLoosenToken := total'\<rparr>)))))"

definition SetGenesisAccount :: "'e externals_scheme \<Rightarrow> BaseAccount \<Rightarrow> ('z auth_state_scheme, unit) op" where
  "SetGenesisAccount E acc =
     bind_op (if acc_Address acc \<noteq> BurnedCoinsAccAddr E
              then IncreaseTotalLoosenToken (acc_Coins acc) else ret ()) (\<lambda>_.
     SetAccount acc)"

definition GetTotalSupply :: "string \<Rightarrow> 'z auth_state_scheme \<Rightarrow> Coin option" where
  "GetTotalSupply denom s = fmlookup (totalSupply s) (TotalSupplyStoreKey denom)"

definition SetTotalSupply :: "Coin \<Rightarrow> ('z auth_state_scheme, unit) op" where
  "SetTotalSupply supply =
     modify (\<lambda>s. s\<lparr>totalSupply := fmupd (TotalSupplyStoreKey (Denom supply)) supply (totalSupply s)\<rparr>)"

definition IncreaseTotalSupply :: "Coin \<Rightarrow> ('z auth_state_scheme, unit) op" where
  "IncreaseTotalSupply coin =
     (if \<not> HasSuffix (Denom coin) MinDenomSuffix then fail ErrInvalidCoins
      else if \<not> Coin_IsPositive coin then ret ()
      else bind_op (gets (GetTotalSupply (Denom coin))) (\<lambda>found. case found of
        None \<Rightarrow> fail ErrInvalidCoins
      | Some supply \<Rightarrow> bind_op (lift_go (Coin_Add supply coin)) SetTotalSupply))"

definition DecreaseTotalSupply :: "Coin \<Rightarrow> ('z auth_state_scheme, unit) op" where
  "DecreaseTotalSupply coin =
     (if \<not> HasSuffix (Denom coin) MinDenomSuffix then fail ErrInvalidCoins
      else if \<not> Coin_IsPositive coin then ret ()
      else bind_op (gets (GetTotalSupply (Denom coin))) (\<lambda>found. case found of
        None \<Rightarrow> fail ErrInvalidCoins
      | Some supply \<Rightarrow> bind_op (lift_go (Coin_Sub supply coin)) (\<lambda>supply'.
          if Coin_IsNegative supply' then panic else SetTotalSupply supply')))"

text \<open>\<open>InitTotalSupply\<close> collects the supply of every token in a Go map and writes the
  entries sorted by denomination.\<close>

fun supply_of_coins :: "Coins \<Rightarrow> (string, Coin) fmap \<Rightarrow> (string, Coin) fmap option" where
  "supply_of_coins [] tsMap = Some tsMap"
| "supply_of_coins (coin # coins) tsMap =
     (if IrisAtto = Denom coin \<or> Iris = Denom coin \<or> HasPrefix (Denom coin) FormatUniABSPrefix
      then supply_of_coins coins tsMap
      else (case fmlookup tsMap (Denom coin) of
          None \<Rightarrow> supply_of_coins coins (fmupd (Denom coin) coin tsMap)
        | Some supply \<Rightarrow>
            do { sum \<leftarrow> Coin_Add coin supply;
                 supply_of_coins coins (fmupd (Denom coin) sum tsMap) }))"

fun supply_of_accounts ::
  "BaseAccount list \<Rightarrow> (string, Coin) fmap \<Rightarrow> (string, Coin) fmap option" where
  "supply_of_accounts [] tsMap = Some tsMap"
| "supply_of_accounts (acc # accs) tsMap =
     do { tsMap' \<leftarrow> supply_of_coins (acc_Coins acc) tsMap; supply_of_accounts accs tsMap' }"

definition InitTotalSupply :: "('z auth_state_scheme, unit) op" where
  "InitTotalSupply =
     bind_op (gets GetAllAccounts) (\<lambda>accs.
     bind_op (lift_go (supply_of_accounts accs fmempty)) (\<lambda>tsMap.
     for_each (map snd (sorted_list_of_fmap tsMap)) SetTotalSupply))"

section \<open>The fee keeper\<close>

definition AddCollectedFees :: "Coins \<Rightarrow> ('z auth_state_scheme, Coins) op" where
  "AddCollectedFees coins =
     bind_op (gets collectedFees) (\<lambda>old.
     bind_op (lift_go (Coins_Add old coins)) (\<lambda>newCoins.
     bind_op (modify (\<lambda>s. s\<lparr>collectedFees := newCoins\<rparr>)) (\<lambda>_. ret newCoins)))"

definition RefundCollectedFees :: "Coins \<Rightarrow> ('z auth_state_scheme, Coins) op" where
  "RefundCollectedFees coins =
     bind_op (gets collectedFees) (\<lambda>old.
     bind_op (lift_go (Coins_Sub old coins)) (\<lambda>newCoins.
     if Coins_IsAnyNegative newCoins then panic
     else bind_op (modify (\<lambda>s. s\<lparr>collectedFees := newCoins\<rparr>)) (\<lambda>_. ret newCoins)))"

definition ClearCollectedFees :: "('z auth_state_scheme, unit) op" where
  "ClearCollectedFees = modify (\<lambda>s. s\<lparr>collectedFees := []\<rparr>)"

definition getFee :: "Coins \<Rightarrow> Coin option" where
  "getFee coins =
     (if coins = [] then NewCoin IrisAtto 0 else NewCoin IrisAtto (AmountOf coins IrisAtto))"

definition checkFee :: "AuthParams \<Rightarrow> Coins \<Rightarrow> uint64 \<Rightarrow> (sdk_error + unit) option" where
  "checkFee params coins gasLimit =
     (if gasLimit = 0 \<or> sint gasLimit < 0 then Some (Inl ErrInvalidGas)
      else case coins of [] \<Rightarrow> None
      | coin # _ \<Rightarrow>
        do { gasPrice \<leftarrow> Int_Div (Amount coin) (sint gasLimit);
             if gasPrice < GasPriceThreshold params
             then do { _ \<leftarrow> Int_Mul (sint gasLimit) (GasPriceThreshold params);
                       Some (Inl ErrGasPriceTooLow) }
             else Some (Inr ()) })"

text \<open>\<open>NewFeePreprocessHandler\<close> on a \<open>StdTx\<close> with the given fee.\<close>

definition FeePreprocessHandler :: "Coins \<Rightarrow> uint64 \<Rightarrow> ('z auth_state_scheme, unit) op" where
  "FeePreprocessHandler amount gas =
     bind_op (lift_go (getFee amount)) (\<lambda>fee.
     bind_op (gets authParams) (\<lambda>feeParams.
     bind_op (lift_go (checkFee feeParams [fee] gas)) lift_res))"

text \<open>
  \<open>NewFeeRefundHandler\<close>: the signers the ante handler put into the context, the fee of the
  \<open>StdTx\<close> and the gas counters of the transaction's result. The result is the fee that the
  transaction actually cost; no signer means that the ante handler failed.
\<close>

definition FeeRefundHandler ::
  "AccAddress list \<Rightarrow> Coins \<Rightarrow> uint64 \<Rightarrow> uint64 \<Rightarrow> ('z auth_state_scheme, Coin option) op" where
  "FeeRefundHandler signers amount gasWanted gasUsed =
     (case signers of [] \<Rightarrow> ret None
      | firstAccount # _ \<Rightarrow>
        bind_op (lift_go (getFee amount)) (\<lambda>fee.
        if gasWanted \<le> gasUsed then ret (Some fee)
        else
          let unusedGas = gasWanted - gasUsed in
          bind_op (lift_go (Int_Mul (Amount fee) (sint unusedGas))) (\<lambda>p.
          bind_op (lift_go (Int_Div p (sint gasWanted))) (\<lambda>r.
          bind_op (lift_go (NewCoin (Denom fee) r)) (\<lambda>refundCoin.
          bind_op (gets (GetAccount firstAccount)) (\<lambda>found.
          bind_op (lift_go found) (\<lambda>acc.
          bind_op (lift_go (Coins_Add (acc_Coins acc) [refundCoin])) (\<lambda>coins.
          bind_op (SetAccount (acc\<lparr>acc_Coins := coins\<rparr>)) (\<lambda>_.
          bind_op (RefundCollectedFees [refundCoin]) (\<lambda>_.
          bind_op (lift_go (Int_Sub (Amount fee) (Amount refundCoin))) (\<lambda>left.
          bind_op (lift_go (NewCoin (Denom fee) left)) (\<lambda>actualCostFee.
          ret (Some actualCostFee)))))))))))))"

section \<open>Genesis\<close>

record AuthGenesisState =
  gen_CollectedFees :: Coins
  gen_FeeAuth :: string
  gen_AuthParams :: AuthParams

definition ValidateFee :: "Coins \<Rightarrow> sdk_error + unit" where
  "ValidateFee collectedFee =
     (if collectedFee = [] then Inr ()
      else if \<not> Coins_IsValidIrisAtto collectedFee then Inl ErrInvalidCoins else Inr ())"

definition AuthValidateGenesis :: "AuthGenesisState \<Rightarrow> sdk_error + unit" where
  "AuthValidateGenesis data =
     (case validateAuthParams (gen_AuthParams data) of Inl e \<Rightarrow> Inl e
      | Inr _ \<Rightarrow> ValidateFee (gen_CollectedFees data))"

definition AuthInitGenesis :: "AuthGenesisState \<Rightarrow> ('z auth_state_scheme, unit) op" where
  "AuthInitGenesis data =
     (case AuthValidateGenesis data of Inl _ \<Rightarrow> panic
      | Inr _ \<Rightarrow>
        bind_op (modify (\<lambda>s. s\<lparr>collectedFees := gen_CollectedFees data\<rparr>)) (\<lambda>_.
        bind_op (IncreaseTotalLoosenToken (gen_CollectedFees data)) (\<lambda>_.
        bind_op (modify (\<lambda>s. s\<lparr>feeAuth := Some (gen_FeeAuth data), authParams := gen_AuthParams data\<rparr>)) (\<lambda>_.
        InitTotalSupply))))"

definition AuthExportGenesis :: "'z auth_state_scheme \<Rightarrow> AuthGenesisState option" where
  "AuthExportGenesis s =
     do { fa \<leftarrow> feeAuth s;
          Some \<lparr>gen_CollectedFees = collectedFees s, gen_FeeAuth = fa,
                gen_AuthParams = authParams s\<rparr> }"

section \<open>Store keys\<close>

text \<open>The keys of the account store do not collide, which is what lets the model keep one typed
  map per prefix.\<close>

lemma store_keys_distinct:
  "AddressStoreKey a = AddressStoreKey b \<longleftrightarrow> a = b"
  "AddressStoreKey a \<noteq> TotalSupplyStoreKey d"
  "AddressStoreKey a \<noteq> ''globalAccountNumber''" "AddressStoreKey a \<noteq> ''totalLoosenToken''"
  "TotalSupplyStoreKey d \<noteq> ''globalAccountNumber''" "TotalSupplyStoreKey d \<noteq> ''totalLoosenToken''"
  by (auto simp: AddressStoreKey_def TotalSupplyStoreKey_def)

lemma TotalSupplyStoreKey_inj:
  assumes "IsCoinMinDenomValid d" "IsCoinMinDenomValid e" "d \<noteq> IrisAtto" "e \<noteq> IrisAtto"
  shows "TotalSupplyStoreKey d = TotalSupplyStoreKey e \<longleftrightarrow> d = e"
proof
  assume eq: "TotalSupplyStoreKey d = TotalSupplyStoreKey e"
  obtain k l where "ConvertDenomToTokenKeyId d = Some k" "ConvertDenomToTokenKeyId e = Some l"
    using TokenKeyId_defined assms by blast
  with eq show "d = e" using TokenKeyId_inj [OF assms] by (simp add: TotalSupplyStoreKey_def)
qed simp

section \<open>The ledger\<close>

definition balance :: "AccAddress \<Rightarrow> string \<Rightarrow> 'z auth_state_scheme \<Rightarrow> int" where
  "balance a d s = (case GetAccount a s of None \<Rightarrow> 0 | Some acc \<Rightarrow> bal (acc_Coins acc) d)"

definition total_coins :: "string \<Rightarrow> 'z auth_state_scheme \<Rightarrow> int" where
  "total_coins d s = fm_sum (\<lambda>acc. bal (acc_Coins acc) d) (accounts s)"

definition accounts_ok :: "'z auth_state_scheme \<Rightarrow> bool" where
  "accounts_ok s \<longleftrightarrow> fmpred (\<lambda>a acc. acc_Address acc = a \<and> holding (acc_Coins acc)) (accounts s)"

definition supply_ok :: "'z auth_state_scheme \<Rightarrow> bool" where
  "supply_ok s \<longleftrightarrow>
     fmpred (\<lambda>k c. k = TotalSupplyStoreKey (Denom c) \<and> 0 \<le> Amount c) (totalSupply s)"

text \<open>The well-formedness invariant of the account and fee stores.\<close>

definition auth_ok :: "'z auth_state_scheme \<Rightarrow> bool" where
  "auth_ok s \<longleftrightarrow> accounts_ok s \<and> supply_ok s \<and> holding (totalLoosenToken s) \<and> holding (collectedFees s)"

lemma accounts_okD:
  "accounts_ok s \<Longrightarrow> GetAccount a s = Some acc \<Longrightarrow> acc_Address acc = a \<and> holding (acc_Coins acc)"
  by (auto simp: accounts_ok_def GetAccount_def fmpred_iff)

lemma holding_Nil [simp]: "holding []"
  by (simp add: holding_def nonneg_def no_zero_def)

lemma accounts_ok_upd:
  "accounts_ok s \<Longrightarrow> acc_Address acc = a \<Longrightarrow> holding (acc_Coins acc) \<Longrightarrow>
   accounts_ok (s\<lparr>accounts := fmupd a acc (accounts s)\<rparr>)"
  by (auto simp: accounts_ok_def)

lemma balance_nonneg: "accounts_ok s \<Longrightarrow> 0 \<le> balance a d s"
  by (auto simp: balance_def dest: accounts_okD intro: cs.stored_nonneg split: option.split)

lemma balance_le_total: "accounts_ok s \<Longrightarrow> balance a d s \<le> total_coins d s"
proof (cases "GetAccount a s")
  case None
  assume "accounts_ok s"
  then have "0 \<le> total_coins d s"
    unfolding total_coins_def
    by (intro fm_sum_nonneg) (auto simp: accounts_ok_def fmpred_iff intro: cs.stored_nonneg)
  with None show ?thesis by (simp add: balance_def)
next
  case (Some acc)
  assume "accounts_ok s"
  then show ?thesis
    using Some fm_sum_ge [of "accounts s" "\<lambda>acc. bal (acc_Coins acc) d" a acc]
    by (auto simp: balance_def GetAccount_def total_coins_def accounts_ok_def fmpred_iff
        intro: cs.stored_nonneg)
qed

lemma balance_upd:
  "balance b d (s\<lparr>accounts := fmupd a acc (accounts s)\<rparr>) =
     (if b = a then bal (acc_Coins acc) d else balance b d s)"
  by (simp add: balance_def GetAccount_def)

lemma total_coins_upd:
  "total_coins d (s\<lparr>accounts := fmupd a acc (accounts s)\<rparr>) =
     total_coins d s + bal (acc_Coins acc) d - balance a d s"
  by (simp add: total_coins_def balance_def GetAccount_def fm_sum_upd split: option.split)

lemma ledger_frame [simp]:
  "balance a d (s\<lparr>globalAccountNumber := n\<rparr>) = balance a d s"
  "balance a d (s\<lparr>totalLoosenToken := l\<rparr>) = balance a d s"
  "balance a d (s\<lparr>totalSupply := m\<rparr>) = balance a d s"
  "balance a d (s\<lparr>collectedFees := l\<rparr>) = balance a d s"
  "total_coins d (s\<lparr>globalAccountNumber := n\<rparr>) = total_coins d s"
  "total_coins d (s\<lparr>totalLoosenToken := l\<rparr>) = total_coins d s"
  "total_coins d (s\<lparr>totalSupply := m\<rparr>) = total_coins d s"
  "total_coins d (s\<lparr>collectedFees := l\<rparr>) = total_coins d s"
  "accounts_ok (s\<lparr>globalAccountNumber := n\<rparr>) = accounts_ok s"
  "accounts_ok (s\<lparr>totalLoosenToken := l\<rparr>) = accounts_ok s"
  "accounts_ok (s\<lparr>totalSupply := m\<rparr>) = accounts_ok s"
  "accounts_ok (s\<lparr>collectedFees := l\<rparr>) = accounts_ok s"
  by (simp_all add: balance_def GetAccount_def total_coins_def accounts_ok_def)

end
