(* ===== verification/Bank.thy ===== *)
theory Bank
  imports Auth
begin

text \<open>
  Component: \<open>src/app/v1/bank\<close>: the keeper (\<open>keeper.go\<close>), its messages (\<open>msgs.go\<close>),
  the handler (\<open>handler.go\<close>), the memo check (\<open>ante.go\<close>) and the runtime invariants
  (\<open>invariants.go\<close>).

  The three keeper types of the source share the unexported functions modelled here. Tags,
  coin-flow tags, gas and logs are left out. A function that adds the coins it was given also
  returns what the caller's slice holds afterwards (see \<open>Coins\<close>).
\<close>

section \<open>Errors\<close>

definition BankCodespace :: string where
  "BankCodespace = ''bank''"

definition ErrNoInputs :: sdk_error where
  "ErrNoInputs = SdkError BankCodespace 101"

definition ErrNoOutputs :: sdk_error where
  "ErrNoOutputs = SdkError BankCodespace 102"

definition ErrInvalidMemo :: sdk_error where
  "ErrInvalidMemo = SdkError BankCodespace 104"

definition ErrInvalidMemoRegexp :: sdk_error where
  "ErrInvalidMemoRegexp = SdkError BankCodespace 105"

definition ErrInvalidAccount :: sdk_error where
  "ErrInvalidAccount = SdkError BankCodespace 106"

section \<open>The keeper\<close>

definition getCoins :: "AccAddress \<Rightarrow> 'z auth_state_scheme \<Rightarrow> Coins" where
  "getCoins addr s = (case GetAccount addr s of None \<Rightarrow> [] | Some acc \<Rightarrow> acc_Coins acc)"

definition setCoins :: "AccAddress \<Rightarrow> Coins \<Rightarrow> ('z auth_state_scheme, unit) op" where
  "setCoins addr amt =
     bind_op (gets (GetAccount addr)) (\<lambda>found.
     bind_op (case found of None \<Rightarrow> NewAccountWithAddress addr | Some acc \<Rightarrow> ret acc) (\<lambda>acc.
     SetAccount (acc\<lparr>acc_Coins := amt\<rparr>)))"

definition hasCoins :: "AccAddress \<Rightarrow> Coins \<Rightarrow> 'z auth_state_scheme \<Rightarrow> bool" where
  "hasCoins addr amt s = IsAllGTE (getCoins addr s) amt"

definition subtractCoins :: "AccAddress \<Rightarrow> Coins \<Rightarrow> ('z auth_state_scheme, Coins) op" where
  "subtractCoins addr amt =
     (if \<not> Coins_IsValid amt then panic
      else
        bind_op (gets (getCoins addr)) (\<lambda>oldCoins.
        bind_op (lift_go (SafeSub oldCoins amt)) (\<lambda>(newCoins, hasNeg).
        if hasNeg then fail ErrInsufficientCoins
        else bind_op (setCoins addr newCoins) (\<lambda>_. ret newCoins))))"

text \<open>Coins that reach the burned-coins account leave the supply, one coin after the other; the
  errors of \<open>DecreaseTotalSupply\<close> are dropped.\<close>

definition burn_coin :: "Coin \<Rightarrow> ('z auth_state_scheme, unit) op" where
  "burn_coin coin =
     (if Denom coin = IrisAtto then DecreaseTotalLoosenToken [coin]
      else ignore_err (DecreaseTotalSupply coin))"

definition addCoins ::
  "'e externals_scheme \<Rightarrow> AccAddress \<Rightarrow> Coins \<Rightarrow> ('z auth_state_scheme, Coins \<times> Coins) op" where
  "addCoins E addr amt =
     (if \<not> Coins_IsValid amt then panic
      else
        bind_op (gets (getCoins addr)) (\<lambda>oldCoins.
        bind_op (lift_go (Coins_Add_mem oldCoins amt)) (\<lambda>(newCoins, amt').
        bind_op (setCoins addr newCoins) (\<lambda>_.
        bind_op (if addr = BurnedCoinsAccAddr E then for_each amt' burn_coin else ret ()) (\<lambda>_.
        ret (newCoins, amt'))))))"

definition sendCoins ::
  "'e externals_scheme \<Rightarrow> AccAddress \<Rightarrow> AccAddress \<Rightarrow> Coins \<Rightarrow> ('z auth_state_scheme, Coins) op" where
  "sendCoins E fromAddr toAddr amt =
     bind_op (subtractCoins fromAddr amt) (\<lambda>_.
     bind_op (addCoins E toAddr amt) (\<lambda>(_, amt').
     ret amt'))"

record Input =
  in_Address :: AccAddress
  in_Coins :: Coins

record Output =
  out_Address :: AccAddress
  out_Coins :: Coins

definition take_input :: "Input \<Rightarrow> ('z auth_state_scheme, unit) op" where
  "take_input inp = bind_op (subtractCoins (in_Address inp) (in_Coins inp)) (\<lambda>_. ret ())"

definition give_output :: "'e externals_scheme \<Rightarrow> Output \<Rightarrow> ('z auth_state_scheme, unit) op" where
  "give_output E out = bind_op (addCoins E (out_Address out) (out_Coins out)) (\<lambda>_. ret ())"

definition inputOutputCoins ::
  "'e externals_scheme \<Rightarrow> Input list \<Rightarrow> Output list \<Rightarrow> ('z auth_state_scheme, unit) op" where
  "inputOutputCoins E inputs outputs =
     bind_op (for_each inputs take_input) (\<lambda>_. for_each outputs (give_output E))"

definition SetMemoRegexp :: "AccAddress \<Rightarrow> string \<Rightarrow> ('z auth_state_scheme, unit) op" where
  "SetMemoRegexp fromAddr regexp =
     bind_op (gets (GetAccount fromAddr)) (\<lambda>found. case found of
       None \<Rightarrow> fail ErrInvalidAccount
     | Some acc \<Rightarrow> SetAccount (acc\<lparr>acc_MemoRegexp := regexp\<rparr>))"

definition BurnCoins ::
  "'e externals_scheme \<Rightarrow> AccAddress \<Rightarrow> Coins \<Rightarrow> ('z auth_state_scheme, Coins) op" where
  "BurnCoins E fromAddr amt = sendCoins E fromAddr (BurnedCoinsAccAddr E) amt"

text \<open>The migration from protocol v0, run once: coins sent to the burned-coins account under v0
  and coins counted in v0's burned pool become burned coins of v1.\<close>

definition BankInit :: "'e externals_scheme \<Rightarrow> ('z auth_state_scheme, unit) op" where
  "BankInit E =
     bind_op (gets (\<lambda>s. case burnedToken s of None \<Rightarrow> [] | Some coins \<Rightarrow> coins)) (\<lambda>burnedCoins.
     bind_op (gets (getCoins (BurnedCoinsAccAddr E))) (\<lambda>v0burnedAddrCoins.
     bind_op (if v0burnedAddrCoins \<noteq> [] then DecreaseTotalLoosenToken v0burnedAddrCoins else ret ()) (\<lambda>_.
     bind_op (IncreaseTotalLoosenToken burnedCoins) (\<lambda>_.
     ignore_err (addCoins E (BurnedCoinsAccAddr E) burnedCoins)))))"

section \<open>Messages\<close>

definition Input_ValidateBasic :: "Input \<Rightarrow> sdk_error + unit" where
  "Input_ValidateBasic inp =
     (if length (in_Address inp) = 0 then Inl ErrInvalidAddress
      else if in_Coins inp = [] then Inl ErrInvalidCoins
      else if \<not> Coins_IsValid (in_Coins inp) then Inl ErrInvalidCoins
      else Inr ())"

definition Output_ValidateBasic :: "Output \<Rightarrow> sdk_error + unit" where
  "Output_ValidateBasic out =
     (if length (out_Address out) = 0 then Inl ErrInvalidAddress
      else if out_Coins out = [] then Inl ErrInvalidCoins
      else if \<not> Coins_IsValid (out_Coins out) then Inl ErrInvalidCoins
      else Inr ())"

record MsgSend =
  Inputs :: "Input list"
  Outputs :: "Output list"

text \<open>
  The two loops of \<open>MsgSend.ValidateBasic\<close>. They return the running total and the inputs as
  they are afterwards: \<open>totalIn.Add(in.Coins)\<close> compacts the message's own slices. The outer
  \<open>option\<close> is the panic of \<open>Add\<close>.
\<close>

fun validate_inputs :: "Coins \<Rightarrow> Input list \<Rightarrow> (sdk_error + Coins \<times> Input list) option" where
  "validate_inputs tot [] = Some (Inr (tot, []))"
| "validate_inputs tot (inp # inps) =
     (case Input_ValidateBasic inp of Inl e \<Rightarrow> Some (Inl e)
      | Inr _ \<Rightarrow>
        do { (tot', coins') \<leftarrow> Coins_Add_mem tot (in_Coins inp);
             r \<leftarrow> validate_inputs tot' inps;
             Some (case r of Inl e \<Rightarrow> Inl e
                   | Inr (t, inps') \<Rightarrow> Inr (t, inp\<lparr>in_Coins := coins'\<rparr> # inps')) })"

fun validate_outputs :: "Coins \<Rightarrow> Output list \<Rightarrow> (sdk_error + Coins \<times> Output list) option" where
  "validate_outputs tot [] = Some (Inr (tot, []))"
| "validate_outputs tot (out # outs) =
     (case Output_ValidateBasic out of Inl e \<Rightarrow> Some (Inl e)
      | Inr _ \<Rightarrow>
        do { (tot', coins') \<leftarrow> Coins_Add_mem tot (out_Coins out);
             r \<leftarrow> validate_outputs tot' outs;
             Some (case r of Inl e \<Rightarrow> Inl e
                   | Inr (t, outs') \<Rightarrow> Inr (t, out\<lparr>out_Coins := coins'\<rparr> # outs')) })"

definition MsgSend_ValidateBasic :: "MsgSend \<Rightarrow> (sdk_error + MsgSend) option" where
  "MsgSend_ValidateBasic msg =
     (if Inputs msg = [] then Some (Inl ErrNoInputs)
      else if Outputs msg = [] then Some (Inl ErrNoOutputs)
      else do {
        r \<leftarrow> validate_inputs [] (Inputs msg);
        case r of Inl e \<Rightarrow> Some (Inl e)
        | Inr (totalIn, inputs') \<Rightarrow>
          do { q \<leftarrow> validate_outputs [] (Outputs msg);
               Some (case q of Inl e \<Rightarrow> Inl e
                 | Inr (totalOut, outputs') \<Rightarrow>
                   if \<not> Coins_IsEqual totalIn totalOut then Inl ErrInvalidCoins
                   else Inr \<lparr>Inputs = inputs', Outputs = outputs'\<rparr>) } })"

definition MsgSend_GetSigners :: "MsgSend \<Rightarrow> AccAddress list" where
  "MsgSend_GetSigners msg = map in_Address (Inputs msg)"

record MsgBurn =
  burn_Owner :: AccAddress
  burn_Coins :: Coins

definition MsgBurn_ValidateBasic :: "MsgBurn \<Rightarrow> sdk_error + unit" where
  "MsgBurn_ValidateBasic msg =
     (if length (burn_Owner msg) = 0 then Inl ErrInvalidAddress
      else if burn_Coins msg = [] then Inl ErrInvalidCoins
      else if \<not> Coins_IsValid (burn_Coins msg) then Inl ErrInvalidCoins
      else Inr ())"

record MsgSetMemoRegexp =
  memo_Owner :: AccAddress
  memo_Regexp :: string

definition memoRegexpLengthLimit :: nat where
  "memoRegexpLengthLimit = 50"

definition MsgSetMemoRegexp_ValidateBasic ::
  "'e externals_scheme \<Rightarrow> MsgSetMemoRegexp \<Rightarrow> sdk_error + unit" where
  "MsgSetMemoRegexp_ValidateBasic E msg =
     (if length (memo_Owner msg) = 0 then Inl ErrInvalidAddress
      else if length (memo_Regexp msg) > memoRegexpLengthLimit then Inl ErrInvalidMemoRegexp
      else if RegexpCompile E (memo_Regexp msg) = None then Inl ErrInvalidMemoRegexp
      else Inr ())"

section \<open>Handler, memo check and runtime invariants\<close>

datatype BankMsg = BankMsgSend MsgSend | BankMsgBurn MsgBurn | BankMsgSetMemoRegexp MsgSetMemoRegexp

definition handleMsgSend :: "'e externals_scheme \<Rightarrow> MsgSend \<Rightarrow> ('z auth_state_scheme, unit) op" where
  "handleMsgSend E msg = inputOutputCoins E (Inputs msg) (Outputs msg)"

definition handleMsgBurn :: "'e externals_scheme \<Rightarrow> MsgBurn \<Rightarrow> ('z auth_state_scheme, unit) op" where
  "handleMsgBurn E msg = bind_op (BurnCoins E (burn_Owner msg) (burn_Coins msg)) (\<lambda>_. ret ())"

definition handleMsgSetMemoRegexp :: "MsgSetMemoRegexp \<Rightarrow> ('z auth_state_scheme, unit) op" where
  "handleMsgSetMemoRegexp msg = SetMemoRegexp (memo_Owner msg) (memo_Regexp msg)"

definition BankHandler :: "'e externals_scheme \<Rightarrow> BankMsg \<Rightarrow> ('z auth_state_scheme, unit) op" where
  "BankHandler E msg =
     (case msg of BankMsgSend m \<Rightarrow> handleMsgSend E m
      | BankMsgBurn m \<Rightarrow> handleMsgBurn E m
      | BankMsgSetMemoRegexp m \<Rightarrow> handleMsgSetMemoRegexp m)"

text \<open>The bank ante handler: every recipient's memo expression must match the memo. An
  expression that does not compile matches nothing.\<close>

definition memo_ok :: "'e externals_scheme \<Rightarrow> string \<Rightarrow> 'z auth_state_scheme \<Rightarrow> Output \<Rightarrow> bool" where
  "memo_ok E memo s out =
     (case GetAccount (out_Address out) s of None \<Rightarrow> True
      | Some acc \<Rightarrow>
          if acc_MemoRegexp acc = '''' then True
          else (case RegexpCompile E (acc_MemoRegexp acc) of None \<Rightarrow> False | Some f \<Rightarrow> f memo))"

fun BankAnteHandler ::
  "'e externals_scheme \<Rightarrow> string \<Rightarrow> BankMsg list \<Rightarrow> 'z auth_state_scheme \<Rightarrow> sdk_error + unit" where
  "BankAnteHandler E memo [] s = Inr ()"
| "BankAnteHandler E memo (msg # msgs) s =
     (case msg of
        BankMsgSend m \<Rightarrow>
          if list_all (memo_ok E memo s) (Outputs m) then BankAnteHandler E memo msgs s
          else Inl ErrInvalidMemo
      | _ \<Rightarrow> BankAnteHandler E memo msgs s)"

definition NonnegativeBalanceInvariant :: "'z auth_state_scheme \<Rightarrow> bool" where
  "NonnegativeBalanceInvariant s =
     list_all (\<lambda>acc. \<not> Coins_IsAnyNegative (acc_Coins acc)) (GetAllAccounts s)"

fun sum_accounts :: "Coins \<Rightarrow> BaseAccount list \<Rightarrow> Coins option" where
  "sum_accounts tot [] = Some tot"
| "sum_accounts tot (acc # accs) =
     do { tot' \<leftarrow> Coins_Add tot (acc_Coins acc); sum_accounts tot' accs }"

definition TotalCoinsInvariant :: "Coins \<Rightarrow> 'z auth_state_scheme \<Rightarrow> bool" where
  "TotalCoinsInvariant expected s =
     (case sum_accounts [] (GetAllAccounts s) of None \<Rightarrow> False
      | Some totalCoins \<Rightarrow> Coins_IsEqual expected totalCoins)"

section \<open>Single transfers\<close>

text \<open>
  The abstract ledger: the amount each account holds of each denomination, with the two
  operations that the bank promises. \<open>ledger\<close> abstracts the account store to it.
\<close>

type_synonym ledger = "AccAddress \<Rightarrow> string \<Rightarrow> int"

definition ledger :: "'z auth_state_scheme \<Rightarrow> ledger" where
  "ledger s = (\<lambda>a d. balance a d s)"

definition credit :: "AccAddress \<Rightarrow> Coins \<Rightarrow> ledger \<Rightarrow> ledger" where
  "credit a amt L = L(a := (\<lambda>d. L a d + bal amt d))"

definition debit :: "AccAddress \<Rightarrow> Coins \<Rightarrow> ledger \<Rightarrow> ledger" where
  "debit a amt L = L(a := (\<lambda>d. L a d - bal amt d))"

text \<open>The parts of the state that a transfer between ordinary accounts leaves alone.\<close>

definition rest_of :: "'z auth_state_scheme \<Rightarrow> _" where
  "rest_of s = (collectedFees s, feeAuth s, authParams s, burnedToken s, auth_state.more s)"

definition supply_of :: "'z auth_state_scheme \<Rightarrow> _" where
  "supply_of s = (totalLoosenToken s, totalSupply s)"

lemma getCoins_balance: "bal (getCoins a s) d = balance a d s"
  by (simp add: getCoins_def balance_def split: option.split)

lemma getCoins_holding: "accounts_ok s \<Longrightarrow> holding (getCoins a s)"
  by (auto simp: getCoins_def dest: accounts_okD split: option.split)

lemma setCoins_eval:
  assumes "accounts_ok s"
  obtains acc n where "acc_Address acc = addr" "acc_Coins acc = amt"
    "setCoins addr amt s = Ok () (s\<lparr>accounts := fmupd addr acc (accounts s), globalAccountNumber := n\<rparr>)"
proof (cases "GetAccount addr s")
  case None
  show thesis
  proof (rule that)
    show "setCoins addr amt s = Ok () (s\<lparr>accounts := fmupd addr
        (ProtoBaseAccount\<lparr>acc_Address := addr,
           acc_AccountNumber := (case globalAccountNumber s of None \<Rightarrow> 0 | Some n \<Rightarrow> n), acc_Coins := amt\<rparr>) (accounts s),
        globalAccountNumber := Some ((case globalAccountNumber s of None \<Rightarrow> 0 | Some n \<Rightarrow> n) + 1)\<rparr>)"
      using None
      by (simp add: setCoins_def NewAccountWithAddress_def GetNextAccountNumber_def SetAccount_def
          bind_op_def SetAddress_def ProtoBaseAccount_def)
  qed simp_all
next
  case (Some acc)
  show thesis
  proof (rule that)
    show "setCoins addr amt s = Ok () (s\<lparr>accounts := fmupd addr (acc\<lparr>acc_Coins := amt\<rparr>) (accounts s),
        globalAccountNumber := globalAccountNumber s\<rparr>)"
      using Some accounts_okD [OF assms Some] by (simp add: setCoins_def SetAccount_def bind_op_def)
  qed (use accounts_okD [OF assms Some] in simp_all)
qed

text \<open>What \<open>setCoins\<close> does to the ledger.\<close>

lemma setCoins_spec:
  assumes "accounts_ok s"
  obtains t where "setCoins addr amt s = Ok () t" "holding amt \<Longrightarrow> accounts_ok t"
    "ledger t = (ledger s)(addr := bal amt)" "rest_of t = rest_of s" "supply_of t = supply_of s"
    "\<And>d. total_coins d t = total_coins d s + bal amt d - balance addr d s"
proof -
  from assms obtain acc n where acc: "acc_Address acc = addr" "acc_Coins acc = amt"
    and eq: "setCoins addr amt s = Ok () (s\<lparr>accounts := fmupd addr acc (accounts s), globalAccountNumber := n\<rparr>)"
    by (rule setCoins_eval)
  let ?t = "s\<lparr>accounts := fmupd addr acc (accounts s), globalAccountNumber := n\<rparr>"
  show thesis
  proof (rule that)
    show "accounts_ok ?t" if "holding amt" using assms acc that by (simp add: accounts_ok_upd)
    show "ledger ?t = (ledger s)(addr := bal amt)"
      using acc by (auto simp: ledger_def balance_upd fun_eq_iff)
    show "total_coins d ?t = total_coins d s + bal amt d - balance addr d s" for d
      using acc by (simp add: total_coins_upd)
  qed (simp_all add: eq rest_of_def supply_of_def)
qed

lemma subtractCoins_cases:
  assumes wf: "accounts_ok s"
  obtains
    (ok) new t where "subtractCoins addr amt s = Ok new t" "Coins_IsValid amt" "ranged amt" "accounts_ok t"
      "ledger t = debit addr amt (ledger s)" "rest_of t = rest_of s" "supply_of t = supply_of s"
      "\<And>d. total_coins d t = total_coins d s - bal amt d"
      "\<And>d. bal amt d \<le> balance addr d s"
  | (short) d where "subtractCoins addr amt s = Err ErrInsufficientCoins s" "Coins_IsValid amt"
      "balance addr d s < bal amt d"
  | (crash) "subtractCoins addr amt s = Panic" "\<not> (Coins_IsValid amt \<and> ranged amt)"
proof (cases "Coins_IsValid amt")
  case False
  then show thesis by (intro crash) (simp_all add: subtractCoins_def)
next
  case True
  note op = operand_valid [OF True] and hold = getCoins_holding [OF wf, of addr]
  show thesis
  proof (cases "SafeSub (getCoins addr s) amt")
    case None
    have "\<not> ranged amt" using None SafeSub_defined [OF hold, of amt] op by (auto simp: operand_coins_def)
    then show thesis using None True by (intro crash) (simp_all add: subtractCoins_def bind_op_def)
  next
    case (Some r)
    obtain new neg where r: "r = (new, neg)" by (cases r)
    note sub = Some [unfolded r] and flag = cs.minus_short [OF Some [unfolded r] hold op]
    show thesis
    proof (cases neg)
      case True
      then obtain d where "balance addr d s < bal amt d" using flag by (auto simp: getCoins_balance)
      then show thesis using short sub True \<open>Coins_IsValid amt\<close>
        by (simp add: subtractCoins_def bind_op_def)
    next
      case False
      have sub': "SafeSub (getCoins addr s) amt = Some (new, False)" using sub False by simp
      note new = cs.minus_stored [OF sub' hold op] cs.minus_fits [OF sub' hold op]
      have b: "bal new = (\<lambda>d. balance addr d s - bal amt d)"
        using cs.minus_amount [OF sub] by (simp add: getCoins_balance fun_eq_iff)
      obtain t where t: "setCoins addr new s = Ok () t" "accounts_ok t"
        "ledger t = (ledger s)(addr := bal new)" "rest_of t = rest_of s" "supply_of t = supply_of s"
        "\<And>d. total_coins d t = total_coins d s + bal new d - balance addr d s"
        using setCoins_spec [OF wf, of addr new thesis] new(1) by blast
      show thesis
      proof (rule ok)
        show "subtractCoins addr amt s = Ok new t"
          using True sub False t(1) by (simp add: subtractCoins_def bind_op_def)
        show "ledger t = debit addr amt (ledger s)" using t(3) b by (simp add: debit_def ledger_def)
        show "total_coins d t = total_coins d s - bal amt d" for d using t(6) b by simp
        show "bal amt d \<le> balance addr d s" for d
          using flag False by (auto simp: getCoins_balance not_less)
      qed (use True new t in simp_all)
    qed
  qed
qed

lemma burn_coin_no_Err: "burn_coin coin s \<noteq> Err e t"
  by (auto simp: burn_coin_def DecreaseTotalLoosenToken_def split: prod.splits if_splits)

lemma burn_loop_no_Err: "for_each cs burn_coin s \<noteq> Err e t"
  by (induction cs arbitrary: s) (auto simp: burn_coin_no_Err)

lemma keeps_SetTotalSupply:
  "(\<And>s m. I (s\<lparr>totalSupply := m\<rparr>) = I s) \<Longrightarrow> keeps I (SetTotalSupply c)"
  unfolding SetTotalSupply_def by (rule keeps_modify) simp

text \<open>Burning touches nothing but the two supply counters.\<close>

lemma keeps_burn_coin:
  assumes "\<And>s m. I (s\<lparr>totalSupply := m\<rparr>) = I s" "\<And>s l. I (s\<lparr>totalLoosenToken := l\<rparr>) = I s"
  shows "keeps I (burn_coin coin)"
  unfolding burn_coin_def DecreaseTotalLoosenToken_def DecreaseTotalSupply_def
  by (intro keeps_intros keeps_SetTotalSupply keeps_modify) (simp_all add: assms)

lemma burn_loop_frame:
  assumes "for_each cs burn_coin s = Ok x t"
  shows "ledger t = ledger s" "rest_of t = rest_of s" "accounts_ok t = accounts_ok s"
    "total_coins d t = total_coins d s"
proof -
  have k: "keeps (\<lambda>u. ledger u = ledger s \<and> rest_of u = rest_of s \<and> accounts_ok u = accounts_ok s \<and>
      total_coins d u = total_coins d s) (for_each cs burn_coin)"
    by (intro keeps_for_each keeps_burn_coin) (simp_all add: ledger_def rest_of_def)
  show "ledger t = ledger s" "rest_of t = rest_of s" "accounts_ok t = accounts_ok s"
    "total_coins d t = total_coins d s"
    using keeps_Ok [OF k _ assms] by simp_all
qed

lemma addCoins_cases:
  assumes wf: "accounts_ok s"
  obtains
    (ok) new amt' t where "addCoins E addr amt s = Ok (new, amt') t" "Coins_IsValid amt"
      "ranged amt \<Longrightarrow> accounts_ok t" "ledger t = credit addr amt (ledger s)"
      "rest_of t = rest_of s" "addr \<noteq> BurnedCoinsAccAddr E \<Longrightarrow> supply_of t = supply_of s"
      "\<And>d. total_coins d t = total_coins d s + bal amt d" "no_zero amt \<Longrightarrow> amt' = amt"
  | (crash) "addCoins E addr amt s = Panic" "addr \<noteq> BurnedCoinsAccAddr E \<Longrightarrow> Coins_IsValid amt \<Longrightarrow>
      \<exists>d. \<not> in_range (balance addr d s + bal amt d)"
proof (cases "Coins_IsValid amt")
  case False
  then show thesis by (intro crash) (simp_all add: addCoins_def)
next
  case True
  note op = operand_valid [OF True] and hold = getCoins_holding [OF wf, of addr]
  show thesis
  proof (cases "Coins_Add_mem (getCoins addr s) amt")
    case None
    have "\<exists>d. \<not> in_range (balance addr d s + bal amt d)"
      using None Coins_Add_defined [OF hold, of amt] op
      by (auto simp: operand_coins_def getCoins_balance)
    then show thesis using None True by (intro crash) (simp_all add: addCoins_def bind_op_def)
  next
    case (Some r)
    obtain new amt' where r: "r = (new, amt')" by (cases r)
    note add = Some [unfolded r] and sum = Coins_Add_mem_fst [OF Some [unfolded r]]
    obtain t where t: "setCoins addr new s = Ok () t" "holding new \<Longrightarrow> accounts_ok t"
      "ledger t = (ledger s)(addr := bal new)" "rest_of t = rest_of s" "supply_of t = supply_of s"
      "\<And>d. total_coins d t = total_coins d s + bal new d - balance addr d s"
      using setCoins_spec [OF wf, of addr new thesis] by blast
    have b: "bal new = (\<lambda>d. balance addr d s + bal amt d)"
      using cs.plus_amount [OF sum] by (simp add: getCoins_balance fun_eq_iff)
    have wf': "accounts_ok t" if "ranged amt" using t(2) cs.plus_stored [OF sum hold op that] by blast
    let ?burn = "if addr = BurnedCoinsAccAddr E then for_each amt' burn_coin else ret ()"
    have eval: "addCoins E addr amt s = bind_op ?burn (\<lambda>_. ret (new, amt')) t"
      using True add t(1) by (simp add: addCoins_def bind_op_def)
    show thesis
    proof (cases "?burn t")
      case (Ok x u)
      have f: "ledger u = ledger t" "rest_of u = rest_of t" "accounts_ok u = accounts_ok t"
        "total_coins d u = total_coins d t" "addr \<noteq> BurnedCoinsAccAddr E \<Longrightarrow> u = t" for d
        using Ok burn_loop_frame [of amt' t x u] by (simp_all split: if_splits)
      show thesis
      proof (rule ok)
        show "addCoins E addr amt s = Ok (new, amt') u" using eval Ok by (simp add: bind_op_def)
        show "ledger u = credit addr amt (ledger s)"
          using f(1) t(3) b by (simp add: credit_def ledger_def)
        show "total_coins d u = total_coins d s + bal amt d" for d using f(4) t(6) b by simp
        show "amt' = amt" if "no_zero amt" using Coins_Add_mem_arg [OF add that] .
      qed (use True wf' f t in simp_all)
    next
      case (Err e u)
      then show thesis by (simp add: burn_loop_no_Err split: if_splits)
    next
      case Panic
      then show thesis using eval by (intro crash) (simp_all add: bind_op_def split: if_splits)
    qed
  qed
qed

lemma addCoins_spec:
  assumes "ignore_err (addCoins E a amt) s = Ok u t" "accounts_ok s" "ranged amt"
  shows "accounts_ok t" "ledger t = credit a amt (ledger s)" "auth_state.more t = auth_state.more s"
    "\<And>d. total_coins d t = total_coins d s + bal amt d"
proof -
  have "accounts_ok t \<and> ledger t = credit a amt (ledger s) \<and> auth_state.more t = auth_state.more s \<and>
      (\<forall>d. total_coins d t = total_coins d s + bal amt d)"
    using assms(2)
  proof (cases rule: addCoins_cases [of s E a amt])
    case (ok new amt' t')
    have "t' = t" using assms(1) ok(1) by simp
    then show ?thesis using ok assms(3) by (simp add: rest_of_def)
  next
    case crash
    then show ?thesis using assms(1) by simp
  qed
  then show "accounts_ok t" "ledger t = credit a amt (ledger s)" "auth_state.more t = auth_state.more s"
    "\<And>d. total_coins d t = total_coins d s + bal amt d" by blast+
qed

lemma subtractCoins_spec:
  assumes "subtractCoins a amt s = Ok new t" "accounts_ok s"
  shows "accounts_ok t" "ledger t = debit a amt (ledger s)" "auth_state.more t = auth_state.more s"
    "\<And>d. total_coins d t = total_coins d s - bal amt d" "ranged amt"
  using assms(2,1) by (cases rule: subtractCoins_cases [of s a amt]; simp add: rest_of_def)+

lemma sendCoins_cases:
  assumes wf: "accounts_ok s"
  obtains
    (ok) amt' t where "sendCoins E a b amt s = Ok amt' t" "Coins_IsValid amt" "ranged amt" "accounts_ok t"
      "ledger t = credit b amt (debit a amt (ledger s))" "rest_of t = rest_of s"
      "b \<noteq> BurnedCoinsAccAddr E \<Longrightarrow> supply_of t = supply_of s"
      "\<And>d. total_coins d t = total_coins d s" "no_zero amt \<Longrightarrow> amt' = amt"
      "\<And>d. bal amt d \<le> balance a d s"
  | (short) d where "sendCoins E a b amt s = Err ErrInsufficientCoins s" "balance a d s < bal amt d"
  | (crash) "sendCoins E a b amt s = Panic" "b \<noteq> BurnedCoinsAccAddr E \<Longrightarrow>
      \<not> (Coins_IsValid amt \<and> ranged amt \<and> (\<forall>d. in_range (total_coins d s)))"
  using wf
proof (cases rule: subtractCoins_cases [of s a amt])
  case sub: (ok new t)
  from sub(4) show thesis
  proof (cases rule: addCoins_cases [of t E b amt])
    case add: (ok new' amt' u)
    show thesis
    proof (rule ok)
      show "sendCoins E a b amt s = Ok amt' u"
        using sub(1) add(1) by (simp add: sendCoins_def bind_op_def)
      show "total_coins d u = total_coins d s" for d using sub(8) add(7) by simp
    qed (use sub add in simp_all)
  next
    case add: crash
    show thesis
    proof (rule crash)
      show "sendCoins E a b amt s = Panic"
        using sub(1) add(1) by (simp add: sendCoins_def bind_op_def)
      show "\<not> (Coins_IsValid amt \<and> ranged amt \<and> (\<forall>d. in_range (total_coins d s)))"
        if b: "b \<noteq> BurnedCoinsAccAddr E"
      proof
        assume r: "Coins_IsValid amt \<and> ranged amt \<and> (\<forall>d. in_range (total_coins d s))"
        then obtain d where d: "\<not> in_range (balance b d t + bal amt d)" using add(2) b by blast
        have "0 \<le> bal amt d" using cs.operand_nonneg operand_valid r by blast
        moreover have "0 \<le> balance b d t" "balance b d t \<le> total_coins d t"
          using balance_nonneg balance_le_total sub(4) by blast+
        ultimately have "0 \<le> balance b d t + bal amt d" "balance b d t + bal amt d \<le> total_coins d s"
          using sub(8) [of d] by linarith+
        moreover have "in_range (total_coins d s)" using r by blast
        ultimately show False using d by (blast intro: in_range_between)
      qed
    qed
  qed
next
  case sub: (short d)
  then show thesis by (intro short) (simp_all add: sendCoins_def bind_op_def)
next
  case sub: crash
  then show thesis by (intro crash) (auto simp: sendCoins_def bind_op_def)
qed

section \<open>The keeper as an interface\<close>

text \<open>
  What other modules rely on when they call \<open>SendCoins\<close>: it moves exactly the given coins, it
  refuses only a short sender and then changes nothing, and it does not touch the caller's own
  store.
\<close>

locale bank_keeper =
  fixes SendCoins :: "AccAddress \<Rightarrow> AccAddress \<Rightarrow> Coins \<Rightarrow> ('s, Coins) op"
    and funds :: "'s \<Rightarrow> ledger"
    and wf :: "'s \<Rightarrow> bool"
    and own :: "'s \<Rightarrow> 'r"
    and roomy :: "'s \<Rightarrow> bool"
    and sink :: AccAddress
  assumes send_Ok: "wf s \<Longrightarrow> SendCoins a b amt s = Ok amt' t \<Longrightarrow>
      wf t \<and> funds t = credit b amt (debit a amt (funds s)) \<and> own t = own s \<and> Coins_IsValid amt \<and>
      ranged amt \<and> (no_zero amt \<longrightarrow> amt' = amt) \<and> (roomy t = roomy s)"
    and send_Err: "wf s \<Longrightarrow> SendCoins a b amt s = Err e t \<Longrightarrow> t = s \<and> (\<exists>d. funds s a d < bal amt d)"
    and send_total: "wf s \<Longrightarrow> roomy s \<Longrightarrow> b \<noteq> sink \<Longrightarrow> Coins_IsValid amt \<Longrightarrow> ranged amt \<Longrightarrow>
      SendCoins a b amt s \<noteq> Panic"
    and funds_nonneg: "wf s \<Longrightarrow> 0 \<le> funds s a d"
begin

lemma send_succeeds:
  assumes "wf s" "roomy s" "b \<noteq> sink" "Coins_IsValid amt" "ranged amt" "\<And>d. bal amt d \<le> funds s a d"
  shows "\<exists>amt' t. SendCoins a b amt s = Ok amt' t"
proof (cases "SendCoins a b amt s")
  case (Err e t)
  then obtain d where "funds s a d < bal amt d" using send_Err assms(1) by blast
  with assms(6) [of d] show ?thesis by simp
qed (use send_total [OF assms(1-5)] in simp_all)

lemma send_other:
  assumes "wf s" "SendCoins a b amt s = Ok amt' t" "c \<noteq> a" "c \<noteq> b"
  shows "funds t c = funds s c"
  using send_Ok [OF assms(1,2)] assms(3,4) by (simp add: credit_def debit_def)

lemma send_covered:
  assumes "wf s" "SendCoins a b amt s = Ok amt' t" "a \<noteq> b"
  shows "bal amt d \<le> funds s a d" "funds t a d = funds s a d - bal amt d"
    "funds t b d = funds s b d + bal amt d"
proof -
  show a: "funds t a d = funds s a d - bal amt d" and "funds t b d = funds s b d + bal amt d"
    using send_Ok [OF assms(1,2)] assms(3) by (simp_all add: credit_def debit_def)
  show "bal amt d \<le> funds s a d"
    using send_Ok [OF assms(1,2)] funds_nonneg [of t a d] a by simp
qed

end

definition supply_in_range :: "'z auth_state_scheme \<Rightarrow> bool" where
  "supply_in_range s \<longleftrightarrow> (\<forall>d. in_range (total_coins d s))"

interpretation bk: bank_keeper
  "sendCoins E" "ledger :: 'z auth_state_scheme \<Rightarrow> ledger" accounts_ok auth_state.more supply_in_range
  "BurnedCoinsAccAddr E" for E :: "'e externals_scheme"
proof unfold_locales
  fix s t :: "'z auth_state_scheme" and a b amt amt' e
  assume wf: "accounts_ok s"
  show "accounts_ok t \<and> ledger t = credit b amt (debit a amt (ledger s)) \<and>
      auth_state.more t = auth_state.more s \<and> Coins_IsValid amt \<and> ranged amt \<and>
      (no_zero amt \<longrightarrow> amt' = amt) \<and> (supply_in_range t = supply_in_range s)"
    if "sendCoins E a b amt s = Ok amt' t"
    using wf that by (cases rule: sendCoins_cases [of s E a b amt]) (auto simp: rest_of_def supply_in_range_def)
  show "t = s \<and> (\<exists>d. ledger s a d < bal amt d)" if "sendCoins E a b amt s = Err e t"
    using wf that by (cases rule: sendCoins_cases [of s E a b amt]) (auto simp: ledger_def)
  show "sendCoins E a b amt s \<noteq> Panic"
    if "supply_in_range s" "b \<noteq> BurnedCoinsAccAddr E" "Coins_IsValid amt" "ranged amt"
    using wf that by (cases rule: sendCoins_cases [of s E a b amt]) (auto simp: supply_in_range_def)
  show "0 \<le> ledger s a d" for d using balance_nonneg [OF wf] by (simp add: ledger_def)
qed

section \<open>Multi-party sends\<close>

definition inputs_bal :: "Input list \<Rightarrow> string \<Rightarrow> int" where
  "inputs_bal ins d = (\<Sum>i\<leftarrow>ins. bal (in_Coins i) d)"

definition outputs_bal :: "Output list \<Rightarrow> string \<Rightarrow> int" where
  "outputs_bal outs d = (\<Sum>o'\<leftarrow>outs. bal (out_Coins o') d)"

lemma inputs_bal_simps [simp]:
  "inputs_bal [] d = 0" "inputs_bal (i # ins) d = bal (in_Coins i) d + inputs_bal ins d"
  by (simp_all add: inputs_bal_def)

lemma outputs_bal_simps [simp]:
  "outputs_bal [] d = 0" "outputs_bal (o' # outs) d = bal (out_Coins o') d + outputs_bal outs d"
  by (simp_all add: outputs_bal_def)

lemma take_input_Ok [simp]:
  "take_input i s = Ok u t \<longleftrightarrow> (\<exists>new. subtractCoins (in_Address i) (in_Coins i) s = Ok new t)"
  by (auto simp: take_input_def)

lemma give_output_Ok [simp]:
  "give_output E o' s = Ok u t \<longleftrightarrow> (\<exists>r. addCoins E (out_Address o') (out_Coins o') s = Ok r t)"
  by (auto simp: give_output_def)

lemma inputs_loop:
  assumes "for_each ins take_input s = Ok u t"
    and "accounts_ok s"
  shows "accounts_ok t \<and> ledger t = fold (\<lambda>i. debit (in_Address i) (in_Coins i)) ins (ledger s) \<and>
    rest_of t = rest_of s \<and> supply_of t = supply_of s \<and> (\<forall>i\<in>set ins. ranged (in_Coins i)) \<and>
    (\<forall>d. total_coins d t = total_coins d s - inputs_bal ins d)"
  using assms
proof (induction ins arbitrary: s)
  case (Cons i ins)
  then obtain new s' where s': "subtractCoins (in_Address i) (in_Coins i) s = Ok new s'"
    and rec: "for_each ins take_input s' = Ok u t"
    by auto
  from Cons.prems(2) s' have *: "accounts_ok s'" "ranged (in_Coins i)" "rest_of s' = rest_of s"
    "supply_of s' = supply_of s" "ledger s' = debit (in_Address i) (in_Coins i) (ledger s)"
    "\<And>d. total_coins d s' = total_coins d s - bal (in_Coins i) d"
    by (cases rule: subtractCoins_cases [of s "in_Address i" "in_Coins i"], simp_all)+
  from Cons.IH [OF rec *(1)] * show ?case by simp
qed simp

lemma outputs_loop:
  assumes "for_each outs (give_output E) s = Ok u t"
    and "accounts_ok s" "\<forall>o'\<in>set outs. ranged (out_Coins o')"
  shows "accounts_ok t \<and> ledger t = fold (\<lambda>o'. credit (out_Address o') (out_Coins o')) outs (ledger s) \<and>
    rest_of t = rest_of s \<and> (\<forall>d. total_coins d t = total_coins d s + outputs_bal outs d)"
  using assms
proof (induction outs arbitrary: s)
  case (Cons o' outs)
  then obtain r s' where s': "addCoins E (out_Address o') (out_Coins o') s = Ok r s'"
    and rec: "for_each outs (give_output E) s' = Ok u t"
    by auto
  have "ranged (out_Coins o')" using Cons.prems(3) by simp
  with Cons.prems(2) s' have *: "accounts_ok s'" "rest_of s' = rest_of s"
    "ledger s' = credit (out_Address o') (out_Coins o') (ledger s)"
    "\<And>d. total_coins d s' = total_coins d s + bal (out_Coins o') d"
    by (cases rule: addCoins_cases [of s E "out_Address o'" "out_Coins o'"], simp_all)+
  from Cons.IH [OF rec *(1)] Cons.prems(3) * show ?case by simp
qed simp

text \<open>Validation computes the two totals, and leaves a message without zero coins as it was.\<close>

lemma validate_inputs_spec:
  assumes "validate_inputs tot ins = Some (Inr (tot', ins'))"
    and "sorted_denoms tot" "\<forall>i\<in>set ins. no_zero (in_Coins i)"
  shows "ins' = ins \<and> sorted_denoms tot' \<and> (\<forall>d. bal tot' d = bal tot d + inputs_bal ins d)"
  using assms
proof (induction ins arbitrary: tot ins')
  case (Cons i ins)
  have b: "Input_ValidateBasic i = Inr ()"
    using Cons.prems(1) by (cases "Input_ValidateBasic i") simp_all
  then have v: "Coins_IsValid (in_Coins i)" and nz: "no_zero (in_Coins i)"
    using Cons.prems(3) by (auto simp: Input_ValidateBasic_def split: if_splits)
  from Cons.prems(1) b obtain t1 c1 r where
    add: "Coins_Add_mem tot (in_Coins i) = Some (t1, c1)" and r: "validate_inputs t1 ins = Some r"
    "(case r of Inl e \<Rightarrow> Inl e | Inr (t, ins1) \<Rightarrow> Inr (t, i\<lparr>in_Coins := c1\<rparr> # ins1)) = Inr (tot', ins')"
    by (auto simp: bind_eq_Some_conv)
  from r obtain ins1 where rec: "validate_inputs t1 ins = Some (Inr (tot', ins1))"
    and ins': "ins' = i\<lparr>in_Coins := c1\<rparr> # ins1"
    by (cases r) auto
  have sum: "Coins_Add tot (in_Coins i) = Some t1" using add by (rule Coins_Add_mem_fst)
  have s1: "sorted_denoms t1"
    using sum safeAdd_wf [of tot "in_Coins i"] Cons.prems(2) Coins_IsValid_sorted(1) [OF v]
    by (auto simp: Coins_Add_Some)
  from Cons.IH [OF rec s1] Cons.prems(3) have "ins1 = ins" "sorted_denoms tot'"
    "\<And>d. bal tot' d = bal t1 d + inputs_bal ins d" by auto
  then show ?case
    using ins' Coins_Add_mem_arg [OF add nz] Coins_Add_bal [OF sum] by simp
qed simp

lemma validate_outputs_spec:
  assumes "validate_outputs tot outs = Some (Inr (tot', outs'))"
    and "sorted_denoms tot" "\<forall>o'\<in>set outs. no_zero (out_Coins o')"
  shows "outs' = outs \<and> sorted_denoms tot' \<and> (\<forall>d. bal tot' d = bal tot d + outputs_bal outs d) \<and>
    (\<forall>o'\<in>set outs. operand_coins (out_Coins o'))"
  using assms
proof (induction outs arbitrary: tot outs')
  case (Cons o' outs)
  have b: "Output_ValidateBasic o' = Inr ()"
    using Cons.prems(1) by (cases "Output_ValidateBasic o'") simp_all
  then have v: "Coins_IsValid (out_Coins o')" and nz: "no_zero (out_Coins o')"
    using Cons.prems(3) by (auto simp: Output_ValidateBasic_def split: if_splits)
  from Cons.prems(1) b obtain t1 c1 r where
    add: "Coins_Add_mem tot (out_Coins o') = Some (t1, c1)" and r: "validate_outputs t1 outs = Some r"
    "(case r of Inl e \<Rightarrow> Inl e | Inr (t, outs1) \<Rightarrow> Inr (t, o'\<lparr>out_Coins := c1\<rparr> # outs1)) = Inr (tot', outs')"
    by (auto simp: bind_eq_Some_conv)
  from r obtain outs1 where rec: "validate_outputs t1 outs = Some (Inr (tot', outs1))"
    and outs': "outs' = o'\<lparr>out_Coins := c1\<rparr> # outs1"
    by (cases r) auto
  have sum: "Coins_Add tot (out_Coins o') = Some t1" using add by (rule Coins_Add_mem_fst)
  have s1: "sorted_denoms t1"
    using sum safeAdd_wf [of tot "out_Coins o'"] Cons.prems(2) Coins_IsValid_sorted(1) [OF v]
    by (auto simp: Coins_Add_Some)
  from Cons.IH [OF rec s1] Cons.prems(3) have "outs1 = outs" "sorted_denoms tot'"
    "\<And>d. bal tot' d = bal t1 d + outputs_bal outs d" "\<forall>o'\<in>set outs. operand_coins (out_Coins o')" by auto
  then show ?case
    using outs' Coins_Add_mem_arg [OF add nz] Coins_Add_bal [OF sum] operand_valid [OF v] by simp
qed simp

lemma outputs_ranged:
  assumes "\<forall>o'\<in>set outs. operand_coins (out_Coins o')" "\<And>d. in_range (outputs_bal outs d)"
  shows "\<forall>o'\<in>set outs. ranged (out_Coins o')"
proof
  fix o' assume o': "o' \<in> set outs"
  have nn: "0 \<le> bal (out_Coins p) d" if "p \<in> set outs" for p d
    using assms(1) that cs.operand_nonneg by blast
  have "bal (out_Coins o') d \<le> outputs_bal outs d" for d
    unfolding outputs_bal_def using o' nn by (intro member_le_sum_list) auto
  then have "in_range (bal (out_Coins o') d)" for d
    using in_range_between nn [OF o'] assms(2) by blast
  then show "ranged (out_Coins o')"
    using ranged_bal [of "out_Coins o'"] assms(1) o' by (auto simp: operand_coins_def)
qed

lemma Coins_IsEqual_bal:
  assumes "Coins_IsEqual a b"
  shows "bal a d = bal b d"
proof -
  have "list_all2 Coin_IsEqual (Coins_Sort a) (Coins_Sort b)"
    using assms by (auto simp: Coins_IsEqual_def split: if_splits)
  then have "list_all2 (=) (Coins_Sort a) (Coins_Sort b)"
    by (rule list_all2_mono) (simp add: Coin_IsEqual_def Coin_eq_iff)
  then have "Coins_Sort a = Coins_Sort b" by (simp add: list.rel_eq)
  moreover have "bal (Coins_Sort cs) d = bal cs d" for cs
  proof -
    have "bal (insort_key Denom c xs) d = bal (c # xs) d" for c xs
      by (induction xs) auto
    then show ?thesis unfolding Coins_Sort_def by (induction cs) simp_all
  qed
  ultimately show ?thesis by metis
qed

lemma MsgSend_validated:
  assumes "MsgSend_ValidateBasic msg = Some (Inr msg')"
    and "\<forall>i\<in>set (Inputs msg). no_zero (in_Coins i)" "\<forall>o'\<in>set (Outputs msg). no_zero (out_Coins o')"
  shows "msg' = msg" "inputs_bal (Inputs msg) d = outputs_bal (Outputs msg) d"
    "\<forall>o'\<in>set (Outputs msg). operand_coins (out_Coins o')"
proof -
  let ?vi = "validate_inputs [] (Inputs msg)" and ?vo = "validate_outputs [] (Outputs msg)"
  obtain ti ins where vi: "?vi = Some (Inr (ti, ins))"
    using assms(1) by (cases ?vi; cases "the ?vi") (auto simp: MsgSend_ValidateBasic_def split: if_splits)
  obtain to outs where "?vo = Some (Inr (to, outs))"
    using assms(1) vi by (cases ?vo; cases "the ?vo") (auto simp: MsgSend_ValidateBasic_def split: if_splits)
  with vi assms(1) have v: "?vi = Some (Inr (ti, ins))" "?vo = Some (Inr (to, outs))"
    "Coins_IsEqual ti to" "msg' = \<lparr>Inputs = ins, Outputs = outs\<rparr>"
    by (auto simp: MsgSend_ValidateBasic_def split: if_splits)
  note i = validate_inputs_spec [OF v(1) _ assms(2)] and o = validate_outputs_spec [OF v(2) _ assms(3)]
  show "msg' = msg" "inputs_bal (Inputs msg) d = outputs_bal (Outputs msg) d"
    "\<forall>o'\<in>set (Outputs msg). operand_coins (out_Coins o')"
    using i o v(4) Coins_IsEqual_bal [OF v(3), of d] by auto
qed

lemma inputOutputCoins_spec:
  assumes "inputOutputCoins E ins outs s = Ok u t" "accounts_ok s"
    and "\<forall>o'\<in>set outs. operand_coins (out_Coins o')" "\<And>d. inputs_bal ins d = outputs_bal outs d"
    and "\<And>d. in_range (total_coins d s)"
  shows "accounts_ok t" "total_coins d t = total_coins d s" "rest_of t = rest_of s"
    "ledger t = fold (\<lambda>o'. credit (out_Address o') (out_Coins o')) outs
      (fold (\<lambda>i. debit (in_Address i) (in_Coins i)) ins (ledger s))"
proof -
  obtain s' where 1: "for_each ins take_input s = Ok () s'" and 2: "for_each outs (give_output E) s' = Ok u t"
    using assms(1) by (auto simp: inputOutputCoins_def)
  note i = inputs_loop [OF 1 assms(2)]
  have "0 \<le> outputs_bal outs d" for d
    unfolding outputs_bal_def using assms(3) cs.operand_nonneg by (intro sum_list_nonneg) auto
  moreover have "outputs_bal outs d \<le> total_coins d s" for d
  proof -
    have "0 \<le> total_coins d s'"
      using i balance_nonneg [of s' undefined d] balance_le_total [of s' undefined d] by linarith
    then show ?thesis using i assms(4) [of d] by simp
  qed
  ultimately have "in_range (outputs_bal outs d)" for d
    using in_range_between assms(5) by blast
  then have "\<forall>o'\<in>set outs. ranged (out_Coins o')" by (rule outputs_ranged [OF assms(3)])
  with outputs_loop [OF 2] i assms(4) show "accounts_ok t" "total_coins d t = total_coins d s"
    "rest_of t = rest_of s" "ledger t = fold (\<lambda>o'. credit (out_Address o') (out_Coins o')) outs
      (fold (\<lambda>i. debit (in_Address i) (in_Coins i)) ins (ledger s))" by auto
qed

section \<open>Burning and the supply counters\<close>

lemma DecreaseTotalSupply_Ok:
  assumes "DecreaseTotalSupply c s = Ok u t"
  shows "t = s \<or> (\<exists>c'. GetTotalSupply (Denom c) s = Some c' \<and> Denom c' = Denom c \<and>
    t = s\<lparr>totalSupply := fmupd (TotalSupplyStoreKey (Denom c))
      \<lparr>Denom = Denom c, Amount = Amount c' - Amount c\<rparr> (totalSupply s)\<rparr>)"
  using assms
  by (auto simp: DecreaseTotalSupply_def SetTotalSupply_def Coin_Sub_def NewCoin_def bind_eq_Some_conv
      split: if_splits option.splits)

text \<open>One round of the burn loop, on the supply of a token \<open>d\<close> that is registered.\<close>

lemma burn_coin_supply:
  assumes "burn_coin c s = Ok u t" "IsCoinMinDenomValid (Denom c)" "0 \<le> Amount c"
    and d: "IsCoinMinDenomValid d" "d \<noteq> IrisAtto" "GetTotalSupply d s = Some \<lparr>Denom = d, Amount = n\<rparr>"
  shows "GetTotalSupply d t = Some \<lparr>Denom = d, Amount = n - (if Denom c = d then Amount c else 0)\<rparr>"
proof (cases "Denom c = IrisAtto")
  case True
  then have "GetTotalSupply d t = GetTotalSupply d s"
    using assms(1) by (auto simp: burn_coin_def DecreaseTotalLoosenToken_def GetTotalSupply_def
        split: if_splits prod.splits)
  with True d show ?thesis by simp
next
  case nat: False
  show ?thesis
  proof (cases "Denom c = d")
    case True
    then have suf: "HasSuffix (Denom c) MinDenomSuffix"
      using d nat by (auto simp: IsCoinMinDenomValid_def split: if_splits)
    then show ?thesis
      using True nat d(3) assms(1,3)
      by (auto simp: burn_coin_def DecreaseTotalSupply_def SetTotalSupply_def Coin_Sub_def NewCoin_def
          GetTotalSupply_def bind_eq_Some_conv split: if_splits)
  next
    case False
    have "TotalSupplyStoreKey (Denom c) \<noteq> TotalSupplyStoreKey d"
      using TotalSupplyStoreKey_inj [OF assms(2) d(1) nat d(2)] False by simp
    moreover have "t = s \<or> (\<exists>c' n. t = s\<lparr>totalSupply := fmupd (TotalSupplyStoreKey (Denom c)) c' (totalSupply s)\<rparr>)"
      using assms(1) nat DecreaseTotalSupply_Ok [of c s _ t]
      by (auto simp: burn_coin_def DecreaseTotalSupply_def SetTotalSupply_def split: if_splits option.splits)
    ultimately show ?thesis using d(3) False by (auto simp: GetTotalSupply_def)
  qed
qed

lemma burn_loop_supply:
  assumes "for_each cs burn_coin s = Ok u t" "\<forall>c\<in>set cs. IsCoinMinDenomValid (Denom c) \<and> 0 \<le> Amount c"
    and "IsCoinMinDenomValid d" "d \<noteq> IrisAtto" "GetTotalSupply d s = Some \<lparr>Denom = d, Amount = n\<rparr>"
  shows "GetTotalSupply d t = Some \<lparr>Denom = d, Amount = n - bal cs d\<rparr>"
  using assms
proof (induction cs arbitrary: s n)
  case (Cons c cs)
  then obtain v s' where s': "burn_coin c s = Ok v s'" "for_each cs burn_coin s' = Ok u t" by auto
  from burn_coin_supply [OF s'(1)] Cons.prems
  have "GetTotalSupply d s' = Some \<lparr>Denom = d, Amount = n - (if Denom c = d then Amount c else 0)\<rparr>"
    by simp
  from Cons.IH [OF s'(2) _ Cons.prems(3,4) this] Cons.prems(2) show ?case by (simp add: algebra_simps)
qed simp

lemma burn_coin_loosen:
  assumes "burn_coin c s = Ok u t" "0 \<le> Amount c"
  shows "bal (totalLoosenToken t) IrisAtto =
    bal (totalLoosenToken s) IrisAtto - (if Denom c = IrisAtto then Amount c else 0)"
proof (cases "Denom c = IrisAtto")
  case True
  then show ?thesis
    using assms SafeSub_bal [of "totalLoosenToken s" "[c]"]
    by (auto simp: burn_coin_def DecreaseTotalLoosenToken_def split: if_splits prod.splits)
next
  case False
  then show ?thesis
    using assms(1) DecreaseTotalSupply_Ok [of c s _ t]
    by (auto simp: burn_coin_def DecreaseTotalSupply_def SetTotalSupply_def split: if_splits option.splits)
qed

lemma burn_loop_loosen:
  "for_each cs burn_coin s = Ok u t \<Longrightarrow> nonneg cs \<Longrightarrow>
   bal (totalLoosenToken t) IrisAtto = bal (totalLoosenToken s) IrisAtto - bal cs IrisAtto"
proof (induction cs arbitrary: s)
  case (Cons c cs)
  then obtain v s' where s': "burn_coin c s = Ok v s'" "for_each cs burn_coin s' = Ok u t" by auto
  from Cons.IH [OF s'(2)] burn_coin_loosen [OF s'(1)] Cons.prems(2) show ?case by (simp add: nonneg_def)
qed simp

lemma addCoins_burned:
  assumes "addCoins E (BurnedCoinsAccAddr E) amt s = Ok (new, amt') t" "no_zero amt" "accounts_ok s"
  obtains s' u where "supply_of s' = supply_of s" "for_each amt burn_coin s' = Ok u t" "Coins_IsValid amt"
proof -
  obtain s1 where v: "Coins_IsValid amt"
    and add: "Coins_Add_mem (getCoins (BurnedCoinsAccAddr E) s) amt = Some (new, amt')"
    and set: "setCoins (BurnedCoinsAccAddr E) new s = Ok () s1" and loop: "for_each amt' burn_coin s1 = Ok () t"
    using assms(1) by (auto simp: addCoins_def split: if_splits)
  have "supply_of s1 = supply_of s"
    by (rule setCoins_spec [OF assms(3), of "BurnedCoinsAccAddr E" new]) (use set in simp)
  with v loop Coins_Add_mem_arg [OF add assms(2)] show thesis using that by blast
qed

lemma BurnCoins_spec:
  assumes ok: "BurnCoins E a amt s = Ok amt' t" and "accounts_ok s" "no_zero amt" "a \<noteq> BurnedCoinsAccAddr E"
  shows "ledger t = credit (BurnedCoinsAccAddr E) amt (debit a amt (ledger s))"
    and "IsCoinMinDenomValid d \<Longrightarrow> d \<noteq> IrisAtto \<Longrightarrow> GetTotalSupply d s = Some \<lparr>Denom = d, Amount = n\<rparr> \<Longrightarrow>
      GetTotalSupply d t = Some \<lparr>Denom = d, Amount = n - bal amt d\<rparr>"
    and "bal (totalLoosenToken t) IrisAtto = bal (totalLoosenToken s) IrisAtto - bal amt IrisAtto"
proof -
  show "ledger t = credit (BurnedCoinsAccAddr E) amt (debit a amt (ledger s))"
    using bk.send_Ok [OF assms(2) ok [unfolded BurnCoins_def]] by simp
  obtain new s1 new1 where sub: "subtractCoins a amt s = Ok new s1"
    and add: "addCoins E (BurnedCoinsAccAddr E) amt s1 = Ok (new1, amt') t"
    using ok by (auto simp: BurnCoins_def sendCoins_def)
  from assms(2) sub have s1: "accounts_ok s1" "supply_of s1 = supply_of s"
    by (cases rule: subtractCoins_cases [of s a amt], simp_all)+
  obtain s2 u where s2: "supply_of s2 = supply_of s1" and loop: "for_each amt burn_coin s2 = Ok u t"
    and v: "Coins_IsValid amt"
    using addCoins_burned [OF add assms(3) s1(1)] by blast
  note vs = Coins_IsValid_sorted [OF v]
  show "bal (totalLoosenToken t) IrisAtto = bal (totalLoosenToken s) IrisAtto - bal amt IrisAtto"
    using burn_loop_loosen [OF loop vs(2)] s1(2) s2 by (simp add: supply_of_def)
  show "GetTotalSupply d t = Some \<lparr>Denom = d, Amount = n - bal amt d\<rparr>"
    if "IsCoinMinDenomValid d" "d \<noteq> IrisAtto" "GetTotalSupply d s = Some \<lparr>Denom = d, Amount = n\<rparr>"
    using burn_loop_supply [OF loop _ that(1,2)] that(3) vs s1(2) s2
    by (auto simp: nonneg_def supply_of_def GetTotalSupply_def)
qed

section \<open>Properties\<close>

text \<open>A small concrete chain state on which the properties are exercised.\<close>

definition demo_E :: externals where
  "demo_E = \<lparr>AddressHash = (\<lambda>b. CHR ''#'' # b), SHA256 = rev, RegexpCompile = (\<lambda>_. None)\<rparr>"

definition demo_account :: "AccAddress \<Rightarrow> Coins \<Rightarrow> BaseAccount" where
  "demo_account a cs = ProtoBaseAccount\<lparr>acc_Address := a, acc_Coins := cs\<rparr>"

definition demo_state :: auth_state where
  "demo_state =
     \<lparr>accounts = fmap_of_list
        [(''alice'', demo_account ''alice''
           [\<lparr>Denom = ''abc-min'', Amount = 10\<rparr>, \<lparr>Denom = ''xyz-min'', Amount = 7\<rparr>])],
      globalAccountNumber = Some 1, totalLoosenToken = [],
      totalSupply = fmap_of_list
        [(''totalSupply:i.xyz'', \<lparr>Denom = ''xyz-min'', Amount = 7\<rparr>)],
      burnedToken = None, collectedFees = [], feeAuth = None, authParams = DefaultAuthParams\<rparr>"

lemma demo_accounts_ok: "accounts_ok demo_state"
  by code_simp

lemma demo_total:
  "total_coins d demo_state = (if d = ''abc-min'' then 10 else 0) + (if d = ''xyz-min'' then 7 else 0)"
  by (simp add: total_coins_def demo_state_def fm_sum_upd demo_account_def)

lemma demo_in_range: "in_range (total_coins d demo_state)"
  by (simp add: demo_total in_range_def)

text \<open>C1: \<open>SendCoins\<close> refines the abstract ledger. On a well-formed account store it either
  moves exactly the given coins from sender to recipient, conserving every total and keeping the
  store well formed; or returns \<open>ErrInsufficientCoins\<close> with the store unchanged, and then the
  sender is short of some denomination; or panics, which outside a burn happens only for coins
  that are invalid or out of range or when a total leaves the range of \<open>Int\<close>.\<close>

theorem sendCoins_refines:
  assumes "accounts_ok s"
  shows "case sendCoins E a b amt s of
      Ok amt' t \<Rightarrow> accounts_ok t \<and> ledger t = credit b amt (debit a amt (ledger s)) \<and>
        (\<forall>d. total_coins d t = total_coins d s)
    | Err e t \<Rightarrow> e = ErrInsufficientCoins \<and> t = s \<and> (\<exists>d. balance a d s < bal amt d)
    | Panic \<Rightarrow> b = BurnedCoinsAccAddr E \<or>
        \<not> (Coins_IsValid amt \<and> ranged amt \<and> (\<forall>d. in_range (total_coins d s)))"
  using assms by (cases rule: sendCoins_cases [of s E a b amt]) auto

theorem sendCoins_refines_witness:
  "accounts_ok demo_state \<and>
   (case sendCoins demo_E ''alice'' ''bob'' [\<lparr>Denom = ''abc-min'', Amount = 4\<rparr>] demo_state of
      Ok amt' t \<Rightarrow> ledger t ''bob'' ''abc-min'' = 4 | _ \<Rightarrow> False)"
proof -
  let ?r = "sendCoins demo_E ''alice'' ''bob'' [\<lparr>Denom = ''abc-min'', Amount = 4\<rparr>] demo_state"
  have "case ?r of Ok _ _ \<Rightarrow> True | _ \<Rightarrow> False" by code_simp
  then obtain amt' t where r: "?r = Ok amt' t" by (auto split: outcome.splits)
  have "ledger demo_state ''bob'' ''abc-min'' = 0" by code_simp
  then show ?thesis
    using sendCoins_refines [OF demo_accounts_ok, where E = demo_E and a = "''alice''" and b = "''bob''"
        and amt = "[\<lparr>Denom = ''abc-min'', Amount = 4\<rparr>]"]
    by (simp add: r demo_accounts_ok credit_def debit_def)
qed

text \<open>C2: A multi-party send that passed \<open>ValidateBasic\<close> and lists no zero amounts conserves the
  total of every denomination and keeps the account store well formed; each input account is
  debited and each output account credited what the message says.\<close>

theorem send_msg_conserves:
  assumes "MsgSend_ValidateBasic msg = Some (Inr msg')"
    and "\<forall>i\<in>set (Inputs msg). no_zero (in_Coins i)" "\<forall>o'\<in>set (Outputs msg). no_zero (out_Coins o')"
    and "handleMsgSend E msg' s = Ok u t" "accounts_ok s" "\<And>d. in_range (total_coins d s)"
  shows "accounts_ok t \<and> (\<forall>d. total_coins d t = total_coins d s) \<and>
    ledger t = fold (\<lambda>o'. credit (out_Address o') (out_Coins o')) (Outputs msg)
      (fold (\<lambda>i. debit (in_Address i) (in_Coins i)) (Inputs msg) (ledger s))"
proof -
  note v = MsgSend_validated [OF assms(1-3)]
  have "inputOutputCoins E (Inputs msg) (Outputs msg) s = Ok u t"
    using assms(4) v(1) by (simp add: handleMsgSend_def)
  from inputOutputCoins_spec [OF this assms(5) v(3,2) assms(6)] show ?thesis by blast
qed

definition demo_send :: MsgSend where
  "demo_send =
     \<lparr>Inputs = [\<lparr>in_Address = ''alice'', in_Coins = [\<lparr>Denom = ''xyz-min'', Amount = 5\<rparr>]\<rparr>],
      Outputs = [\<lparr>out_Address = ''bob'', out_Coins = [\<lparr>Denom = ''xyz-min'', Amount = 2\<rparr>]\<rparr>,
                 \<lparr>out_Address = ''carol'', out_Coins = [\<lparr>Denom = ''xyz-min'', Amount = 3\<rparr>]\<rparr>]\<rparr>"

theorem send_msg_conserves_witness:
  "case handleMsgSend demo_E demo_send demo_state of
     Ok u t \<Rightarrow> total_coins ''xyz-min'' t = 7 | _ \<Rightarrow> False"
proof -
  have v: "MsgSend_ValidateBasic demo_send = Some (Inr demo_send)" by code_simp
  have z: "\<forall>i\<in>set (Inputs demo_send). no_zero (in_Coins i)"
      "\<forall>o'\<in>set (Outputs demo_send). no_zero (out_Coins o')" by code_simp+
  have "case handleMsgSend demo_E demo_send demo_state of Ok _ _ \<Rightarrow> True | _ \<Rightarrow> False" by code_simp
  then obtain u t where r: "handleMsgSend demo_E demo_send demo_state = Ok u t"
    by (auto split: outcome.splits)
  show ?thesis
    using send_msg_conserves [OF v z r demo_accounts_ok demo_in_range] by (simp add: r demo_total)
qed




text \<open>C5: \<open>MsgSend.ValidateBasic\<close> compacts the message's own slices. This message passes
  validation, and the handler then panics on it in every state.\<close>

theorem validated_send_panics:
  "\<exists>msg'. MsgSend_ValidateBasic
      \<lparr>Inputs = [\<lparr>in_Address = ''alice'',
          in_Coins = [\<lparr>Denom = ''abc-min'', Amount = 0\<rparr>, \<lparr>Denom = ''xyz-min'', Amount = 1\<rparr>]\<rparr>],
       Outputs = [\<lparr>out_Address = ''bob'', out_Coins = [\<lparr>Denom = ''xyz-min'', Amount = 1\<rparr>]\<rparr>]\<rparr> =
      Some (Inr msg') \<and> (\<forall>E (s :: auth_state). handleMsgSend E msg' s = Panic)"
proof -
  let ?bad = "[\<lparr>Denom = ''xyz-min'', Amount = 1\<rparr>, \<lparr>Denom = ''xyz-min'', Amount = 1\<rparr>]"
  let ?msg' = "\<lparr>Inputs = [\<lparr>in_Address = ''alice'', in_Coins = ?bad\<rparr>],
      Outputs = [\<lparr>out_Address = ''bob'', out_Coins = [\<lparr>Denom = ''xyz-min'', Amount = 1\<rparr>]\<rparr>]\<rparr>"
  have "MsgSend_ValidateBasic
      \<lparr>Inputs = [\<lparr>in_Address = ''alice'',
          in_Coins = [\<lparr>Denom = ''abc-min'', Amount = 0\<rparr>, \<lparr>Denom = ''xyz-min'', Amount = 1\<rparr>]\<rparr>],
       Outputs = [\<lparr>out_Address = ''bob'', out_Coins = [\<lparr>Denom = ''xyz-min'', Amount = 1\<rparr>]\<rparr>]\<rparr> =
      Some (Inr ?msg')" by code_simp
  moreover have "\<not> Coins_IsValid ?bad" by code_simp
  then have "handleMsgSend E ?msg' s = Panic" for E and s :: auth_state
    by (simp add: handleMsgSend_def inputOutputCoins_def take_input_def subtractCoins_def bind_op_def
        del: Coins_IsValid.simps)
  ultimately show ?thesis by blast
qed

end
