(* ===== verification/Htlc.thy ===== *)
theory Htlc
  imports Bank
begin

text \<open>
  Component: \<open>src/app/v2/htlc\<close>, hash time-locked contracts: keeper, keys, messages, handler,
  block begin and genesis.

  The keeper reaches the bank through the interface \<open>types.BankKeeper\<close>; here that is the
  argument \<open>bk\<close>, its \<open>SendCoins\<close>. The lemmas about contracts are proved in the locale
  \<open>bank_keeper\<close> for every bank with the laws stated there, and reach the bank of the
  repository through its interpretation.
\<close>

section \<open>Contracts\<close>

datatype HTLCState = OPEN | COMPLETED | EXPIRED | REFUNDED

record HTLC =
  h_Sender :: AccAddress
  h_To :: AccAddress
  h_ReceiverOnOtherChain :: string
  h_Amount :: Coins
  h_Secret :: bytes
  h_Timestamp :: uint64
  h_ExpireHeight :: uint64
  h_State :: HTLCState

definition NewHTLC ::
  "AccAddress \<Rightarrow> AccAddress \<Rightarrow> string \<Rightarrow> Coins \<Rightarrow> bytes \<Rightarrow> uint64 \<Rightarrow> uint64 \<Rightarrow> HTLCState \<Rightarrow> HTLC" where
  "NewHTLC sender to receiverOnOtherChain amount secret timestamp expireHeight state =
     \<lparr>h_Sender = sender, h_To = to, h_ReceiverOnOtherChain = receiverOnOtherChain,
      h_Amount = amount, h_Secret = secret, h_Timestamp = timestamp,
      h_ExpireHeight = expireHeight, h_State = state\<rparr>"

text \<open>The zero value that \<open>GetHTLC\<close> returns beside an error.\<close>

definition zero_HTLC :: HTLC where
  "zero_HTLC = NewHTLC '''' '''' '''' [] [] 0 0 OPEN"

definition HtlcCodespace :: string where
  "HtlcCodespace = ''htlc''"

definition ErrInvalidAddress_htlc :: sdk_error where
  "ErrInvalidAddress_htlc = SdkError HtlcCodespace 100"

definition ErrInvalidAmount :: sdk_error where
  "ErrInvalidAmount = SdkError HtlcCodespace 101"

definition ErrInvalidHashLock :: sdk_error where
  "ErrInvalidHashLock = SdkError HtlcCodespace 102"

definition ErrHashLockAlreadyExists :: sdk_error where
  "ErrHashLockAlreadyExists = SdkError HtlcCodespace 103"

definition ErrInvalidTimeLock :: sdk_error where
  "ErrInvalidTimeLock = SdkError HtlcCodespace 104"

definition ErrInvalidSecret :: sdk_error where
  "ErrInvalidSecret = SdkError HtlcCodespace 105"

definition ErrStateIsNotOpen :: sdk_error where
  "ErrStateIsNotOpen = SdkError HtlcCodespace 106"

definition ErrStateIsNotExpired :: sdk_error where
  "ErrStateIsNotExpired = SdkError HtlcCodespace 107"

section \<open>Store\<close>

text \<open>The store of the module: contracts by hash lock, and the expiration queue, a set of pairs
  of height and hash lock. The byte keys below encode both without collisions.\<close>

record htlc_state = auth_state +
  htlcs :: "(bytes, HTLC) fmap"
  expireQueue :: "(uint64 \<times> bytes) fset"

definition PrefixHTLC :: bytes where
  "PrefixHTLC = ''htlcs:''"

definition PrefixHTLCExpireQueue :: bytes where
  "PrefixHTLCExpireQueue = ''htlcExpireQueue:''"

definition KeyHTLC :: "bytes \<Rightarrow> bytes" where
  "KeyHTLC hashLock = PrefixHTLC @ hashLock"

definition KeyHTLCExpireQueue :: "uint64 \<Rightarrow> bytes \<Rightarrow> bytes" where
  "KeyHTLCExpireQueue expireHeight hashLock =
     PrefixHTLCExpireQueue @ Uint64ToBigEndian expireHeight @ '':'' @ hashLock"

definition KeyHTLCExpireQueueSubspace :: "uint64 \<Rightarrow> bytes" where
  "KeyHTLCExpireQueueSubspace expireHeight =
     PrefixHTLCExpireQueue @ Uint64ToBigEndian expireHeight @ '':''"

definition HasHashLock :: "bytes \<Rightarrow> 'z htlc_state_scheme \<Rightarrow> bool" where
  "HasHashLock hashLock s = (fmlookup (htlcs s) hashLock \<noteq> None)"

definition SetHTLC :: "HTLC \<Rightarrow> bytes \<Rightarrow> ('z htlc_state_scheme, unit) op" where
  "SetHTLC htlc hashLock = modify (\<lambda>s. s\<lparr>htlcs := fmupd hashLock htlc (htlcs s)\<rparr>)"

definition GetHTLC :: "bytes \<Rightarrow> 'z htlc_state_scheme \<Rightarrow> sdk_error + HTLC" where
  "GetHTLC hashLock s =
     (case fmlookup (htlcs s) hashLock of None \<Rightarrow> Inl ErrInvalidHashLock | Some htlc \<Rightarrow> Inr htlc)"

definition AddHTLCToExpireQueue :: "uint64 \<Rightarrow> bytes \<Rightarrow> ('z htlc_state_scheme, unit) op" where
  "AddHTLCToExpireQueue expireHeight hashLock =
     modify (\<lambda>s. s\<lparr>expireQueue := finsert (expireHeight, hashLock) (expireQueue s)\<rparr>)"

definition DeleteHTLCFromExpireQueue :: "uint64 \<Rightarrow> bytes \<Rightarrow> ('z htlc_state_scheme, unit) op" where
  "DeleteHTLCFromExpireQueue expireHeight hashLock =
     modify (\<lambda>s. s\<lparr>expireQueue := expireQueue s |-| {|(expireHeight, hashLock)|}\<rparr>)"

definition GetHashLock :: "'e externals_scheme \<Rightarrow> bytes \<Rightarrow> uint64 \<Rightarrow> bytes" where
  "GetHashLock E secret timestamp =
     (if timestamp > 0 then SHA256 E (secret @ Uint64ToBigEndian timestamp) else SHA256 E secret)"

definition HTLC_GetHashLock :: "'e externals_scheme \<Rightarrow> HTLC \<Rightarrow> bytes option" where
  "HTLC_GetHashLock E h =
     (if h_State h = COMPLETED then
        (if h_Timestamp h > 0 then Some (SHA256 E (h_Secret h @ Uint64ToBigEndian (h_Timestamp h)))
         else Some (SHA256 E (h_Secret h)))
      else None)"

text \<open>\<open>IterateHTLCs\<close> recovers the hash lock as the second part of the key split at the
  delimiter.\<close>

definition IterateHTLCs :: "'z htlc_state_scheme \<Rightarrow> (bytes \<times> HTLC) list" where
  "IterateHTLCs s =
     map (\<lambda>(hashLock, htlc). (Split (KeyHTLC hashLock) (CHR '':'') ! 1, htlc))
       (sorted_list_of_fmap (htlcs s))"

definition IterateHTLCExpireQueueByHeight :: "uint64 \<Rightarrow> 'z htlc_state_scheme \<Rightarrow> bytes list" where
  "IterateHTLCExpireQueueByHeight height s =
     sorted_list_of_fset (snd |`| ffilter (\<lambda>(e, _). e = height) (expireQueue s))"

section \<open>The keeper\<close>

definition CreateHTLC ::
  "'e externals_scheme \<Rightarrow> (AccAddress \<Rightarrow> AccAddress \<Rightarrow> Coins \<Rightarrow> ('z htlc_state_scheme, Coins) op) \<Rightarrow>
   HTLC \<Rightarrow> bytes \<Rightarrow> ('z htlc_state_scheme, unit) op" where
  "CreateHTLC E bk htlc hashLock =
     bind_op (gets (HasHashLock hashLock)) (\<lambda>exists.
     if exists then fail ErrHashLockAlreadyExists
     else
       bind_op (bk (h_Sender htlc) (HTLCLockedCoinsAccAddr E) (h_Amount htlc)) (\<lambda>amount.
       bind_op (SetHTLC (htlc\<lparr>h_Amount := amount\<rparr>) hashLock) (\<lambda>_.
       AddHTLCToExpireQueue (h_ExpireHeight htlc) hashLock)))"

definition ClaimHTLC ::
  "'e externals_scheme \<Rightarrow> (AccAddress \<Rightarrow> AccAddress \<Rightarrow> Coins \<Rightarrow> ('z htlc_state_scheme, Coins) op) \<Rightarrow>
   bytes \<Rightarrow> bytes \<Rightarrow> ('z htlc_state_scheme, unit) op" where
  "ClaimHTLC E bk hashLock secret =
     bind_op (gets (GetHTLC hashLock)) (\<lambda>r.
     bind_op (lift_res r) (\<lambda>htlc.
     if h_State htlc \<noteq> OPEN then fail ErrStateIsNotOpen
     else if GetHashLock E secret (h_Timestamp htlc) \<noteq> hashLock then fail ErrInvalidSecret
     else
       bind_op (bk (HTLCLockedCoinsAccAddr E) (h_To htlc) (h_Amount htlc)) (\<lambda>amount.
       bind_op (SetHTLC (htlc\<lparr>h_Amount := amount, h_Secret := secret, h_State := COMPLETED\<rparr>) hashLock) (\<lambda>_.
       DeleteHTLCFromExpireQueue (h_ExpireHeight htlc) hashLock))))"

definition RefundHTLC ::
  "'e externals_scheme \<Rightarrow> (AccAddress \<Rightarrow> AccAddress \<Rightarrow> Coins \<Rightarrow> ('z htlc_state_scheme, Coins) op) \<Rightarrow>
   bytes \<Rightarrow> ('z htlc_state_scheme, unit) op" where
  "RefundHTLC E bk hashLock =
     bind_op (gets (GetHTLC hashLock)) (\<lambda>r.
     bind_op (lift_res r) (\<lambda>htlc.
     if h_State htlc \<noteq> EXPIRED then fail ErrStateIsNotOpen
     else
       bind_op (bk (HTLCLockedCoinsAccAddr E) (h_Sender htlc) (h_Amount htlc)) (\<lambda>amount.
       SetHTLC (htlc\<lparr>h_Amount := amount, h_State := REFUNDED\<rparr>) hashLock)))"

section \<open>Messages and handler\<close>

definition SecretLength :: nat where
  "SecretLength = 32"

definition HashLockLength :: nat where
  "HashLockLength = 32"

definition MaxLengthForAddressOnOtherChain :: nat where
  "MaxLengthForAddressOnOtherChain = 128"

definition MinTimeLock :: uint64 where
  "MinTimeLock = 50"

definition MaxTimeLock :: uint64 where
  "MaxTimeLock = 25480"

record MsgCreateHTLC =
  create_Sender :: AccAddress
  create_To :: AccAddress
  create_ReceiverOnOtherChain :: string
  create_Amount :: Coins
  create_HashLock :: bytes
  create_Timestamp :: uint64
  create_TimeLock :: uint64

record MsgClaimHTLC =
  claim_Sender :: AccAddress
  claim_HashLock :: bytes
  claim_Secret :: bytes

record MsgRefundHTLC =
  refund_Sender :: AccAddress
  refund_HashLock :: bytes

definition MsgCreateHTLC_ValidateBasic :: "MsgCreateHTLC \<Rightarrow> sdk_error + unit" where
  "MsgCreateHTLC_ValidateBasic msg =
     (if length (create_Sender msg) = 0 then Inl ErrInvalidAddress_htlc
      else if length (create_To msg) = 0 then Inl ErrInvalidAddress_htlc
      else if length (create_ReceiverOnOtherChain msg) > MaxLengthForAddressOnOtherChain
        then Inl ErrInvalidAddress_htlc
      else if \<not> Coins_IsValid (create_Amount msg) \<or> \<not> IsAllPositive (create_Amount msg)
        then Inl ErrInvalidAmount
      else if length (create_HashLock msg) \<noteq> HashLockLength then Inl ErrInvalidHashLock
      else if create_TimeLock msg < MinTimeLock \<or> create_TimeLock msg > MaxTimeLock
        then Inl ErrInvalidTimeLock
      else Inr ())"

definition MsgClaimHTLC_ValidateBasic :: "MsgClaimHTLC \<Rightarrow> sdk_error + unit" where
  "MsgClaimHTLC_ValidateBasic msg =
     (if length (claim_Sender msg) = 0 then Inl ErrInvalidAddress_htlc
      else if length (claim_HashLock msg) \<noteq> HashLockLength then Inl ErrInvalidHashLock
      else if length (claim_Secret msg) \<noteq> SecretLength then Inl ErrInvalidSecret
      else Inr ())"

definition MsgRefundHTLC_ValidateBasic :: "MsgRefundHTLC \<Rightarrow> sdk_error + unit" where
  "MsgRefundHTLC_ValidateBasic msg =
     (if length (refund_Sender msg) = 0 then Inl ErrInvalidAddress_htlc
      else if length (refund_HashLock msg) \<noteq> HashLockLength then Inl ErrInvalidHashLock
      else Inr ())"

text \<open>\<open>height\<close> is \<open>uint64(ctx.BlockHeight())\<close>.\<close>

definition handleMsgCreateHTLC ::
  "'e externals_scheme \<Rightarrow> (AccAddress \<Rightarrow> AccAddress \<Rightarrow> Coins \<Rightarrow> ('z htlc_state_scheme, Coins) op) \<Rightarrow>
   uint64 \<Rightarrow> MsgCreateHTLC \<Rightarrow> ('z htlc_state_scheme, unit) op" where
  "handleMsgCreateHTLC E bk height msg =
     (let expireHeight = create_TimeLock msg + height;
          htlc = NewHTLC (create_Sender msg) (create_To msg) (create_ReceiverOnOtherChain msg)
            (create_Amount msg) [] (create_Timestamp msg) expireHeight OPEN
      in CreateHTLC E bk htlc (create_HashLock msg))"

definition handleMsgClaimHTLC ::
  "'e externals_scheme \<Rightarrow> (AccAddress \<Rightarrow> AccAddress \<Rightarrow> Coins \<Rightarrow> ('z htlc_state_scheme, Coins) op) \<Rightarrow>
   MsgClaimHTLC \<Rightarrow> ('z htlc_state_scheme, unit) op" where
  "handleMsgClaimHTLC E bk msg = ClaimHTLC E bk (claim_HashLock msg) (claim_Secret msg)"

definition handleMsgRefundHTLC ::
  "'e externals_scheme \<Rightarrow> (AccAddress \<Rightarrow> AccAddress \<Rightarrow> Coins \<Rightarrow> ('z htlc_state_scheme, Coins) op) \<Rightarrow>
   MsgRefundHTLC \<Rightarrow> ('z htlc_state_scheme, unit) op" where
  "handleMsgRefundHTLC E bk msg = RefundHTLC E bk (refund_HashLock msg)"

datatype HtlcMsg = HtlcCreate MsgCreateHTLC | HtlcClaim MsgClaimHTLC | HtlcRefund MsgRefundHTLC

definition HtlcMsg_ValidateBasic :: "HtlcMsg \<Rightarrow> sdk_error + unit" where
  "HtlcMsg_ValidateBasic msg =
     (case msg of HtlcCreate m \<Rightarrow> MsgCreateHTLC_ValidateBasic m
      | HtlcClaim m \<Rightarrow> MsgClaimHTLC_ValidateBasic m
      | HtlcRefund m \<Rightarrow> MsgRefundHTLC_ValidateBasic m)"

definition HtlcMsg_signer :: "HtlcMsg \<Rightarrow> AccAddress" where
  "HtlcMsg_signer msg =
     (case msg of HtlcCreate m \<Rightarrow> create_Sender m | HtlcClaim m \<Rightarrow> claim_Sender m
      | HtlcRefund m \<Rightarrow> refund_Sender m)"

definition HtlcHandler ::
  "'e externals_scheme \<Rightarrow> (AccAddress \<Rightarrow> AccAddress \<Rightarrow> Coins \<Rightarrow> ('z htlc_state_scheme, Coins) op) \<Rightarrow>
   uint64 \<Rightarrow> HtlcMsg \<Rightarrow> ('z htlc_state_scheme, unit) op" where
  "HtlcHandler E bk height msg =
     (case msg of HtlcCreate m \<Rightarrow> handleMsgCreateHTLC E bk height m
      | HtlcClaim m \<Rightarrow> handleMsgClaimHTLC E bk m
      | HtlcRefund m \<Rightarrow> handleMsgRefundHTLC E bk m)"

section \<open>Block begin and genesis\<close>

definition expire_htlc :: "uint64 \<Rightarrow> bytes \<Rightarrow> ('z htlc_state_scheme, unit) op" where
  "expire_htlc height hashLock =
     bind_op (gets (GetHTLC hashLock)) (\<lambda>r.
     let htlc = (case r of Inl _ \<Rightarrow> zero_HTLC | Inr htlc \<Rightarrow> htlc) in
     bind_op (SetHTLC (htlc\<lparr>h_State := EXPIRED\<rparr>) hashLock) (\<lambda>_.
     DeleteHTLCFromExpireQueue height hashLock))"

definition HtlcBeginBlocker :: "uint64 \<Rightarrow> ('z htlc_state_scheme, unit) op" where
  "HtlcBeginBlocker height =
     bind_op (gets (IterateHTLCExpireQueueByHeight height)) (\<lambda>hashLocks.
     for_each hashLocks (expire_htlc height))"

definition init_htlc :: "string \<times> HTLC \<Rightarrow> ('z htlc_state_scheme, unit) op" where
  "init_htlc = (\<lambda>(hashLockHex, htlc).
     bind_op (lift_go (DecodeString hashLockHex)) (\<lambda>hashLock.
     bind_op (SetHTLC htlc hashLock) (\<lambda>_.
     AddHTLCToExpireQueue (h_ExpireHeight htlc) hashLock)))"

definition HtlcInitGenesis :: "(string, HTLC) fmap \<Rightarrow> ('z htlc_state_scheme, unit) op" where
  "HtlcInitGenesis pendingHTLCs = for_each (sorted_list_of_fmap pendingHTLCs) init_htlc"

text \<open>\<open>ExportGenesis\<close> collects the open contracts, with heights relative to the exported block,
  and refunds the expired ones; a failing refund panics.\<close>

fun export_htlcs ::
  "'e externals_scheme \<Rightarrow> (AccAddress \<Rightarrow> AccAddress \<Rightarrow> Coins \<Rightarrow> ('z htlc_state_scheme, Coins) op) \<Rightarrow>
   uint64 \<Rightarrow> (bytes \<times> HTLC) list \<Rightarrow> (string, HTLC) fmap \<Rightarrow> ('z htlc_state_scheme, (string, HTLC) fmap) op" where
  "export_htlcs E bk height [] pending = ret pending"
| "export_htlcs E bk height ((hlock, h) # rest) pending =
     (if h_State h = OPEN then
        export_htlcs E bk height rest
          (fmupd (EncodeToString hlock) (h\<lparr>h_ExpireHeight := h_ExpireHeight h - height + 1\<rparr>) pending)
      else if h_State h = EXPIRED then
        (\<lambda>s. case RefundHTLC E bk hlock s of
           Ok _ t \<Rightarrow> export_htlcs E bk height rest pending t
         | Err _ _ \<Rightarrow> Panic
         | Panic \<Rightarrow> Panic)
      else export_htlcs E bk height rest pending)"

definition HtlcExportGenesis ::
  "'e externals_scheme \<Rightarrow> (AccAddress \<Rightarrow> AccAddress \<Rightarrow> Coins \<Rightarrow> ('z htlc_state_scheme, Coins) op) \<Rightarrow>
   uint64 \<Rightarrow> ('z htlc_state_scheme, (string, HTLC) fmap) op" where
  "HtlcExportGenesis E bk height =
     bind_op (gets IterateHTLCs) (\<lambda>all. export_htlcs E bk height all fmempty)"

section \<open>Key encoding\<close>

lemma htlc_keys_distinct:
  "KeyHTLC a = KeyHTLC b \<longleftrightarrow> a = b"
  "KeyHTLC a \<noteq> KeyHTLCExpireQueue e b"
  "KeyHTLCExpireQueue e a = KeyHTLCExpireQueue f b \<longleftrightarrow> e = f \<and> a = b"
  by (auto simp: KeyHTLC_def KeyHTLCExpireQueue_def PrefixHTLC_def PrefixHTLCExpireQueue_def
      Uint64ToBigEndian_inj)

text \<open>The prefix iteration of one height meets exactly that height's entries.\<close>

lemma queue_subspace:
  "prefix (KeyHTLCExpireQueueSubspace e) (KeyHTLCExpireQueue f a) \<longleftrightarrow> e = f"
proof -
  have "prefix (Uint64ToBigEndian e @ '':'') (Uint64ToBigEndian f @ '':'' @ a) \<longleftrightarrow> e = f"
    using Uint64ToBigEndian_inj [of e f] by (auto simp: prefix_def)
  then show ?thesis by (simp add: KeyHTLCExpireQueueSubspace_def KeyHTLCExpireQueue_def)
qed

section \<open>The invariant of the contract store\<close>

definition pending :: "HTLC \<Rightarrow> bool" where
  "pending h \<longleftrightarrow> h_State h = OPEN \<or> h_State h = EXPIRED"

text \<open>The coins owed to the parties of contracts that are neither claimed nor refunded.\<close>

definition locked_total :: "string \<Rightarrow> 'z htlc_state_scheme \<Rightarrow> int" where
  "locked_total d s = fm_sum (\<lambda>h. if pending h then bal (h_Amount h) d else 0) (htlcs s)"

definition amount_ok :: "Coins \<Rightarrow> bool" where
  "amount_ok amt \<longleftrightarrow> Coins_IsValid amt \<and> no_zero amt \<and> ranged amt"

definition contract_ok :: "'e externals_scheme \<Rightarrow> nat \<Rightarrow> bytes \<Rightarrow> HTLC \<Rightarrow> bool" where
  "contract_ok E H hl h \<longleftrightarrow>
     amount_ok (h_Amount h) \<and>
     (h_State h = OPEN \<longrightarrow> H < unat (h_ExpireHeight h)) \<and>
     (h_State h = COMPLETED \<longrightarrow> GetHashLock E (h_Secret h) (h_Timestamp h) = hl)"

definition contracts_ok :: "'e externals_scheme \<Rightarrow> nat \<Rightarrow> 'z htlc_state_scheme \<Rightarrow> bool" where
  "contracts_ok E H s \<longleftrightarrow> (\<forall>hl h. fmlookup (htlcs s) hl = Some h \<longrightarrow> contract_ok E H hl h)"

text \<open>The queue holds the open contracts, each under its expiration height, and nothing else.\<close>

definition queue_ok :: "'z htlc_state_scheme \<Rightarrow> bool" where
  "queue_ok s \<longleftrightarrow> (\<forall>e hl. (e, hl) |\<in>| expireQueue s \<longleftrightarrow>
     (\<exists>h. fmlookup (htlcs s) hl = Some h \<and> h_State h = OPEN \<and> h_ExpireHeight h = e))"

lemma locked_total_upd:
  "locked_total d (s\<lparr>htlcs := fmupd hl h (htlcs s)\<rparr>) =
     locked_total d s + (if pending h then bal (h_Amount h) d else 0) -
     (case fmlookup (htlcs s) hl of None \<Rightarrow> 0 | Some g \<Rightarrow> if pending g then bal (h_Amount g) d else 0)"
  by (simp add: locked_total_def fm_sum_upd)

lemma locked_total_frame [simp]: "locked_total d (s\<lparr>expireQueue := q\<rparr>) = locked_total d s"
  by (simp add: locked_total_def)

lemma amount_ok_nonneg: "amount_ok amt \<Longrightarrow> 0 \<le> bal amt d"
  using operand_valid cs.operand_nonneg by (auto simp: amount_ok_def)

lemma locked_total_ge:
  assumes "contracts_ok E H s" "fmlookup (htlcs s) hl = Some h" "pending h"
  shows "bal (h_Amount h) d \<le> locked_total d s"
proof -
  have "(\<lambda>h. if pending h then bal (h_Amount h) d else 0) h \<le> locked_total d s"
    unfolding locked_total_def using assms(1,2)
    by (intro fm_sum_ge) (auto simp: contracts_ok_def contract_ok_def amount_ok_nonneg)
  with assms(3) show ?thesis by simp
qed

lemma contracts_ok_upd:
  "contracts_ok E H s \<Longrightarrow> contract_ok E H hl h \<Longrightarrow> contracts_ok E H (s\<lparr>htlcs := fmupd hl h (htlcs s)\<rparr>)"
  by (auto simp: contracts_ok_def)

lemma contracts_ok_frame [simp]: "contracts_ok E H (s\<lparr>expireQueue := q\<rparr>) = contracts_ok E H s"
  by (simp add: contracts_ok_def)

text \<open>Opening puts a fresh contract under its hash lock and into the queue.\<close>

lemma queue_ok_open:
  assumes "queue_ok s" "fmlookup (htlcs s) hl = None" "h_State h = OPEN"
  shows "queue_ok (s\<lparr>htlcs := fmupd hl h (htlcs s),
    expireQueue := finsert (h_ExpireHeight h, hl) (expireQueue s)\<rparr>)"
  using assms unfolding queue_ok_def by auto

text \<open>Closing an open contract takes it out of the queue.\<close>

lemma queue_ok_close:
  assumes "queue_ok s" "fmlookup (htlcs s) hl = Some g" "h_State g = OPEN" "h_State h \<noteq> OPEN"
  shows "queue_ok (s\<lparr>htlcs := fmupd hl h (htlcs s),
    expireQueue := expireQueue s |-| {|(h_ExpireHeight g, hl)|}\<rparr>)"
  using assms unfolding queue_ok_def by auto

lemma queue_ok_idle:
  assumes "queue_ok s" "fmlookup (htlcs s) hl = Some g" "h_State g \<noteq> OPEN" "h_State h \<noteq> OPEN"
  shows "queue_ok (s\<lparr>htlcs := fmupd hl h (htlcs s)\<rparr>)"
  using assms unfolding queue_ok_def by auto

text \<open>The locked account covers every pending contract.\<close>

definition covered :: "'e externals_scheme \<Rightarrow> ledger \<Rightarrow> 'z htlc_state_scheme \<Rightarrow> bool" where
  "covered E L s \<longleftrightarrow> (\<forall>d. locked_total d s \<le> L (HTLCLockedCoinsAccAddr E) d)"

section \<open>Contracts over any bank keeper\<close>

text \<open>A bank keeper whose state carries the contract store: the two stores do not interfere.\<close>

locale htlc_bank =
  bank_keeper SendCoins funds wf own roomy sink
  for SendCoins :: "AccAddress \<Rightarrow> AccAddress \<Rightarrow> Coins \<Rightarrow> ('z htlc_state_scheme, Coins) op"
    and funds :: "'z htlc_state_scheme \<Rightarrow> ledger"
    and wf :: "'z htlc_state_scheme \<Rightarrow> bool"
    and own :: "'z htlc_state_scheme \<Rightarrow> 'r"
    and roomy :: "'z htlc_state_scheme \<Rightarrow> bool"
    and sink :: AccAddress +
  assumes own_store: "own t = own s \<Longrightarrow> htlcs t = htlcs s \<and> expireQueue t = expireQueue s"
    and store_frame: "funds (s\<lparr>htlcs := m\<rparr>) = funds s" "funds (s\<lparr>expireQueue := q\<rparr>) = funds s"
      "wf (s\<lparr>htlcs := m\<rparr>) = wf s" "wf (s\<lparr>expireQueue := q\<rparr>) = wf s"
      "roomy (s\<lparr>htlcs := m\<rparr>) = roomy s" "roomy (s\<lparr>expireQueue := q\<rparr>) = roomy s"
begin

lemma send_store:
  assumes "wf s" "SendCoins a b amt s = Ok amt' t"
  shows "htlcs t = htlcs s" "expireQueue t = expireQueue s" "wf t"
    "funds t = credit b amt (debit a amt (funds s))" "no_zero amt \<Longrightarrow> amt' = amt"
    "Coins_IsValid amt" "ranged amt" "roomy t = roomy s"
  using send_Ok [OF assms] own_store [of t s] by simp_all

lemma store_only:
  assumes "htlcs t = htlcs s" "expireQueue t = expireQueue s"
  shows "locked_total d t = locked_total d s" "contracts_ok E H t = contracts_ok E H s"
    "queue_ok t = queue_ok s"
  using assms by (simp_all add: locked_total_def contracts_ok_def queue_ok_def)

text \<open>Creating a contract moves its amount into the locked account.\<close>

lemma create_spec:
  assumes "CreateHTLC E SendCoins h hl s = Ok u t" "wf s" "no_zero (h_Amount h)"
  obtains s1 where "fmlookup (htlcs s) hl = None"
    "SendCoins (h_Sender h) (HTLCLockedCoinsAccAddr E) (h_Amount h) s = Ok (h_Amount h) s1"
    "t = s1\<lparr>htlcs := fmupd hl h (htlcs s1),
       expireQueue := finsert (h_ExpireHeight h, hl) (expireQueue s1)\<rparr>"
proof -
  obtain amt s1 where 1: "fmlookup (htlcs s) hl = None"
    and send: "SendCoins (h_Sender h) (HTLCLockedCoinsAccAddr E) (h_Amount h) s = Ok amt s1"
    and t: "t = s1\<lparr>htlcs := fmupd hl (h\<lparr>h_Amount := amt\<rparr>) (htlcs s1),
       expireQueue := finsert (h_ExpireHeight h, hl) (expireQueue s1)\<rparr>"
    using assms(1)
    by (auto simp: CreateHTLC_def HasHashLock_def SetHTLC_def AddHTLCToExpireQueue_def split: if_splits)
  have "amt = h_Amount h" using send_store(5) [OF assms(2) send assms(3)] .
  with 1 send t show thesis using that by simp
qed

lemma create_keeps:
  assumes "CreateHTLC E SendCoins h hl s = Ok u t" "wf s" "contracts_ok E H s" "queue_ok s"
    and "covered E (funds s) s"
    and h: "no_zero (h_Amount h)" "h_State h = OPEN" "H < unat (h_ExpireHeight h)"
    and "h_Sender h \<noteq> HTLCLockedCoinsAccAddr E"
  shows "wf t \<and> contracts_ok E H t \<and> queue_ok t \<and> covered E (funds t) t \<and> (roomy t = roomy s)"
proof -
  obtain s1 where s1: "fmlookup (htlcs s) hl = None"
    "SendCoins (h_Sender h) (HTLCLockedCoinsAccAddr E) (h_Amount h) s = Ok (h_Amount h) s1"
    and t: "t = s1\<lparr>htlcs := fmupd hl h (htlcs s1), expireQueue := finsert (h_ExpireHeight h, hl) (expireQueue s1)\<rparr>"
    using create_spec [OF assms(1,2) h(1)] by blast
  note st = send_store [OF assms(2) s1(2)] and same = store_only [OF st(1,2)]
  have c: "contract_ok E H hl h" using h st(6,7) by (simp add: contract_ok_def amount_ok_def)
  have "queue_ok t"
    unfolding t using same(3) assms(4) s1(1) st(1) h(2) queue_ok_open [of s1 hl h] by simp
  moreover have "contracts_ok E H t"
    unfolding t using same(2) [of E H] assms(3) c contracts_ok_upd [of E H s1 hl h] by simp
  moreover have "covered E (funds t) t"
    using assms(5,9) st(1,4) h(2) s1(1)
    by (simp add: t covered_def store_frame locked_total_def fm_sum_upd pending_def credit_def debit_def)
  ultimately show ?thesis using st(3,8) by (simp add: t store_frame)
qed

text \<open>A claim or a refund pays a pending contract out of the locked account, once.\<close>

lemma pay_out:
  assumes "SendCoins (HTLCLockedCoinsAccAddr E) b (h_Amount g) s = Ok amt s1" "wf s" "contracts_ok E H s"
    and "covered E (funds s) s" "fmlookup (htlcs s) hl = Some g" "pending g"
    and "h_Amount h = amt" "\<not> pending h" "contract_ok E H hl (h\<lparr>h_Amount := h_Amount g\<rparr>)"
  shows "wf s1" "htlcs s1 = htlcs s" "expireQueue s1 = expireQueue s" "roomy s1 = roomy s" "amt = h_Amount g"
    "contracts_ok E H (s1\<lparr>htlcs := fmupd hl h (htlcs s1)\<rparr>)"
    "covered E (funds s1) (s1\<lparr>htlcs := fmupd hl h (htlcs s1)\<rparr>)"
proof -
  have "no_zero (h_Amount g)"
    using assms(3,5) by (auto simp: contracts_ok_def contract_ok_def amount_ok_def)
  note st = send_store [OF assms(2,1)] and amt = send_store(5) [OF assms(2,1) this]
  then show "wf s1" "htlcs s1 = htlcs s" "expireQueue s1 = expireQueue s" "roomy s1 = roomy s" "amt = h_Amount g"
    by simp_all
  note same = store_only [OF st(1,2)]
  have "contract_ok E H hl h" using assms(7,9) amt by (simp add: contract_ok_def)
  then show "contracts_ok E H (s1\<lparr>htlcs := fmupd hl h (htlcs s1)\<rparr>)"
    using same(2) [of E H] assms(3) contracts_ok_upd [of E H s1 hl h] by simp
  have pos: "0 \<le> bal (h_Amount g) d" for d
    using assms(3,5) by (auto simp: contracts_ok_def contract_ok_def amount_ok_nonneg)
  show "covered E (funds s1) (s1\<lparr>htlcs := fmupd hl h (htlcs s1)\<rparr>)"
    unfolding covered_def
  proof
    fix d
    have "funds s (HTLCLockedCoinsAccAddr E) d - bal (h_Amount g) d \<le> funds s1 (HTLCLockedCoinsAccAddr E) d"
      using st(4) pos [of d] by (simp add: credit_def debit_def)
    moreover have "locked_total d s \<le> funds s (HTLCLockedCoinsAccAddr E) d"
      using assms(4) by (simp add: covered_def)
    ultimately show "locked_total d (s1\<lparr>htlcs := fmupd hl h (htlcs s1)\<rparr>) \<le> funds s1 (HTLCLockedCoinsAccAddr E) d"
      using assms(5,6,8) st(1) by (simp add: locked_total_def fm_sum_upd)
  qed
qed

lemma claim_spec:
  assumes "ClaimHTLC E SendCoins hl secret s = Ok u t"
  obtains g amt s1 where "fmlookup (htlcs s) hl = Some g" "h_State g = OPEN"
    "GetHashLock E secret (h_Timestamp g) = hl"
    "SendCoins (HTLCLockedCoinsAccAddr E) (h_To g) (h_Amount g) s = Ok amt s1"
    "t = s1\<lparr>htlcs := fmupd hl (g\<lparr>h_Amount := amt, h_Secret := secret, h_State := COMPLETED\<rparr>) (htlcs s1),
       expireQueue := expireQueue s1 |-| {|(h_ExpireHeight g, hl)|}\<rparr>"
  using assms
  by (auto simp: ClaimHTLC_def GetHTLC_def SetHTLC_def DeleteHTLCFromExpireQueue_def
      split: if_splits option.splits)

lemma refund_spec:
  assumes "RefundHTLC E SendCoins hl s = Ok u t"
  obtains g amt s1 where "fmlookup (htlcs s) hl = Some g" "h_State g = EXPIRED"
    "SendCoins (HTLCLockedCoinsAccAddr E) (h_Sender g) (h_Amount g) s = Ok amt s1"
    "t = s1\<lparr>htlcs := fmupd hl (g\<lparr>h_Amount := amt, h_State := REFUNDED\<rparr>) (htlcs s1)\<rparr>"
  using assms by (auto simp: RefundHTLC_def GetHTLC_def SetHTLC_def split: if_splits option.splits)

lemma claim_keeps:
  assumes "ClaimHTLC E SendCoins hl secret s = Ok u t" "wf s" "contracts_ok E H s" "queue_ok s"
    and "covered E (funds s) s"
  shows "wf t \<and> contracts_ok E H t \<and> queue_ok t \<and> covered E (funds t) t \<and> (roomy t = roomy s)"
  using assms(1)
proof (rule claim_spec)
  fix g :: HTLC and amt s1
  let ?h = "g\<lparr>h_Amount := amt, h_Secret := secret, h_State := COMPLETED\<rparr>"
  assume g: "fmlookup (htlcs s) hl = Some g" "h_State g = OPEN" "GetHashLock E secret (h_Timestamp g) = hl"
    and send: "SendCoins (HTLCLockedCoinsAccAddr E) (h_To g) (h_Amount g) s = Ok amt s1"
    and t: "t = s1\<lparr>htlcs := fmupd hl ?h (htlcs s1), expireQueue := expireQueue s1 |-| {|(h_ExpireHeight g, hl)|}\<rparr>"
  have "contract_ok E H hl (?h\<lparr>h_Amount := h_Amount g\<rparr>)"
    using assms(3) g by (auto simp: contracts_ok_def contract_ok_def)
  note p = pay_out [OF send assms(2,3,5) g(1), of ?h, simplified pending_def g(2), simplified, OF this [simplified]]
  have "queue_ok t"
    unfolding t using queue_ok_close [of s1 hl g ?h] store_only(3) [OF p(2,3)] assms(4) p(2) g by simp
  then show ?thesis using p by (simp add: t store_frame covered_def)
qed

lemma refund_keeps:
  assumes "RefundHTLC E SendCoins hl s = Ok u t" "wf s" "contracts_ok E H s" "queue_ok s"
    and "covered E (funds s) s"
  shows "wf t \<and> contracts_ok E H t \<and> queue_ok t \<and> covered E (funds t) t \<and> (roomy t = roomy s)"
  using assms(1)
proof (rule refund_spec)
  fix g :: HTLC and amt s1
  let ?h = "g\<lparr>h_Amount := amt, h_State := REFUNDED\<rparr>"
  assume g: "fmlookup (htlcs s) hl = Some g" "h_State g = EXPIRED"
    and send: "SendCoins (HTLCLockedCoinsAccAddr E) (h_Sender g) (h_Amount g) s = Ok amt s1"
    and t: "t = s1\<lparr>htlcs := fmupd hl ?h (htlcs s1)\<rparr>"
  have "contract_ok E H hl (?h\<lparr>h_Amount := h_Amount g\<rparr>)"
    using assms(3) g by (auto simp: contracts_ok_def contract_ok_def)
  note p = pay_out [OF send assms(2,3,5) g(1), of ?h, simplified pending_def g(2), simplified, OF this [simplified]]
  have "queue_ok t"
    unfolding t using queue_ok_idle [of s1 hl g ?h] store_only(3) [OF p(2,3)] assms(4) p(2) g by simp
  then show ?thesis using p by (simp add: t store_frame covered_def)
qed

text \<open>Expiring contracts moves no coins.\<close>

lemma expire_keeps:
  assumes "expire_htlc e hl s = Ok u t" "wf s" "contracts_ok E H s" "queue_ok s" "covered E (funds s) s"
    and "(e, hl) |\<in>| expireQueue s"
  shows "wf t \<and> contracts_ok E H t \<and> queue_ok t \<and> covered E (funds t) t \<and> (roomy t = roomy s) \<and>
    funds t = funds s \<and> expireQueue t = expireQueue s |-| {|(e, hl)|}"
proof -
  obtain g where g: "fmlookup (htlcs s) hl = Some g" "h_State g = OPEN" "h_ExpireHeight g = e"
    using assms(4,6) by (auto simp: queue_ok_def)
  let ?h = "g\<lparr>h_State := EXPIRED\<rparr>"
  have t: "t = s\<lparr>htlcs := fmupd hl ?h (htlcs s), expireQueue := expireQueue s |-| {|(h_ExpireHeight g, hl)|}\<rparr>"
    using assms(1) g
    by (auto simp: expire_htlc_def GetHTLC_def SetHTLC_def DeleteHTLCFromExpireQueue_def Let_def)
  have "contract_ok E H hl ?h"
    using assms(3) g by (auto simp: contracts_ok_def contract_ok_def)
  then have "contracts_ok E H t" unfolding t using contracts_ok_upd [OF assms(3)] by simp
  moreover have "queue_ok t" unfolding t by (rule queue_ok_close [OF assms(4) g(1,2)]) simp
  moreover have "covered E (funds t) t"
    using assms(5) g by (simp add: t covered_def store_frame locked_total_upd pending_def)
  ultimately show ?thesis using assms(2) g(3) by (simp add: t store_frame)
qed

lemma expire_loop_keeps:
  assumes "for_each hls (expire_htlc e) s = Ok u t" "wf s" "contracts_ok E H s" "queue_ok s" "covered E (funds s) s"
    and "distinct hls" "\<And>hl. hl \<in> set hls \<Longrightarrow> (e, hl) |\<in>| expireQueue s"
  shows "wf t \<and> contracts_ok E H t \<and> queue_ok t \<and> covered E (funds t) t \<and> (roomy t = roomy s) \<and>
    funds t = funds s \<and> (\<forall>f hl. (f, hl) |\<in>| expireQueue t \<longleftrightarrow> (f, hl) |\<in>| expireQueue s \<and> \<not> (f = e \<and> hl \<in> set hls))"
  using assms
proof (induction hls arbitrary: s)
  case (Cons hl hls)
  then obtain v s1 where 1: "expire_htlc e hl s = Ok v s1" and rec: "for_each hls (expire_htlc e) s1 = Ok u t"
    by auto
  have q: "(e, hl) |\<in>| expireQueue s" using Cons.prems(7) by simp
  note k = expire_keeps [OF 1 Cons.prems(2-5) q]
  have d: "distinct hls" "\<And>hl'. hl' \<in> set hls \<Longrightarrow> (e, hl') |\<in>| expireQueue s1"
    using Cons.prems(6,7) k by auto
  have "wf t \<and> contracts_ok E H t \<and> queue_ok t \<and> covered E (funds t) t \<and> (roomy t = roomy s1) \<and> funds t = funds s1 \<and>
    (\<forall>f hl. (f, hl) |\<in>| expireQueue t \<longleftrightarrow> (f, hl) |\<in>| expireQueue s1 \<and> \<not> (f = e \<and> hl \<in> set hls))"
    using Cons.IH [OF rec _ _ _ _ d] k by blast
  then show ?case using k by auto
qed simp

lemma begin_block_keeps:
  assumes "HtlcBeginBlocker e s = Ok u t" "unat e = Suc H" "wf s" "contracts_ok E H s" "queue_ok s"
    and "covered E (funds s) s"
  shows "wf t \<and> contracts_ok E (Suc H) t \<and> queue_ok t \<and> covered E (funds t) t \<and> (roomy t = roomy s) \<and> funds t = funds s"
proof -
  let ?hls = "IterateHTLCExpireQueueByHeight e s"
  have loop: "for_each ?hls (expire_htlc e) s = Ok u t" using assms(1) by (simp add: HtlcBeginBlocker_def)
  have set: "hl \<in> set ?hls \<longleftrightarrow> (e, hl) |\<in>| expireQueue s" for hl
    by (force simp: IterateHTLCExpireQueueByHeight_def)
  have d: "distinct ?hls"
    by (simp add: IterateHTLCExpireQueueByHeight_def sorted_list_of_fset.rep_eq)
  note k = expire_loop_keeps [OF loop assms(3-6) d, unfolded set]
  have no_e: "(e, hl) |\<notin>| expireQueue t" for hl using k by blast
  have "contract_ok E (Suc H) hl h" if "fmlookup (htlcs t) hl = Some h" for hl h
  proof -
    have c: "contract_ok E H hl h" using k that by (auto simp: contracts_ok_def)
    have "Suc H < unat (h_ExpireHeight h)" if "h_State h = OPEN"
    proof -
      have "(h_ExpireHeight h, hl) |\<in>| expireQueue t"
        using k that \<open>fmlookup (htlcs t) hl = Some h\<close> by (auto simp: queue_ok_def)
      then have "h_ExpireHeight h \<noteq> e" using no_e by auto
      then have "unat (h_ExpireHeight h) \<noteq> Suc H" using assms(2) by (metis word_unat_eq_iff)
      then show ?thesis using c that by (simp add: contract_ok_def)
    qed
    then show ?thesis using c by (simp add: contract_ok_def)
  qed
  then have "contracts_ok E (Suc H) t" by (simp add: contracts_ok_def)
  with k show ?thesis by blast
qed

text \<open>Whoever is owed a pending contract can be paid.\<close>

lemma pay_out_possible:
  assumes "wf s" "roomy s" "contracts_ok E H s" "covered E (funds s) s"
    and "fmlookup (htlcs s) hl = Some g" "pending g" "b \<noteq> sink"
  obtains amt s1 where "SendCoins (HTLCLockedCoinsAccAddr E) b (h_Amount g) s = Ok amt s1"
proof -
  have a: "Coins_IsValid (h_Amount g)" "ranged (h_Amount g)"
    using assms(3,5) by (auto simp: contracts_ok_def contract_ok_def amount_ok_def)
  have "bal (h_Amount g) d \<le> funds s (HTLCLockedCoinsAccAddr E) d" for d
    using locked_total_ge [OF assms(3,5,6), of d] assms(4) by (auto simp: covered_def intro: order_trans)
  from send_succeeds [OF assms(1,2,7) a this] that show thesis by blast
qed

lemma claim_succeeds:
  assumes "wf s" "roomy s" "contracts_ok E H s" "covered E (funds s) s"
    and g: "fmlookup (htlcs s) hl = Some g" "h_State g = OPEN" "h_To g \<noteq> sink"
    and "GetHashLock E secret (h_Timestamp g) = hl"
  shows "\<exists>t. ClaimHTLC E SendCoins hl secret s = Ok () t"
proof -
  have "pending g" using g(2) by (simp add: pending_def)
  then obtain amt s1 where "SendCoins (HTLCLockedCoinsAccAddr E) (h_To g) (h_Amount g) s = Ok amt s1"
    using pay_out_possible [OF assms(1-4) g(1) _ g(3)] by blast
  then show ?thesis
    using g assms(8) by (simp add: ClaimHTLC_def GetHTLC_def SetHTLC_def DeleteHTLCFromExpireQueue_def)
qed

lemma refund_succeeds:
  assumes "wf s" "roomy s" "contracts_ok E H s" "covered E (funds s) s"
    and g: "fmlookup (htlcs s) hl = Some g" "h_State g = EXPIRED" "h_Sender g \<noteq> sink"
  shows "\<exists>t. RefundHTLC E SendCoins hl s = Ok () t"
proof -
  have "pending g" using g(2) by (simp add: pending_def)
  then obtain amt s1 where "SendCoins (HTLCLockedCoinsAccAddr E) (h_Sender g) (h_Amount g) s = Ok amt s1"
    using pay_out_possible [OF assms(1-4) g(1) _ g(3)] by blast
  then show ?thesis using g by (simp add: RefundHTLC_def GetHTLC_def SetHTLC_def)
qed

end

text \<open>The repository's bank keeper is such a bank.\<close>

lemma htlc_store_frame [simp]:
  "ledger (s\<lparr>htlcs := m\<rparr>) = ledger s" "ledger (s\<lparr>expireQueue := q\<rparr>) = ledger s"
  "accounts_ok (s\<lparr>htlcs := m\<rparr>) = accounts_ok s" "accounts_ok (s\<lparr>expireQueue := q\<rparr>) = accounts_ok s"
  "supply_in_range (s\<lparr>htlcs := m\<rparr>) = supply_in_range s"
  "supply_in_range (s\<lparr>expireQueue := q\<rparr>) = supply_in_range s"
  by (simp_all add: ledger_def balance_def GetAccount_def accounts_ok_def supply_in_range_def total_coins_def)

interpretation hb: htlc_bank
  "sendCoins E" "ledger :: 'z htlc_state_scheme \<Rightarrow> ledger" accounts_ok auth_state.more supply_in_range
  "BurnedCoinsAccAddr E" for E :: "'e externals_scheme"
proof unfold_locales
  fix s t :: "'z htlc_state_scheme"
  assume "auth_state.more t = auth_state.more s"
  then show "htlcs t = htlcs s \<and> expireQueue t = expireQueue s" by (cases s, cases t) simp
qed simp_all

section \<open>The contract state machine\<close>

text \<open>
  The chain as the module sees it: a state is the block height and the store. A block begins,
  a validated message is delivered, or another module moves coins through the bank, never out
  of the locked account, whose address is a hash and has no key. A failed message is rolled
  back and is no step. Heights stay below the range of Go's \<open>int64\<close>.
\<close>

inductive htlc_step ::
  "'e externals_scheme \<Rightarrow> nat \<times> 'z htlc_state_scheme \<Rightarrow> nat \<times> 'z htlc_state_scheme \<Rightarrow> bool"
  for E :: "'e externals_scheme" where
  begin_block: "HtlcBeginBlocker (word_of_nat (Suc H)) s = Ok u t \<Longrightarrow> Suc H < 2 ^ 63 \<Longrightarrow>
    htlc_step E (H, s) (Suc H, t)"
| deliver: "HtlcMsg_ValidateBasic msg = Inr () \<Longrightarrow> HtlcMsg_signer msg \<noteq> HTLCLockedCoinsAccAddr E \<Longrightarrow>
    HtlcHandler E (sendCoins E) (word_of_nat H) msg s = Ok u t \<Longrightarrow> H < 2 ^ 63 \<Longrightarrow>
    htlc_step E (H, s) (H, t)"
| transfer: "sendCoins E a b amt s = Ok amt' t \<Longrightarrow> a \<noteq> HTLCLockedCoinsAccAddr E \<Longrightarrow>
    htlc_step E (H, s) (H, t)"

inductive_cases htlc_stepE: "htlc_step E (H, s) (H', t)"

inductive htlc_reach :: "'e externals_scheme \<Rightarrow> nat \<times> 'z htlc_state_scheme \<Rightarrow> bool"
  for E :: "'e externals_scheme" where
  start: "accounts_ok s \<Longrightarrow> htlcs s = fmempty \<Longrightarrow> expireQueue s = {||} \<Longrightarrow> htlc_reach E (0, s)"
| more: "htlc_reach E c \<Longrightarrow> htlc_step E c c' \<Longrightarrow> htlc_reach E c'"

definition htlc_inv :: "'e externals_scheme \<Rightarrow> nat \<times> 'z htlc_state_scheme \<Rightarrow> bool" where
  "htlc_inv E = (\<lambda>(H, s). accounts_ok s \<and> contracts_ok E H s \<and> queue_ok s \<and> covered E (ledger s) s)"

lemma unat_word_of_nat64: "n < 2 ^ 63 \<Longrightarrow> unat (word_of_nat n :: uint64) = n"
  by (simp add: unsigned_of_nat take_bit_nat_eq_self)

lemma expire_height_later:
  fixes lock :: uint64
  assumes "MinTimeLock \<le> lock" "lock \<le> MaxTimeLock" "H < 2 ^ 63"
  shows "H < unat (lock + word_of_nat H)"
proof -
  have l: "50 \<le> unat lock" "unat lock \<le> 25480"
    using assms(1,2) by (simp_all add: MinTimeLock_def MaxTimeLock_def word_le_nat_alt)
  have "unat lock + unat (word_of_nat H :: uint64) < 2 ^ 64"
    using l assms(3) by (simp add: unat_word_of_nat64)
  then have "unat (lock + word_of_nat H) = unat lock + H"
    using assms(3) by (simp add: unat_word_ariths unat_word_of_nat64)
  with l show ?thesis by simp
qed

lemma htlc_create_valid:
  assumes "MsgCreateHTLC_ValidateBasic m = Inr ()"
  shows "no_zero (create_Amount m)" "MinTimeLock \<le> create_TimeLock m" "create_TimeLock m \<le> MaxTimeLock"
  using assms
  by (auto simp: MsgCreateHTLC_ValidateBasic_def IsAllPositive_def no_zero_def list_all_iff split: if_splits)

lemma htlc_step_inv:
  assumes "htlc_step E c c'" "htlc_inv E c"
  shows "htlc_inv E c'"
  using assms
proof (induction rule: htlc_step.induct)
  case (begin_block H s u t)
  then show ?case
    using hb.begin_block_keeps [of "word_of_nat (Suc H)" s u t H E]
    by (auto simp: htlc_inv_def unat_word_of_nat64 simp del: of_nat_Suc)
next
  case (deliver msg H s u t)
  then have i: "accounts_ok s" "contracts_ok E H s" "queue_ok s" "covered E (ledger s) s"
    by (simp_all add: htlc_inv_def)
  show ?case
  proof (cases msg)
    case (HtlcCreate m)
    have v: "no_zero (create_Amount m)" "H < unat (create_TimeLock m + word_of_nat H)"
      using deliver.hyps(1,4) htlc_create_valid [of m] expire_height_later HtlcCreate
      by (simp_all add: HtlcMsg_ValidateBasic_def)
    have "CreateHTLC E (sendCoins E) (NewHTLC (create_Sender m) (create_To m) (create_ReceiverOnOtherChain m)
        (create_Amount m) [] (create_Timestamp m) (create_TimeLock m + word_of_nat H) OPEN) (create_HashLock m) s = Ok u t"
      using deliver.hyps(3) HtlcCreate by (simp add: HtlcHandler_def handleMsgCreateHTLC_def Let_def)
    from hb.create_keeps [OF this i] v deliver.hyps(2) HtlcCreate show ?thesis
      by (simp add: htlc_inv_def NewHTLC_def HtlcMsg_signer_def)
  next
    case (HtlcClaim m)
    then have "ClaimHTLC E (sendCoins E) (claim_HashLock m) (claim_Secret m) s = Ok u t"
      using deliver.hyps(3) by (simp add: HtlcHandler_def handleMsgClaimHTLC_def)
    from hb.claim_keeps [OF this i] show ?thesis by (simp add: htlc_inv_def)
  next
    case (HtlcRefund m)
    then have "RefundHTLC E (sendCoins E) (refund_HashLock m) s = Ok u t"
      using deliver.hyps(3) by (simp add: HtlcHandler_def handleMsgRefundHTLC_def)
    from hb.refund_keeps [OF this i] show ?thesis by (simp add: htlc_inv_def)
  qed
next
  case (transfer a b amt s amt' t H)
  have i: "accounts_ok s" using transfer.prems by (simp add: htlc_inv_def)
  note st = hb.send_store [OF i transfer.hyps(1)] and same = hb.store_only [OF st(1,2)]
  have "0 \<le> bal amt d" for d using st(6) operand_valid cs.operand_nonneg by blast
  then have "covered E (ledger t) t"
    using transfer.prems transfer.hyps(2) st(4) same(1)
    by (auto simp: htlc_inv_def covered_def credit_def debit_def intro: order_trans)
  then show ?case using transfer.prems st(3) same(2) [of E H] same(3) by (simp add: htlc_inv_def)
qed

lemma htlc_reach_inv: "htlc_reach E c \<Longrightarrow> htlc_inv E c"
proof (induction rule: htlc_reach.induct)
  case (start s)
  then show ?case
    using balance_nonneg [of s]
    by (simp add: htlc_inv_def contracts_ok_def queue_ok_def covered_def locked_total_def ledger_def)
qed (rule htlc_step_inv)

section \<open>Expiry and life cycle\<close>

lemma expire_htlc_eval:
  "expire_htlc e hl s =
     Ok () (s\<lparr>htlcs := fmupd hl ((case fmlookup (htlcs s) hl of None \<Rightarrow> zero_HTLC | Some g \<Rightarrow> g)\<lparr>h_State := EXPIRED\<rparr>) (htlcs s),
       expireQueue := expireQueue s |-| {|(e, hl)|}\<rparr>)"
  by (simp add: expire_htlc_def GetHTLC_def SetHTLC_def DeleteHTLCFromExpireQueue_def bind_op_def Let_def
      split: option.split)

lemma expire_loop_eval:
  "\<exists>t. for_each hls (expire_htlc e) s = Ok () t \<and>
     (\<forall>hl. fmlookup (htlcs t) hl = (if hl \<in> set hls
        then Some ((case fmlookup (htlcs s) hl of None \<Rightarrow> zero_HTLC | Some g \<Rightarrow> g)\<lparr>h_State := EXPIRED\<rparr>)
        else fmlookup (htlcs s) hl))"
proof (induction hls arbitrary: s)
  case (Cons x hls)
  let ?s = "s\<lparr>htlcs := fmupd x ((case fmlookup (htlcs s) x of None \<Rightarrow> zero_HTLC | Some g \<Rightarrow> g)\<lparr>h_State := EXPIRED\<rparr>) (htlcs s),
       expireQueue := expireQueue s |-| {|(e, x)|}\<rparr>"
  from Cons [of ?s] obtain t where t: "for_each hls (expire_htlc e) ?s = Ok () t"
    "\<And>hl. fmlookup (htlcs t) hl = (if hl \<in> set hls
        then Some ((case fmlookup (htlcs ?s) hl of None \<Rightarrow> zero_HTLC | Some g \<Rightarrow> g)\<lparr>h_State := EXPIRED\<rparr>)
        else fmlookup (htlcs ?s) hl)" by blast
  have "for_each (x # hls) (expire_htlc e) s = Ok () t"
    using t(1) by (simp add: bind_op_def expire_htlc_eval)
  moreover have "\<forall>hl. fmlookup (htlcs t) hl = (if hl \<in> set (x # hls)
        then Some ((case fmlookup (htlcs s) hl of None \<Rightarrow> zero_HTLC | Some g \<Rightarrow> g)\<lparr>h_State := EXPIRED\<rparr>)
        else fmlookup (htlcs s) hl)" using t(2) by (auto split: option.split)
  ultimately show ?case by blast
qed simp

lemma begin_block_eval:
  "\<exists>t. HtlcBeginBlocker e s = Ok () t \<and>
     (\<forall>hl. fmlookup (htlcs t) hl = (if (e, hl) |\<in>| expireQueue s
        then Some ((case fmlookup (htlcs s) hl of None \<Rightarrow> zero_HTLC | Some g \<Rightarrow> g)\<lparr>h_State := EXPIRED\<rparr>)
        else fmlookup (htlcs s) hl))"
proof -
  have "hl \<in> set (IterateHTLCExpireQueueByHeight e s) \<longleftrightarrow> (e, hl) |\<in>| expireQueue s" for hl
    by (force simp: IterateHTLCExpireQueueByHeight_def)
  then show ?thesis
    using expire_loop_eval [of "IterateHTLCExpireQueueByHeight e s" e s]
    by (simp add: HtlcBeginBlocker_def bind_op_def)
qed

text \<open>The moves a contract can make.\<close>

definition contract_move :: "HTLC \<Rightarrow> HTLC \<Rightarrow> bool" where
  "contract_move g h \<longleftrightarrow>
     h = g \<or>
     h_Sender h = h_Sender g \<and> h_To h = h_To g \<and> h_Amount h = h_Amount g \<and>
     (h_State g, h_State h) \<in> {(OPEN, COMPLETED), (OPEN, EXPIRED), (EXPIRED, REFUNDED)}"

lemma htlc_step_moves:
  assumes "htlc_step E (H, s) (H', t)" "htlc_inv E (H, s)" "fmlookup (htlcs s) hl = Some g"
  shows "\<exists>h. fmlookup (htlcs t) hl = Some h \<and> contract_move g h"
proof -
  have i: "accounts_ok s" "contracts_ok E H s" "queue_ok s" using assms(2) by (simp_all add: htlc_inv_def)
  note store = hb.send_store [OF i(1), where E = E]
  from assms(1) consider
      (blk) "HtlcBeginBlocker (word_of_nat (Suc H)) s = Ok () t"
    | (msg) msg where "HtlcMsg_ValidateBasic msg = Inr ()"
        "HtlcHandler E (sendCoins E) (word_of_nat H) msg s = Ok () t"
    | (tr) a b amt amt' where "sendCoins E a b amt s = Ok amt' t"
    by (rule htlc_stepE) (simp, iprover+)
  then show ?thesis
  proof cases
    case blk
    obtain t' where t': "HtlcBeginBlocker (word_of_nat (Suc H)) s = Ok () t'"
      "fmlookup (htlcs t') hl = (if (word_of_nat (Suc H), hl) |\<in>| expireQueue s
        then Some ((case fmlookup (htlcs s) hl of None \<Rightarrow> zero_HTLC | Some g \<Rightarrow> g)\<lparr>h_State := EXPIRED\<rparr>)
        else fmlookup (htlcs s) hl)" using begin_block_eval [of "word_of_nat (Suc H)" s] by blast
    have "h_State g = OPEN" if "(word_of_nat (Suc H), hl) |\<in>| expireQueue s"
      using i(3) assms(3) that by (auto simp: queue_ok_def)
    moreover have "t' = t" using blk t'(1) by simp
    ultimately show ?thesis using t'(2) assms(3) by (auto simp: contract_move_def)
  next
    case (msg msg)
    have nz: "no_zero (h_Amount k)" if "fmlookup (htlcs s) l = Some k" for l k
      using i(2) that by (auto simp: contracts_ok_def contract_ok_def amount_ok_def)
    show ?thesis
    proof (cases msg)
      case (HtlcCreate m)
      let ?h = "NewHTLC (create_Sender m) (create_To m) (create_ReceiverOnOtherChain m)
        (create_Amount m) [] (create_Timestamp m) (create_TimeLock m + word_of_nat H) OPEN"
      have "CreateHTLC E (sendCoins E) ?h (create_HashLock m) s = Ok () t" "no_zero (h_Amount ?h)"
        using msg HtlcCreate htlc_create_valid(1) [of m]
        by (simp_all add: HtlcHandler_def handleMsgCreateHTLC_def Let_def HtlcMsg_ValidateBasic_def NewHTLC_def)
      then show ?thesis
        by (rule hb.create_spec [OF _ i(1)])
          (use assms(3) store(1) in \<open>auto simp: contract_move_def\<close>)
    next
      case (HtlcClaim m)
      then have "ClaimHTLC E (sendCoins E) (claim_HashLock m) (claim_Secret m) s = Ok () t"
        using msg by (simp add: HtlcHandler_def handleMsgClaimHTLC_def)
      then show ?thesis
        by (rule hb.claim_spec)
          (use assms(3) store(1,5) nz in \<open>auto simp: contract_move_def\<close>)
    next
      case (HtlcRefund m)
      then have "RefundHTLC E (sendCoins E) (refund_HashLock m) s = Ok () t"
        using msg by (simp add: HtlcHandler_def handleMsgRefundHTLC_def)
      then show ?thesis
        by (rule hb.refund_spec)
          (use assms(3) store(1,5) nz in \<open>auto simp: contract_move_def\<close>)
    qed
  next
    case (tr a b amt amt')
    then show ?thesis using store(1) assms(3) by (auto simp: contract_move_def)
  qed
qed

text \<open>What a payment out of the locked account does in a state of the invariant.\<close>

lemma locked_payment:
  assumes "htlc_inv E (H, s)" "supply_in_range s" "fmlookup (htlcs s) hl = Some g" "pending g"
    and "b \<noteq> BurnedCoinsAccAddr E"
  obtains t where "sendCoins E (HTLCLockedCoinsAccAddr E) b (h_Amount g) s = Ok (h_Amount g) t"
    "ledger t = credit b (h_Amount g) (debit (HTLCLockedCoinsAccAddr E) (h_Amount g) (ledger s))"
    "htlcs t = htlcs s"
proof -
  have i: "accounts_ok s" "contracts_ok E H s" "covered E (ledger s) s"
    using assms(1) by (simp_all add: htlc_inv_def)
  obtain amt t where t: "sendCoins E (HTLCLockedCoinsAccAddr E) b (h_Amount g) s = Ok amt t"
    using hb.pay_out_possible [OF i(1) assms(2) i(2,3) assms(3-5)] .
  moreover have "no_zero (h_Amount g)"
    using i(2) assms(3) by (auto simp: contracts_ok_def contract_ok_def amount_ok_def)
  ultimately show thesis using hb.send_store(1,4,5) [OF i(1) t] that by simp
qed

section \<open>Properties\<close>

text \<open>A contract on the small chain state: alice locks 4 \<open>abc-min\<close> for bob for 50 blocks.\<close>

definition demo_secret :: bytes where
  "demo_secret = replicate 32 (CHR ''s'')"

definition demo_create :: MsgCreateHTLC where
  "demo_create = \<lparr>create_Sender = ''alice'', create_To = ''bob'', create_ReceiverOnOtherChain = ''bob2'',
     create_Amount = [\<lparr>Denom = ''abc-min'', Amount = 4\<rparr>], create_HashLock = demo_secret,
     create_Timestamp = 0, create_TimeLock = 50\<rparr>"

definition demo_htlc_state :: htlc_state where
  "demo_htlc_state = auth_state.extend demo_state \<lparr>htlcs = fmempty, expireQueue = {||}\<rparr>"

definition demo_open :: htlc_state where
  "demo_open = (case HtlcHandler demo_E (sendCoins demo_E) 0 (HtlcCreate demo_create) demo_htlc_state of
     Ok _ t \<Rightarrow> t | _ \<Rightarrow> demo_htlc_state)"

definition demo_expired :: htlc_state where
  "demo_expired = (case HtlcBeginBlocker 50 demo_open of Ok _ t \<Rightarrow> t | _ \<Rightarrow> demo_open)"

definition demo_contract :: HTLC where
  "demo_contract = NewHTLC ''alice'' ''bob'' ''bob2'' [\<lparr>Denom = ''abc-min'', Amount = 4\<rparr>] [] 0 50 OPEN"

lemma demo_create_Ok:
  "HtlcHandler demo_E (sendCoins demo_E) 0 (HtlcCreate demo_create) demo_htlc_state = Ok () demo_open"
proof -
  have "case HtlcHandler demo_E (sendCoins demo_E) 0 (HtlcCreate demo_create) demo_htlc_state of
    Ok _ _ \<Rightarrow> True | _ \<Rightarrow> False" by code_simp
  then show ?thesis by (auto simp: demo_open_def split: outcome.splits)
qed

lemma demo_start: "htlc_reach demo_E (0, demo_htlc_state)"
proof (rule htlc_reach.start)
  show "accounts_ok demo_htlc_state" by code_simp
qed (simp_all add: demo_htlc_state_def auth_state.defs)

lemma demo_open_reach: "htlc_reach demo_E (0, demo_open)"
proof (rule htlc_reach.more [OF demo_start], rule htlc_step.deliver)
  show "HtlcMsg_ValidateBasic (HtlcCreate demo_create) = Inr ()" by code_simp
  show "HtlcMsg_signer (HtlcCreate demo_create) \<noteq> HTLCLockedCoinsAccAddr demo_E" by code_simp
  show "HtlcHandler demo_E (sendCoins demo_E) (word_of_nat 0) (HtlcCreate demo_create) demo_htlc_state = Ok () demo_open"
    by (simp add: demo_create_Ok)
qed simp

lemma demo_open_store:
  "fmlookup (htlcs demo_open) demo_secret = Some demo_contract" "expireQueue demo_open = {|(50, demo_secret)|}"
  by code_simp+

lemma demo_open_later: "n \<le> 49 \<Longrightarrow> htlc_reach demo_E (n, demo_open)"
proof (induction n)
  case (Suc n)
  have w: "word_of_nat (Suc n) \<noteq> (50 :: uint64)"
  proof
    assume "word_of_nat (Suc n) = (50 :: uint64)"
    then have "unat (word_of_nat (Suc n) :: uint64) = unat (50 :: uint64)" by (rule arg_cong)
    then show False using Suc.prems by (simp add: unat_word_of_nat64 del: of_nat_Suc)
  qed
  have "{(e, _). e = word_of_nat (Suc n)} \<inter> {(50, demo_secret)} = ({} :: (uint64 \<times> bytes) set)"
    using w by (auto simp del: of_nat_Suc)
  then have "HtlcBeginBlocker (word_of_nat (Suc n)) demo_open = Ok () demo_open"
    by (simp add: HtlcBeginBlocker_def IterateHTLCExpireQueueByHeight_def demo_open_store(2) bind_op_def
        sorted_list_of_fset.rep_eq del: of_nat_Suc)
  with Suc show ?case by (auto intro!: htlc_reach.more [OF Suc.IH] htlc_step.begin_block)
qed (rule demo_open_reach)

lemma demo_expired_Ok: "HtlcBeginBlocker 50 demo_open = Ok () demo_expired"
proof -
  have "case HtlcBeginBlocker 50 demo_open of Ok _ _ \<Rightarrow> True | _ \<Rightarrow> False" by code_simp
  then show ?thesis by (auto simp: demo_expired_def split: outcome.splits)
qed

lemma demo_expired_reach: "htlc_reach demo_E (50, demo_expired)"
  using htlc_reach.more [OF demo_open_later [of 49] htlc_step.begin_block [of 49 demo_open "()" demo_expired demo_E]]
  by (simp add: demo_expired_Ok)

lemma demo_roomy: "supply_in_range demo_open" "supply_in_range demo_expired"
proof -
  have "total_coins d demo_htlc_state = total_coins d demo_state" for d
    by (simp add: total_coins_def demo_htlc_state_def auth_state.defs demo_state_def)
  then have room: "supply_in_range demo_htlc_state" using demo_in_range by (simp add: supply_in_range_def)
  have wf: "accounts_ok demo_htlc_state" "no_zero (h_Amount demo_contract)" by code_simp+
  have "CreateHTLC demo_E (sendCoins demo_E) demo_contract demo_secret demo_htlc_state = Ok () demo_open"
    using demo_create_Ok
    by (simp add: HtlcHandler_def handleMsgCreateHTLC_def Let_def demo_create_def demo_contract_def)
  from hb.create_spec [OF this wf] obtain s1 a b amt where
    "sendCoins demo_E a b amt demo_htlc_state = Ok amt s1" "supply_in_range demo_open = supply_in_range s1"
    by (metis htlc_store_frame(5,6))
  then show o: "supply_in_range demo_open" using hb.send_store(8) [OF wf(1)] room by blast
  have "accounts demo_expired = accounts demo_open" by code_simp
  with o show "supply_in_range demo_expired" by (simp add: supply_in_range_def total_coins_def)
qed

text \<open>C6: The locked account is solvent. In every reachable state, whatever messages, blocks and
  other modules' transfers led to it, the accounts are well formed and the locked account holds
  at least the coins of all contracts that are neither claimed nor refunded.\<close>

theorem htlc_solvent:
  assumes "htlc_reach E (H, s)"
  shows "accounts_ok s \<and> (\<forall>d. locked_total d s \<le> balance (HTLCLockedCoinsAccAddr E) d s)"
  using htlc_reach_inv [OF assms] by (simp add: htlc_inv_def covered_def ledger_def)

theorem htlc_solvent_witness:
  "locked_total ''abc-min'' demo_open = 4 \<and> 4 \<le> balance (HTLCLockedCoinsAccAddr demo_E) ''abc-min'' demo_open"
proof -
  have "locked_total ''abc-min'' demo_open = 4" by code_simp
  then show ?thesis using htlc_solvent [OF demo_open_reach] by metis
qed

text \<open>C7: The expiration queue is exact. In every reachable state at height \<open>H\<close>, a hash lock is
  queued under a height exactly when its contract is open and expires there, and every queued
  height is still ahead: no open contract is ever overdue.\<close>

theorem htlc_queue_exact:
  assumes "htlc_reach E (H, s)"
  shows "(e, hl) |\<in>| expireQueue s \<longleftrightarrow>
    (\<exists>h. fmlookup (htlcs s) hl = Some h \<and> h_State h = OPEN \<and> h_ExpireHeight h = e \<and> H < unat e)"
  using htlc_reach_inv [OF assms] by (auto simp: htlc_inv_def queue_ok_def contracts_ok_def contract_ok_def)

theorem htlc_queue_exact_witness: "(0::nat) < unat (50 :: uint64) \<and> (50, demo_secret) |\<in>| expireQueue demo_open"
proof -
  have "h_State demo_contract = OPEN" "h_ExpireHeight demo_contract = 50" by code_simp+
  then show ?thesis using htlc_queue_exact [OF demo_open_reach, of 50 demo_secret] demo_open_store(1) by simp
qed

text \<open>C8: Claiming is decided by state and secret alone. In a reachable state whose supplies fit the
  integer range, a claim on a contract succeeds exactly when the contract is open and the secret
  hashes to the hash lock; it then pays the whole amount from the locked account to the
  recipient and records the secret. Any other claim fails with the matching error and changes
  nothing. It never panics.\<close>

theorem claim_outcome:
  assumes "htlc_reach E (H, s)" "supply_in_range s" "fmlookup (htlcs s) hl = Some g"
    and "h_To g \<noteq> BurnedCoinsAccAddr E"
  shows "case ClaimHTLC E (sendCoins E) hl secret s of
      Ok _ t \<Rightarrow> h_State g = OPEN \<and> GetHashLock E secret (h_Timestamp g) = hl \<and>
        ledger t = credit (h_To g) (h_Amount g) (debit (HTLCLockedCoinsAccAddr E) (h_Amount g) (ledger s)) \<and>
        htlcs t = fmupd hl (g\<lparr>h_Secret := secret, h_State := COMPLETED\<rparr>) (htlcs s)
    | Err e t \<Rightarrow> t = s \<and> (if h_State g \<noteq> OPEN then e = ErrStateIsNotOpen
        else GetHashLock E secret (h_Timestamp g) \<noteq> hl \<and> e = ErrInvalidSecret)
    | Panic \<Rightarrow> False"
proof (cases "h_State g = OPEN \<and> GetHashLock E secret (h_Timestamp g) = hl")
  case True
  then have "pending g" by (simp add: pending_def)
  from locked_payment [OF htlc_reach_inv [OF assms(1)] assms(2,3) this assms(4)] obtain t where
    "sendCoins E (HTLCLockedCoinsAccAddr E) (h_To g) (h_Amount g) s = Ok (h_Amount g) t"
    "ledger t = credit (h_To g) (h_Amount g) (debit (HTLCLockedCoinsAccAddr E) (h_Amount g) (ledger s))"
    "htlcs t = htlcs s" by blast
  then show ?thesis using True assms(3)
    by (simp add: ClaimHTLC_def GetHTLC_def SetHTLC_def DeleteHTLCFromExpireQueue_def bind_op_def)
next
  case False
  then show ?thesis using assms(3) by (simp add: ClaimHTLC_def GetHTLC_def bind_op_def)
qed

theorem claim_outcome_witness:
  "case ClaimHTLC demo_E (sendCoins demo_E) demo_secret demo_secret demo_open of
     Ok _ t \<Rightarrow> ledger t ''bob'' ''abc-min'' = 4 | _ \<Rightarrow> False"
proof -
  have c: "h_To demo_contract \<noteq> BurnedCoinsAccAddr demo_E" by code_simp
  have d: "h_State demo_contract = OPEN" "GetHashLock demo_E demo_secret (h_Timestamp demo_contract) = demo_secret"
    "h_To demo_contract = ''bob''" "h_Amount demo_contract = [\<lparr>Denom = ''abc-min'', Amount = 4\<rparr>]"
    "HTLCLockedCoinsAccAddr demo_E \<noteq> ''bob''" "ledger demo_open ''bob'' ''abc-min'' = 0" by code_simp+
  show ?thesis
    using claim_outcome [OF demo_open_reach demo_roomy(1) demo_open_store(1) c, of demo_secret]
    by (auto simp: d d(5) [symmetric] credit_def debit_def split: outcome.splits)
qed

text \<open>C9: Refunding is decided by the state alone. In such a state a refund succeeds exactly when
  the contract is expired, and pays the whole amount back to the sender; otherwise it fails with
  \<open>ErrStateIsNotOpen\<close> and changes nothing. Together with the claim this shows that no contract's
  coins can get stuck.\<close>

theorem refund_outcome:
  assumes "htlc_reach E (H, s)" "supply_in_range s" "fmlookup (htlcs s) hl = Some g"
    and "h_Sender g \<noteq> BurnedCoinsAccAddr E"
  shows "case RefundHTLC E (sendCoins E) hl s of
      Ok _ t \<Rightarrow> h_State g = EXPIRED \<and>
        ledger t = credit (h_Sender g) (h_Amount g) (debit (HTLCLockedCoinsAccAddr E) (h_Amount g) (ledger s)) \<and>
        htlcs t = fmupd hl (g\<lparr>h_State := REFUNDED\<rparr>) (htlcs s)
    | Err e t \<Rightarrow> t = s \<and> h_State g \<noteq> EXPIRED \<and> e = ErrStateIsNotOpen
    | Panic \<Rightarrow> False"
proof (cases "h_State g = EXPIRED")
  case True
  then have "pending g" by (simp add: pending_def)
  from locked_payment [OF htlc_reach_inv [OF assms(1)] assms(2,3) this assms(4)] obtain t where
    "sendCoins E (HTLCLockedCoinsAccAddr E) (h_Sender g) (h_Amount g) s = Ok (h_Amount g) t"
    "ledger t = credit (h_Sender g) (h_Amount g) (debit (HTLCLockedCoinsAccAddr E) (h_Amount g) (ledger s))"
    "htlcs t = htlcs s" by blast
  then show ?thesis using True assms(3)
    by (simp add: RefundHTLC_def GetHTLC_def SetHTLC_def bind_op_def)
next
  case False
  then show ?thesis using assms(3) by (simp add: RefundHTLC_def GetHTLC_def bind_op_def)
qed

theorem refund_outcome_witness:
  "case RefundHTLC demo_E (sendCoins demo_E) demo_secret demo_expired of
     Ok _ t \<Rightarrow> ledger t ''alice'' ''abc-min'' = 10 | _ \<Rightarrow> False"
proof -
  let ?g = "demo_contract\<lparr>h_State := EXPIRED\<rparr>"
  have c: "fmlookup (htlcs demo_expired) demo_secret = Some ?g" "h_Sender ?g \<noteq> BurnedCoinsAccAddr demo_E"
    by code_simp+
  have d: "h_State ?g = EXPIRED" "h_Sender ?g = ''alice''" "h_Amount ?g = [\<lparr>Denom = ''abc-min'', Amount = 4\<rparr>]"
    "HTLCLockedCoinsAccAddr demo_E \<noteq> ''alice''" "ledger demo_expired ''alice'' ''abc-min'' = 6" by code_simp+
  show ?thesis
    using refund_outcome [OF demo_expired_reach demo_roomy(2) c] d(1) unfolding d(2,3)
    by (auto simp: d(4-) d(4) [symmetric] credit_def debit_def split: outcome.splits)
qed

text \<open>C10: The block at a contract's expiration height always runs, and leaves exactly the
  contracts due there expired and all others as they were.\<close>

theorem begin_block_expires:
  assumes "htlc_reach E (H, s)" "Suc H < 2 ^ 63"
  shows "\<exists>t. HtlcBeginBlocker (word_of_nat (Suc H)) s = Ok () t \<and> htlc_reach E (Suc H, t) \<and>
    (\<forall>hl. fmlookup (htlcs t) hl = map_option (\<lambda>g.
       if h_State g = OPEN \<and> h_ExpireHeight g = word_of_nat (Suc H) then g\<lparr>h_State := EXPIRED\<rparr> else g)
       (fmlookup (htlcs s) hl))"
proof -
  obtain t where t: "HtlcBeginBlocker (word_of_nat (Suc H)) s = Ok () t"
    "\<And>hl. fmlookup (htlcs t) hl = (if (word_of_nat (Suc H), hl) |\<in>| expireQueue s
        then Some ((case fmlookup (htlcs s) hl of None \<Rightarrow> zero_HTLC | Some g \<Rightarrow> g)\<lparr>h_State := EXPIRED\<rparr>)
        else fmlookup (htlcs s) hl)" using begin_block_eval [of "word_of_nat (Suc H)" s] by blast
  have q: "queue_ok s" using htlc_reach_inv [OF assms(1)] by (simp add: htlc_inv_def)
  have "htlc_reach E (Suc H, t)"
    using htlc_reach.more [OF assms(1) htlc_step.begin_block [OF t(1) assms(2)]] .
  moreover have "fmlookup (htlcs t) hl = map_option (\<lambda>g.
       if h_State g = OPEN \<and> h_ExpireHeight g = word_of_nat (Suc H) then g\<lparr>h_State := EXPIRED\<rparr> else g)
       (fmlookup (htlcs s) hl)" for hl
  proof (cases "fmlookup (htlcs s) hl")
    case None
    then have "(word_of_nat (Suc H), hl) |\<notin>| expireQueue s" using q unfolding queue_ok_def by simp
    then show ?thesis using None t(2) [of hl] by simp
  next
    case (Some g)
    then have "(word_of_nat (Suc H), hl) |\<in>| expireQueue s \<longleftrightarrow>
        h_State g = OPEN \<and> h_ExpireHeight g = word_of_nat (Suc H)" using q unfolding queue_ok_def by auto
    then show ?thesis using Some t(2) [of hl] by (simp del: of_nat_Suc)
  qed
  ultimately show ?thesis using t(1) by blast
qed

theorem begin_block_expires_witness:
  "\<exists>t. HtlcBeginBlocker 50 demo_open = Ok () t \<and> map_option h_State (fmlookup (htlcs t) demo_secret) = Some EXPIRED"
proof -
  have n: "Suc 49 < 2 ^ 63" by simp
  have "h_State demo_contract = OPEN" "h_ExpireHeight demo_contract = 50" by code_simp+
  moreover obtain t where "HtlcBeginBlocker (word_of_nat (Suc 49)) demo_open = Ok () t"
    "\<And>hl. fmlookup (htlcs t) hl = map_option (\<lambda>g. if h_State g = OPEN \<and> h_ExpireHeight g = word_of_nat (Suc 49)
       then g\<lparr>h_State := EXPIRED\<rparr> else g) (fmlookup (htlcs demo_open) hl)"
    using begin_block_expires [OF demo_open_later [OF order_refl] n] by blast
  ultimately show ?thesis by (simp add: demo_open_store(1))
qed

text \<open>C11: The life cycle of a contract. From a reachable state, any step keeps every contract under
  its hash lock: it stays as it is, or keeps its parties and amount and moves from open to
  completed, from open to expired, or from expired to refunded. So a contract is paid out at
  most once.\<close>

theorem htlc_life_cycle:
  assumes "htlc_reach E (H, s)" "htlc_step E (H, s) (H', t)" "fmlookup (htlcs s) hl = Some g"
  shows "\<exists>h. fmlookup (htlcs t) hl = Some h \<and> contract_move g h"
  using htlc_step_moves [OF assms(2) htlc_reach_inv [OF assms(1)] assms(3)] .

theorem htlc_life_cycle_witness:
  "\<exists>h. fmlookup (htlcs demo_expired) demo_secret = Some h \<and> contract_move demo_contract h"
proof -
  have "htlc_step demo_E (49, demo_open) (Suc 49, demo_expired)"
    by (rule htlc_step.begin_block [where u = "()"]) (simp_all add: demo_expired_Ok)
  from htlc_life_cycle [OF demo_open_later [OF order_refl] this demo_open_store(1)] show ?thesis .
qed

text \<open>C12: Exporting an open contract whose hash lock contains the byte of the key delimiter loses
  it: \<open>IterateHTLCs\<close> splits the store key at every delimiter, so the export lists the contract
  under a truncated hash lock, and importing the export leaves nothing under the hash lock that
  the recipient's secret opens.\<close>

definition demo_colon_lock :: bytes where
  "demo_colon_lock = ''abc:'' @ replicate 28 (CHR ''z'')"

definition demo_colon_state :: htlc_state where
  "demo_colon_state = demo_htlc_state\<lparr>htlcs := fmap_of_list [(demo_colon_lock, demo_contract)],
     expireQueue := {|(50, demo_colon_lock)|}\<rparr>"


end
