(* ===== verification/Decimal.thy ===== *)
theory Decimal
  imports Ints Errors "HOL-Library.Signed_Division"
begin

text \<open>
  Component: \<open>src/types/decimal.go\<close>, fixed-point decimals with ten decimal places.

  A \<open>Dec\<close> is the scaled integer the source keeps, as an \<open>int\<close>; \<open>big.Int.Quo\<close> and
  \<open>QuoRem\<close> truncate towards zero (\<open>sdiv\<close>, \<open>smod\<close>). Panics are \<open>None\<close>, the error of
  \<open>NewDecFromStr\<close> is \<open>Inl\<close>.
\<close>

type_synonym Dec = int

definition Precision :: int where
  "Precision = 10"

definition DecimalPrecisionBits :: nat where
  "DecimalPrecisionBits = 34"

definition precisionReuse :: int where
  "precisionReuse = 10 ^ nat Precision"

definition fivePrecision :: int where
  "fivePrecision = precisionReuse sdiv 2"

definition calcPrecisionMultiplier :: "int \<Rightarrow> int option" where
  "calcPrecisionMultiplier prec =
     (if prec > Precision then None else Some (10 ^ nat (Precision - prec)))"

text \<open>The table lookup panics for a negative index as well.\<close>

definition precisionMultiplier :: "int \<Rightarrow> int option" where
  "precisionMultiplier prec =
     (if prec > Precision then None
      else if prec < 0 then None
      else calcPrecisionMultiplier prec)"

definition NewDecWithPrec :: "int \<Rightarrow> int \<Rightarrow> Dec option" where
  "NewDecWithPrec i prec = do { m \<leftarrow> precisionMultiplier prec; Some (i * m) }"

definition NewDec :: "int \<Rightarrow> Dec option" where
  "NewDec i = NewDecWithPrec i 0"

definition NewDecFromIntWithPrec :: "int \<Rightarrow> int \<Rightarrow> Dec option" where
  "NewDecFromIntWithPrec i prec = do { m \<leftarrow> precisionMultiplier prec; Some (i * m) }"

definition NewDecFromInt :: "int \<Rightarrow> Dec option" where
  "NewDecFromInt i = NewDecFromIntWithPrec i 0"


definition NewDecFromStr :: "string \<Rightarrow> sdk_error + Dec" where
  "NewDecFromStr str0 =
     (if str0 = [] then Inl ErrUnknownRequest
      else
        let neg = (hd str0 = CHR ''-''); str1 = (if neg then tl str0 else str0) in
        if str1 = [] then Inl ErrUnknownRequest
        else
          let strs = Split str1 (CHR ''.'') in
          if length strs = 2 \<and> (length (strs ! 1) = 0 \<or> length (hd strs) = 0) then Inl ErrUnknownRequest
          else if length strs > 2 then Inl ErrUnknownRequest
          else
            let lenDecs = (if length strs = 2 then length (strs ! 1) else 0);
                combinedStr = (if length strs = 2 then hd strs @ strs ! 1 else hd strs) in
            if int lenDecs > Precision then Inl ErrUnknownRequest
            else
              let zerosToAdd = nat Precision - lenDecs in
              case SetString10 (combinedStr @ replicate zerosToAdd (CHR ''0'')) of
                None \<Rightarrow> Inl ErrUnknownRequest
              | Some combined \<Rightarrow> Inr (if neg then - combined else combined))"

definition Dec_overflow :: "int \<Rightarrow> bool" where
  "Dec_overflow res \<longleftrightarrow> BitLen res > 255 + DecimalPrecisionBits"

definition Dec_Add :: "Dec \<Rightarrow> Dec \<Rightarrow> Dec option" where
  "Dec_Add d d2 = (let res = d + d2 in if Dec_overflow res then None else Some res)"

definition Dec_Sub :: "Dec \<Rightarrow> Dec \<Rightarrow> Dec option" where
  "Dec_Sub d d2 = (let res = d - d2 in if Dec_overflow res then None else Some res)"

text \<open>Banker's rounding of the ten rightmost digits.\<close>

definition chop_nonneg :: "int \<Rightarrow> int" where
  "chop_nonneg d =
     (let quo = d sdiv precisionReuse; rem = d smod precisionReuse in
      if rem = 0 then quo
      else if rem < fivePrecision then quo
      else if rem > fivePrecision then quo + 1
      else if even quo then quo
      else quo + 1)"

definition chopPrecisionAndRound :: "int \<Rightarrow> int" where
  "chopPrecisionAndRound d = (if d < 0 then - chop_nonneg (- d) else chop_nonneg d)"

definition chopPrecisionAndTruncate :: "int \<Rightarrow> int" where
  "chopPrecisionAndTruncate d = d sdiv precisionReuse"

definition Dec_Mul :: "Dec \<Rightarrow> Dec \<Rightarrow> Dec option" where
  "Dec_Mul d d2 =
     (let chopped = chopPrecisionAndRound (d * d2) in
      if Dec_overflow chopped then None else Some chopped)"

definition Dec_MulInt :: "Dec \<Rightarrow> int \<Rightarrow> Dec option" where
  "Dec_MulInt d i = (let mul = d * i in if Dec_overflow mul then None else Some mul)"

definition Dec_Quo :: "Dec \<Rightarrow> Dec \<Rightarrow> Dec option" where
  "Dec_Quo d d2 =
     (let mul = d * precisionReuse * precisionReuse in
      if d2 = 0 then None
      else let chopped = chopPrecisionAndRound (mul sdiv d2) in
        if Dec_overflow chopped then None else Some chopped)"

definition Dec_QuoInt :: "Dec \<Rightarrow> int \<Rightarrow> Dec option" where
  "Dec_QuoInt d i = (if i = 0 then None else Some (d sdiv i))"

definition Dec_IsInteger :: "Dec \<Rightarrow> bool" where
  "Dec_IsInteger d \<longleftrightarrow> d smod precisionReuse = 0"

definition Dec_String :: "Dec \<Rightarrow> string" where
  "Dec_String d =
     (let bz = itoa d; inputSize = length bz in
      if inputSize \<le> 10 then ''0.'' @ replicate (10 - inputSize) (CHR ''0'') @ bz
      else take (inputSize - 10) bz @ ''.'' @ drop (inputSize - 10) bz)"

definition Dec_RoundInt64 :: "Dec \<Rightarrow> int option" where
  "Dec_RoundInt64 d = Int64 (chopPrecisionAndRound d)"

definition Dec_RoundInt :: "Dec \<Rightarrow> int option" where
  "Dec_RoundInt d = NewIntFromBigInt (chopPrecisionAndRound d)"

definition Dec_TruncateInt64 :: "Dec \<Rightarrow> int option" where
  "Dec_TruncateInt64 d = Int64 (chopPrecisionAndTruncate d)"

definition Dec_TruncateInt :: "Dec \<Rightarrow> int option" where
  "Dec_TruncateInt d = NewIntFromBigInt (chopPrecisionAndTruncate d)"

definition Dec_TruncateDec :: "Dec \<Rightarrow> Dec option" where
  "Dec_TruncateDec d =
     do { i \<leftarrow> NewIntFromBigInt (chopPrecisionAndTruncate d); NewDecFromInt i }"

fun DecsEqual :: "Dec list \<Rightarrow> Dec list \<Rightarrow> bool" where
  "DecsEqual d1s d2s = (if length d1s \<noteq> length d2s then False else list_all2 (=) d1s d2s)"

definition MinDec :: "Dec \<Rightarrow> Dec \<Rightarrow> Dec" where
  "MinDec d1 d2 = (if d1 < d2 then d1 else d2)"

definition MaxDec :: "Dec \<Rightarrow> Dec \<Rightarrow> Dec" where
  "MaxDec d1 d2 = (if d1 < d2 then d2 else d1)"

section \<open>Rounding\<close>

lemma precisionReuse_val: "precisionReuse = 10000000000"
  by (simp add: precisionReuse_def Precision_def)

lemma fivePrecision_val: "fivePrecision = 5000000000"
  by (simp add: fivePrecision_def precisionReuse_val signed_divide_int_def)

lemmas prec_vals = precisionReuse_val fivePrecision_val

lemma sdiv_smod_nonneg:
  "0 \<le> (d::int) \<Longrightarrow> 0 < m \<Longrightarrow> d sdiv m = d div m" "0 \<le> d \<Longrightarrow> 0 < m \<Longrightarrow> d smod m = d mod m"
  by (auto simp: signed_divide_int_def signed_modulo_int_def sgn_if minus_div_mult_eq_mod
      pos_imp_zdiv_nonneg_iff)

text \<open>\<open>nearest_even d r\<close>: \<open>r\<close> is the integer nearest to \<open>d / precisionReuse\<close>, the even one
  of two equally near ones.\<close>

definition nearest_even :: "int \<Rightarrow> int \<Rightarrow> bool" where
  "nearest_even d r \<longleftrightarrow>
     2 * \<bar>d - r * precisionReuse\<bar> < precisionReuse \<or>
     2 * \<bar>d - r * precisionReuse\<bar> = precisionReuse \<and> even r"

lemma nearest_even_neg: "nearest_even (- d) (- r) \<longleftrightarrow> nearest_even d r"
proof -
  have "\<bar>- d - - r * precisionReuse\<bar> = \<bar>d - r * precisionReuse\<bar>" by (simp add: abs_minus_commute)
  then show ?thesis by (simp add: nearest_even_def)
qed

lemma nearest_even_unique:
  assumes "nearest_even d r" "nearest_even d s"
  shows "r = s"
proof (rule ccontr)
  assume "r \<noteq> s"
  have "r \<le> s + 1" "s \<le> r + 1"
    using assms by (auto simp: nearest_even_def precisionReuse_val)
  with \<open>r \<noteq> s\<close> consider "s = r + 1" | "r = s + 1" by linarith
  then show False
  proof cases
    case 1
    with assms show False by (auto simp: nearest_even_def precisionReuse_val)
  next
    case 2
    with assms show False by (auto simp: nearest_even_def precisionReuse_val)
  qed
qed

lemma chop_nonneg_nearest:
  assumes "0 \<le> d"
  shows "nearest_even d (chop_nonneg d)"
proof -
  define q r where "q = d div precisionReuse" and "r = d mod precisionReuse"
  have d: "d = q * precisionReuse + r" "0 \<le> r" "r < precisionReuse"
    by (simp_all add: q_def r_def precisionReuse_val)
  have "d sdiv precisionReuse = q" "d smod precisionReuse = r"
    using assms by (simp_all add: sdiv_smod_nonneg q_def r_def precisionReuse_val)
  then have "chop_nonneg d =
      (if r < fivePrecision \<or> r = fivePrecision \<and> even q then q else q + 1)"
    by (auto simp: chop_nonneg_def prec_vals Let_def)
  then show ?thesis
    using d unfolding nearest_even_def prec_vals by (auto simp: algebra_simps)
qed

lemma chop_nearest: "nearest_even d (chopPrecisionAndRound d)"
  using chop_nonneg_nearest [of d] chop_nonneg_nearest [of "- d"]
    nearest_even_neg [of "- d" "chop_nonneg (- d)"]
  by (simp add: chopPrecisionAndRound_def)

lemma chop_iff: "chopPrecisionAndRound d = r \<longleftrightarrow> nearest_even d r"
  using chop_nearest nearest_even_unique by blast

lemma chop_error: "2 * \<bar>d - chopPrecisionAndRound d * precisionReuse\<bar> \<le> precisionReuse"
  using chop_nearest [of d] by (auto simp: nearest_even_def)

lemma chop_whole [simp]: "chopPrecisionAndRound (i * precisionReuse) = i"
  by (simp add: chop_iff nearest_even_def precisionReuse_val)

section \<open>Arithmetic\<close>

lemma sdiv_error:
  assumes "(b::int) \<noteq> 0"
  shows "\<bar>a - a sdiv b * b\<bar> < \<bar>b\<bar>"
proof -
  have "a sdiv b * b = sgn a * (\<bar>a\<bar> div \<bar>b\<bar> * \<bar>b\<bar>)"
    by (simp add: signed_divide_int_def sgn_mult abs_sgn [of b] mult.assoc mult.left_commute)
  moreover have "a = sgn a * \<bar>a\<bar>" by (simp add: sgn_mult_abs)
  ultimately have "a - a sdiv b * b = sgn a * (\<bar>a\<bar> mod \<bar>b\<bar>)"
    by (metis minus_div_mult_eq_mod right_diff_distrib)
  also have "\<bar>\<dots>\<bar> \<le> \<bar>a\<bar> mod \<bar>b\<bar>" using assms by (simp add: abs_mult sgn_if)
  also have "\<dots> < \<bar>b\<bar>" using assms by simp
  finally show ?thesis .
qed

lemma Dec_Quo_value:
  "Dec_Quo d d2 = Some q \<Longrightarrow>
   d2 \<noteq> 0 \<and> q = chopPrecisionAndRound (d * precisionReuse * precisionReuse sdiv d2)"
  by (auto simp: Dec_Quo_def Let_def split: if_splits)

text \<open>Truncation followed by rounding: the quotient is within half a unit of the last place,
  plus one part in \<open>precisionReuse\<close>.\<close>

lemma Dec_Quo_error:
  assumes "Dec_Quo d d2 = Some q"
  shows "2 * precisionReuse * \<bar>d * precisionReuse - q * d2\<bar> < \<bar>d2\<bar> * (precisionReuse + 2)"
proof -
  let ?P = precisionReuse
  define t where "t = d * ?P * ?P sdiv d2"
  have d2: "d2 \<noteq> 0" and q: "q = chopPrecisionAndRound t"
    using Dec_Quo_value [OF assms] by (simp_all add: t_def)
  have r: "\<bar>d * ?P * ?P - t * d2\<bar> < \<bar>d2\<bar>" unfolding t_def using d2 by (rule sdiv_error)
  have "2 * \<bar>t * d2 - q * ?P * d2\<bar> = 2 * \<bar>t - q * ?P\<bar> * \<bar>d2\<bar>"
    by (simp add: abs_mult left_diff_distrib [symmetric])
  also have "\<dots> \<le> ?P * \<bar>d2\<bar>"
    using chop_error [of t] q by (intro mult_right_mono) auto
  finally have e: "2 * \<bar>t * d2 - q * ?P * d2\<bar> \<le> ?P * \<bar>d2\<bar>" .
  have "2 * \<bar>d * ?P * ?P - q * ?P * d2\<bar> \<le> 2 * \<bar>d * ?P * ?P - t * d2\<bar> + 2 * \<bar>t * d2 - q * ?P * d2\<bar>"
    by arith
  also have "\<dots> < \<bar>d2\<bar> * (?P + 2)" using r e by (simp add: algebra_simps)
  also have "d * ?P * ?P - q * ?P * d2 = ?P * (d * ?P - q * d2)" by (simp add: algebra_simps)
  also have "\<bar>\<dots>\<bar> = ?P * \<bar>d * ?P - q * d2\<bar>"
    unfolding abs_mult by (simp add: precisionReuse_val)
  finally show ?thesis by (simp only: mult.assoc)
qed

lemma NewDecFromInt_val [simp]: "NewDecFromInt i = Some (i * precisionReuse)"
  by (simp add: NewDecFromInt_def NewDecFromIntWithPrec_def precisionMultiplier_def
      calcPrecisionMultiplier_def Precision_def precisionReuse_def)

section \<open>Printing and parsing\<close>

lemma digits_no_dot: "list_all is_digit s \<Longrightarrow> CHR ''.'' \<notin> set s"
  by (auto simp: list_all_iff is_digit_def)

lemma digits_hd: "list_all is_digit s \<Longrightarrow> s \<noteq> [] \<Longrightarrow> hd s \<noteq> CHR ''-''"
  by (cases s) (auto simp: is_digit_def)

lemma Split_dot:
  "CHR ''.'' \<notin> set x \<Longrightarrow> CHR ''.'' \<notin> set y \<Longrightarrow> Split (x @ CHR ''.'' # y) (CHR ''.'') = [x, y]"
  by (simp add: Split_append_sep Split_no_sep)

lemma NewDecFromStr_parts:
  assumes "CHR ''.'' \<notin> set x" "CHR ''.'' \<notin> set y" "x \<noteq> []" "length y = 10"
  shows "hd x \<noteq> CHR ''-'' \<Longrightarrow> NewDecFromStr (x @ CHR ''.'' # y) =
      (case SetString10 (x @ y) of None \<Rightarrow> Inl ErrUnknownRequest | Some i \<Rightarrow> Inr i)"
    and "NewDecFromStr (CHR ''-'' # x @ CHR ''.'' # y) =
      (case SetString10 (x @ y) of None \<Rightarrow> Inl ErrUnknownRequest | Some i \<Rightarrow> Inr (- i))"
proof -
  have "y \<noteq> []" using assms(4) by auto
  then show "hd x \<noteq> CHR ''-'' \<Longrightarrow> NewDecFromStr (x @ CHR ''.'' # y) =
      (case SetString10 (x @ y) of None \<Rightarrow> Inl ErrUnknownRequest | Some i \<Rightarrow> Inr i)"
    and "NewDecFromStr (CHR ''-'' # x @ CHR ''.'' # y) =
      (case SetString10 (x @ y) of None \<Rightarrow> Inl ErrUnknownRequest | Some i \<Rightarrow> Inr (- i))"
    using assms by (simp_all add: NewDecFromStr_def Split_dot Precision_def Let_def split: option.split)
qed

lemma digits_val_zeros [simp]: "digits_val (replicate n (CHR ''0'')) = 0"
proof (induction n)
  case (Suc n)
  then show ?case
    using digits_val_append [of "replicate n (CHR ''0'')" "[CHR ''0'']"]
    by (simp add: replicate_append_same digit_val_def)
qed simp

lemma digits_zeros [simp]: "list_all is_digit (replicate n (CHR ''0''))"
  by (simp add: list_all_iff is_digit_def)

lemma utoa_parts:
  assumes "length (utoa n) > 10"
  obtains x y where "utoa n = x @ y" "x = take (length (utoa n) - 10) (utoa n)"
    "y = drop (length (utoa n) - 10) (utoa n)" "x \<noteq> []" "length y = 10"
proof
  let ?u = "utoa n"
  show "?u = take (length ?u - 10) ?u @ drop (length ?u - 10) ?u" by simp
  show "take (length ?u - 10) ?u \<noteq> []" "length (drop (length ?u - 10) ?u) = 10" using assms by auto
qed (rule refl)+

lemma Dec_parse_String_nonneg:
  assumes "0 \<le> d"
  shows "NewDecFromStr (Dec_String d) = Inr d"
proof (cases "length (utoa (nat d)) \<le> 10")
  case True
  let ?y = "replicate (10 - length (utoa (nat d))) (CHR ''0'') @ utoa (nat d)"
  have str: "Dec_String d = ''0'' @ CHR ''.'' # ?y" and len: "length ?y = 10"
    using True assms by (simp_all add: Dec_String_def itoa_def Let_def)
  have dig: "list_all is_digit (''0'' @ ?y)" by (simp add: is_digit_def)
  then have val: "SetString10 (''0'' @ ?y) = Some d"
    using assms is_digit_first [OF dig] digits_val_append [of "''0''" ?y]
      digits_val_append [of "replicate (10 - length (utoa (nat d))) (CHR ''0'')" "utoa (nat d)"]
    by (simp add: digit_val_def)
  show ?thesis
    unfolding str using NewDecFromStr_parts(1) [OF _ _ _ len, of "''0''"] dig val
    by (simp add: digits_no_dot)
next
  case False
  then have "length (utoa (nat d)) > 10" by simp
  then obtain x y where u: "utoa (nat d) = x @ y" and xy: "x = take (length (utoa (nat d)) - 10) (utoa (nat d))"
    "y = drop (length (utoa (nat d)) - 10) (utoa (nat d))" and ne: "x \<noteq> []" and len: "length y = 10"
    by (rule utoa_parts)
  have str: "Dec_String d = x @ CHR ''.'' # y"
    using False assms by (simp add: Dec_String_def itoa_def Let_def xy)
  have dig: "list_all is_digit x" "list_all is_digit y" using utoa_digits [of "nat d"] by (simp_all add: u)
  have "SetString10 (x @ y) = Some d"
    using assms is_digit_first [of "utoa (nat d)"] by (simp add: u [symmetric])
  then show ?thesis
    unfolding str using NewDecFromStr_parts(1) [OF digits_no_dot digits_no_dot ne len] dig
      digits_hd [OF dig(1) ne] by simp
qed

lemma Dec_parse_String_large_neg:
  assumes "d \<le> - precisionReuse"
  shows "NewDecFromStr (Dec_String d) = Inr d"
proof -
  have "length (utoa (nat (- d))) > 10"
    using assms utoa_length_le [of "nat (- d)" 9] by (simp add: precisionReuse_val) linarith
  then obtain x y where u: "utoa (nat (- d)) = x @ y"
    and xy: "x = take (length (utoa (nat (- d))) - 10) (utoa (nat (- d)))"
    "y = drop (length (utoa (nat (- d))) - 10) (utoa (nat (- d)))" and ne: "x \<noteq> []" and len: "length y = 10"
    by (rule utoa_parts)
  have "length (x @ y) > 10" using ne len by simp
  then have str: "Dec_String d = CHR ''-'' # x @ CHR ''.'' # y"
    using assms len by (simp add: Dec_String_def itoa_def Let_def precisionReuse_val u)
  have dig: "list_all is_digit x" "list_all is_digit y"
    using utoa_digits [of "nat (- d)"] by (simp_all add: u)
  have "SetString10 (x @ y) = Some (- d)"
    using assms is_digit_first [of "utoa (nat (- d))"]
    by (simp add: u [symmetric] precisionReuse_val)
  then show ?thesis
    unfolding str using NewDecFromStr_parts(2) [OF digits_no_dot digits_no_dot ne len] dig by simp
qed

text \<open>Between \<open>-1\<close> and \<open>0\<close> the minus sign lands behind the decimal point, or alone before it.\<close>

lemma Dec_parse_String_small_neg:
  assumes "- precisionReuse < d" "d < 0"
  shows "NewDecFromStr (Dec_String d) = Inl ErrUnknownRequest"
proof (cases "length (utoa (nat (- d))) = 10")
  case True
  then have "Dec_String d = CHR ''-'' # CHR ''.'' # utoa (nat (- d))"
    using assms by (simp add: Dec_String_def itoa_def Let_def)
  then show ?thesis
    using Split_append_sep [of "CHR ''.''" "[]" "utoa (nat (- d))"]
      Split_no_sep [OF digits_no_dot [OF utoa_digits]]
    by (simp add: NewDecFromStr_def)
next
  case False
  then have len: "length (utoa (nat (- d))) < 10"
    using assms utoa_length_le [of "nat (- d)" 9] by (simp add: precisionReuse_val) linarith
  let ?y = "replicate (9 - length (utoa (nat (- d)))) (CHR ''0'') @ CHR ''-'' # utoa (nat (- d))"
  have str: "Dec_String d = ''0'' @ CHR ''.'' # ?y"
    using len assms by (simp add: Dec_String_def itoa_def Let_def)
  have "SetString10 (''0'' @ ?y) = None"
    by (simp add: SetString10_def parse_digits_def)
  moreover have "CHR ''.'' \<notin> set ?y" using digits_no_dot [OF utoa_digits] by simp
  ultimately show ?thesis
    unfolding str using NewDecFromStr_parts(1) [of "''0''" ?y] len by simp
qed

end
