(* ===== verification/Rational.thy ===== *)
theory Rational
  imports Complex_Main Decimal
begin

text \<open>
  Component: \<open>src/types/rational.go\<close>, rationals over \<open>big.Rat\<close>.

  A \<open>big.Rat\<close> is a normalised fraction with a positive denominator, which is what
  \<open>quotient_of\<close> gives for a value of type \<open>rat\<close>. Panics are \<open>None\<close>; \<open>NewRatFromDecimal\<close> can
  panic as well as return an error, so it yields an optional sum.
\<close>

type_synonym Rat = rat

text \<open>\<open>big.Int.Int64\<close> keeps the low 64 bits.\<close>

definition big_Int64 :: "int \<Rightarrow> int" where
  "big_Int64 i = (i + 2 ^ 63) mod 2 ^ 64 - 2 ^ 63"

definition NewRat :: "int \<Rightarrow> int list \<Rightarrow> Rat option" where
  "NewRat num dens =
     (case dens of
        [] \<Rightarrow> Some (of_int num)
      | [d] \<Rightarrow> if d = 0 then None else Some (Fract num d)
      | _ \<Rightarrow> None)"

definition NewRatFromBigInt :: "int \<Rightarrow> int list \<Rightarrow> Rat option" where
  "NewRatFromBigInt num dens =
     (case dens of
        [] \<Rightarrow> Some (of_int num)
      | [d] \<Rightarrow> if d = 0 then None else Some (Fract num d)
      | _ \<Rightarrow> None)"

definition Rat_Num :: "Rat \<Rightarrow> int option" where
  "Rat_Num r = NewIntFromBigInt (fst (quotient_of r))"

definition Rat_Denom :: "Rat \<Rightarrow> int option" where
  "Rat_Denom r = NewIntFromBigInt (snd (quotient_of r))"

definition getNumeratorDenominator :: "string list \<Rightarrow> nat \<Rightarrow> sdk_error + string \<times> int" where
  "getNumeratorDenominator str prec =
     (case str of
        [a] \<Rightarrow> if length a = 0 then Inl ErrUnknownRequest else Inr (a, 1)
      | [a, b] \<Rightarrow>
          if length a = 0 \<or> length b = 0 then Inl ErrUnknownRequest
          else if length b > prec then Inl ErrUnknownRequest
          else Inr (a @ b, big_Int64 (10 ^ length b))
      | _ \<Rightarrow> Inl ErrUnknownRequest)"

text \<open>\<open>strconv.Atoi\<close> followed by \<open>SetString\<close> for numbers out of its range reads every signed
  decimal numeral. Negating within \<open>int\<close> wraps.\<close>

definition NewRatFromDecimal :: "string \<Rightarrow> nat \<Rightarrow> (sdk_error + Rat) option" where
  "NewRatFromDecimal decimalStr0 prec =
     (if length decimalStr0 = 0 then Some (Inl ErrUnknownRequest)
      else
        let neg = (hd decimalStr0 = CHR ''-'');
            decimalStr = (if neg then tl decimalStr0 else decimalStr0)
        in case getNumeratorDenominator (Split decimalStr (CHR ''.'')) prec of
             Inl e \<Rightarrow> Some (Inl e)
           | Inr (numStr, denom) \<Rightarrow>
               (case SetString10 numStr of
                  None \<Rightarrow> Some (Inl ErrUnknownRequest)
                | Some num \<Rightarrow>
                    if num < - (2 ^ 63) \<or> num \<ge> 2 ^ 63
                    then map_option Inr (NewRatFromBigInt (if neg then - num else num) [denom])
                    else map_option Inr (NewRat (if neg then big_Int64 (num * (- 1)) else num) [denom])))"

text \<open>\<open>big.Rat.FloatString\<close>: rounded to \<open>prec\<close> digits, halves away from zero.\<close>

definition FloatString :: "Rat \<Rightarrow> nat \<Rightarrow> string" where
  "FloatString x prec =
     (let (a, b) = quotient_of x in
      if b = 1 then itoa a @ (if prec > 0 then CHR ''.'' # replicate prec (CHR ''0'') else [])
      else
        let q = nat \<bar>a\<bar> div nat b; r0 = nat \<bar>a\<bar> mod nat b; p = 10 ^ prec;
            r = r0 * p div nat b; r2 = r0 * p mod nat b;
            (q, r) = (if nat b \<le> r2 + r2 then
                        (if r + 1 \<ge> p then (q + 1, r + 1 - p) else (q, r + 1))
                      else (q, r))
        in (if a < 0 then ''-'' else []) @ utoa q @
           (if prec > 0 then CHR ''.'' # replicate (prec - length (utoa r)) (CHR ''0'') @ utoa r else []))"

definition DecimalString :: "Rat \<Rightarrow> nat \<Rightarrow> string" where
  "DecimalString r prec =
     (let str = Split (FloatString r prec) (CHR ''.'') in
      if length str = 1 then hd str
      else
        let dot = rev (dropWhile (\<lambda>c. c = CHR ''0'') (rev (str ! 1))) in
        if length dot = 0 then hd str else hd str @ ''.'' @ dot)"

definition EvaluateBig :: "Rat \<Rightarrow> int" where
  "EvaluateBig r =
     (let (num, denom) = quotient_of r;
          d = num sdiv denom; rem = num smod denom
      in if rem = 0 then d
         else
           let tenNum = num * 10; tenD = d * 10;
               remainderDigit = tenNum sdiv denom - tenD;
               isFinalDigit = (tenNum smod denom = 0)
           in if isFinalDigit \<and> (remainderDigit = 5 \<or> remainderDigit = - 5) then d + d smod 2
              else if remainderDigit \<ge> 5 then d + 1
              else if remainderDigit \<le> - 5 then d - 1
              else d)"

definition Rat_RoundInt64 :: "Rat \<Rightarrow> int" where
  "Rat_RoundInt64 r = big_Int64 (EvaluateBig r)"

definition Rat_RoundInt :: "Rat \<Rightarrow> int option" where
  "Rat_RoundInt r = NewIntFromBigInt (EvaluateBig r)"

definition Rat_Round :: "Rat \<Rightarrow> int \<Rightarrow> Rat option" where
  "Rat_Round r precisionFactor =
     (let rTen = r * of_int precisionFactor in NewRat (Rat_RoundInt64 rTen) [precisionFactor])"

fun RatsEqual :: "Rat list \<Rightarrow> Rat list \<Rightarrow> bool" where
  "RatsEqual [] [] = True"
| "RatsEqual (a # as) (b # bs) = (a = b \<and> RatsEqual as bs)"
| "RatsEqual _ _ = False"

definition MinRat :: "Rat \<Rightarrow> Rat \<Rightarrow> Rat" where
  "MinRat r1 r2 = (if r1 < r2 then r1 else r2)"

lemma RatsEqual_iff: "RatsEqual r1s r2s \<longleftrightarrow> r1s = r2s"
  by (induction r1s r2s rule: RatsEqual.induct) auto

section \<open>Rounding\<close>

lemma sdiv_signed:
  assumes "0 < (b::int)" "0 \<le> n" "s = 1 \<or> s = - 1"
  shows "(s * n) sdiv b = s * (n div b)" "(s * n) smod b = s * (n mod b)"
  using assms
  by (auto simp: signed_divide_int_def signed_modulo_int_def sgn_if minus_div_mult_eq_mod
      pos_imp_zdiv_nonneg_iff)

lemma first_digit:
  assumes "0 < (b::int)" "0 \<le> n"
  shows "n * 10 div b - (n div b) * 10 = n mod b * 10 div b" "n * 10 mod b = n mod b * 10 mod b"
proof -
  have "n * 10 = n mod b * 10 + (n div b) * 10 * b"
    by (metis add.commute div_mult_mod_eq distrib_right mult.assoc mult.commute)
  then show "n * 10 div b - (n div b) * 10 = n mod b * 10 div b" "n * 10 mod b = n mod b * 10 mod b"
    using assms(1) by simp_all
qed

lemma half_by_digit:
  assumes "0 < (b::int)" "0 \<le> m" "m < b"
  shows "m * 10 mod b = 0 \<and> m * 10 div b = 5 \<longleftrightarrow> 2 * m = b" "5 \<le> m * 10 div b \<longleftrightarrow> b \<le> 2 * m"
proof -
  have e: "m * 10 = m * 10 div b * b + m * 10 mod b" by simp
  show "m * 10 mod b = 0 \<and> m * 10 div b = 5 \<longleftrightarrow> 2 * m = b"
  proof
    assume "m * 10 mod b = 0 \<and> m * 10 div b = 5"
    with e show "2 * m = b" by simp
  next
    assume "2 * m = b"
    then have "m * 10 = 5 * b" by simp
    then show "m * 10 mod b = 0 \<and> m * 10 div b = 5" using assms(1) by (simp only:) simp
  qed
  show "5 \<le> m * 10 div b \<longleftrightarrow> b \<le> 2 * m"
  proof
    assume "5 \<le> m * 10 div b"
    then have "5 * b \<le> m * 10 div b * b" using assms(1) by simp
    moreover have "0 \<le> m * 10 mod b" using assms(1) by simp
    ultimately show "b \<le> 2 * m" using e by linarith
  next
    assume le: "b \<le> 2 * m"
    show "5 \<le> m * 10 div b"
    proof (rule ccontr)
      assume "\<not> 5 \<le> m * 10 div b"
      then have "m * 10 div b * b \<le> 4 * b" using assms(1) by simp
      moreover have "m * 10 mod b < b" using assms(1) by simp
      ultimately show False using e le by linarith
    qed
  qed
qed

lemma EvaluateBig_parts:
  assumes "quotient_of r = (a, b)" "a = s * n" "s = 1 \<or> s = - 1" "0 \<le> n"
  shows "EvaluateBig r =
    s * (if 2 * (n mod b) < b \<or> 2 * (n mod b) = b \<and> even (n div b) then n div b else n div b + 1)"
proof -
  have b: "0 < b" using quotient_of_denom_pos [OF assms(1)] .
  define q m where "q = n div b" and "m = n mod b"
  have m: "0 \<le> m" "m < b" "0 \<le> q" using b assms(4) by (simp_all add: m_def q_def pos_imp_zdiv_nonneg_iff)
  have ten: "a * 10 = s * (n * 10)" by (simp add: assms(2))
  have dig: "a * 10 sdiv b - s * q * 10 = s * (m * 10 div b)"
    "a * 10 smod b = s * (m * 10 mod b)" "a sdiv b = s * q" "a smod b = s * m"
    unfolding ten unfolding assms(2) using sdiv_signed [OF b _ assms(3), of n] sdiv_signed [OF b _ assms(3), of "n * 10"]
      first_digit [OF b assms(4)] assms(3,4) by (auto simp: q_def m_def)
  have two: "(s * q) smod 2 = s * (q mod 2)" using sdiv_signed [of 2 q s] m(3) assms(3) by simp
  note h = half_by_digit [OF b m(1,2)]
  have "0 \<le> m * 10 div b" using m b by (simp add: pos_imp_zdiv_nonneg_iff)
  moreover have "EvaluateBig r = (if s * m = 0 then s * q
      else if m * 10 mod b = 0 \<and> (s * (m * 10 div b) = 5 \<or> s * (m * 10 div b) = - 5) then s * q + s * (q mod 2)
      else if s * (m * 10 div b) \<ge> 5 then s * q + 1
      else if s * (m * 10 div b) \<le> - 5 then s * q - 1
      else s * q)"
    unfolding EvaluateBig_def assms(1) Let_def prod.case dig two using assms(3) by simp
  ultimately show ?thesis
    unfolding q_def [symmetric] m_def [symmetric] using assms(3) h m b
    by (elim disjE) (auto simp: mod2_eq_if)
qed

definition rounds_to :: "Rat \<Rightarrow> int \<Rightarrow> bool" where
  "rounds_to r k \<longleftrightarrow> \<bar>r - of_int k\<bar> < 1 / 2 \<or> \<bar>r - of_int k\<bar> = 1 / 2 \<and> even k"

lemma rounds_to_unique:
  assumes "rounds_to r k" "rounds_to r l"
  shows "k = l"
proof (rule ccontr)
  assume "k \<noteq> l"
  have "\<bar>r - of_int k\<bar> \<le> 1 / 2" "\<bar>r - of_int l\<bar> \<le> 1 / 2" using assms by (auto simp: rounds_to_def)
  then have "\<bar>of_int k - of_int l :: rat\<bar> \<le> 1" by linarith
  then have "\<bar>k - l\<bar> \<le> 1" by linarith
  then consider "l = k + 1" | "k = l + 1" using \<open>k \<noteq> l\<close> by linarith
  then show False
    using assms by cases (auto simp: rounds_to_def abs_if field_simps split: if_splits)
qed

lemma rounds_to_sign:
  assumes "s = 1 \<or> s = - 1"
  shows "rounds_to (of_int s * r) (s * k) \<longleftrightarrow> rounds_to r k"
proof -
  have "of_int s * r - of_int (s * k) = of_int s * (r - of_int k)" by (simp add: right_diff_distrib)
  then have "\<bar>of_int s * r - of_int (s * k)\<bar> = \<bar>r - of_int k\<bar>" using assms by (auto simp: abs_mult)
  moreover have "even (s * k) \<longleftrightarrow> even k" using assms by auto
  ultimately show ?thesis by (simp add: rounds_to_def)
qed

lemma EvaluateBig_rounds: "rounds_to r (EvaluateBig r)"
proof -
  obtain a b where ab: "quotient_of r = (a, b)" by fastforce
  have b: "0 < b" using quotient_of_denom_pos [OF ab] .
  define s n where "s = (if a < 0 then - 1 else 1 :: int)" and "n = \<bar>a\<bar>"
  have a: "a = s * n" "s = 1 \<or> s = - 1" "0 \<le> n" by (auto simp: s_def n_def)
  define q m where "q = n div b" and "m = n mod b"
  have m: "0 \<le> m" "m < b" "n = q * b + m" using b by (simp_all add: q_def m_def)
  have "of_int n / of_int b = (of_int q + of_int m / of_int b :: rat)" using b m(3) by (simp add: field_simps)
  then have "r = of_int s * (of_int q + of_int m / of_int b)"
    using quotient_of_div [OF ab] by (simp add: a(1) flip: times_divide_eq_right)
  moreover have "rounds_to (of_int q + of_int m / of_int b) (if 2 * m < b \<or> 2 * m = b \<and> even q then q else q + 1)"
  proof -
    define f :: rat where "f = of_int m / of_int b"
    have "0 \<le> f" "f < 1" "f < 1 / 2 \<longleftrightarrow> 2 * m < b" "f = 1 / 2 \<longleftrightarrow> 2 * m = b"
      using m b by (auto simp: f_def field_simps simp flip: of_int_less_iff of_int_eq_iff)
    then show ?thesis unfolding f_def [symmetric] by (auto simp: rounds_to_def abs_if field_simps)
  qed
  ultimately show ?thesis
    using EvaluateBig_parts [OF ab a] rounds_to_sign [OF a(2)] by (simp only: q_def m_def)
qed

text \<open>C13: \<open>EvaluateBig\<close> is banker's rounding: the result is the integer nearest to the rational,
  and the even one when two are equally near.\<close>

theorem EvaluateBig_nearest_even:
  "EvaluateBig r = k \<longleftrightarrow> \<bar>r - of_int k\<bar> < 1 / 2 \<or> \<bar>r - of_int k\<bar> = 1 / 2 \<and> even k"
  using EvaluateBig_rounds [of r] rounds_to_unique [of r] unfolding rounds_to_def [symmetric] by blast

end
