(* ===== verification/Coinswap.thy ===== *)
theory Coinswap
  imports Bank Rational
begin

text \<open>
  Component: \<open>src/app/v2/coinswap\<close>, the constant-product exchange between \<open>iris-atto\<close> and other
  tokens: pools, swaps, liquidity, messages, handler, parameters and genesis.

  A pool is an account whose address is the hash of its id; it holds the two reserves and one
  liquidity voucher for every voucher minted. A nil reserve pool is the empty list. Tags are left
  out, but not the panic that computing the token pair of a tag can raise.
\<close>

section \<open>Errors\<close>

definition SwapCodespace :: string where
  "SwapCodespace = ''coinswap''"

definition ErrReservePoolNotExists :: sdk_error where
  "ErrReservePoolNotExists = SdkError SwapCodespace 101"

definition ErrEqualDenom :: sdk_error where
  "ErrEqualDenom = SdkError SwapCodespace 102"

definition ErrInvalidDeadline :: sdk_error where
  "ErrInvalidDeadline = SdkError SwapCodespace 103"

definition ErrNotPositive :: sdk_error where
  "ErrNotPositive = SdkError SwapCodespace 104"

definition ErrConstraintNotMet :: sdk_error where
  "ErrConstraintNotMet = SdkError SwapCodespace 105"

definition ErrIllegalDenom :: sdk_error where
  "ErrIllegalDenom = SdkError SwapCodespace 106"

definition ErrIllegalUniId :: sdk_error where
  "ErrIllegalUniId = SdkError SwapCodespace 107"

definition ErrInsufficientFunds_swap :: sdk_error where
  "ErrInsufficientFunds_swap = SdkError SwapCodespace 108"

section \<open>Pool ids and voucher denominations\<close>

definition GetUniId :: "string \<Rightarrow> string \<Rightarrow> sdk_error + string" where
  "GetUniId denom1 denom2 =
     (if denom1 = denom2 then Inl ErrEqualDenom
      else if denom1 \<noteq> IrisAtto \<and> denom2 \<noteq> IrisAtto then Inl ErrIllegalDenom
      else
        let denom = (if denom1 = IrisAtto then denom2 else denom1) in
        case GetCoinNameByDenom denom of
          None \<Rightarrow> Inl ErrIllegalDenom
        | Some coinName \<Rightarrow> Inr (FormatUniABSPrefix @ coinName))"

definition CheckUniDenom :: "string \<Rightarrow> sdk_error + unit" where
  "CheckUniDenom uniDenom =
     (if \<not> IsCoinMinDenomValid uniDenom \<or> \<not> HasPrefix uniDenom FormatUniABSPrefix
      then Inl ErrIllegalDenom else Inr ())"

definition CheckUniId :: "string \<Rightarrow> sdk_error + unit" where
  "CheckUniId uniId =
     (if \<not> IsCoinNameValid uniId \<or> \<not> HasPrefix uniId FormatUniABSPrefix
      then Inl ErrIllegalUniId else Inr ())"

definition GetCoinMinDenomFromUniDenom :: "string \<Rightarrow> sdk_error + string" where
  "GetCoinMinDenomFromUniDenom uniDenom =
     (case CheckUniDenom uniDenom of Inl e \<Rightarrow> Inl e
      | Inr _ \<Rightarrow> Inr (TrimPrefix uniDenom FormatUniABSPrefix))"

definition GetUniDenom :: "string \<Rightarrow> sdk_error + string" where
  "GetUniDenom uniId =
     (case CheckUniId uniId of Inl e \<Rightarrow> Inl e
      | Inr _ \<Rightarrow> (case GetCoinMinDenom uniId of None \<Rightarrow> Inl ErrIllegalUniId | Some uniDenom \<Rightarrow> Inr uniDenom))"

definition GetUniCoinType :: "string \<Rightarrow> sdk_error + CoinType" where
  "GetUniCoinType uniId =
     (case GetUniDenom uniId of Inl e \<Rightarrow> Inl e
      | Inr uniDenom \<Rightarrow>
          let units = [NewUnit uniId 0, NewUnit uniDenom 18]
          in Inr \<lparr>ct_Name = uniId, ct_MinUnit = units ! 1, ct_Units = units\<rparr>)"

section \<open>Parameters and genesis\<close>

record swap_state = auth_state +
  swapFee :: Rat

definition MaxFeePrecision :: nat where
  "MaxFeePrecision = 10"

definition feeKey :: string where
  "feeKey = ''fee''"

definition DefaultSwapFee :: Rat where
  "DefaultSwapFee = Fract 3 1000"

definition validateFee :: "Rat \<Rightarrow> sdk_error + unit" where
  "validateFee fee =
     (if \<not> fee > 0 then Inl ErrUnknownRequest
      else if \<not> fee < 1 then Inl ErrUnknownRequest
      else Inr ())"

definition SwapParams_Validate :: "string \<Rightarrow> string \<Rightarrow> (sdk_error + Rat) option" where
  "SwapParams_Validate key val =
     (if key = feeKey then
        (case NewRatFromDecimal val MaxFeePrecision of
           None \<Rightarrow> None
         | Some (Inl e) \<Rightarrow> Some (Inl e)
         | Some (Inr fee) \<Rightarrow> (case validateFee fee of Inl e \<Rightarrow> Some (Inl e) | Inr _ \<Rightarrow> Some (Inr fee)))
      else Some (Inl (SdkError ''params'' 111)))"

definition SwapInit :: "('z swap_state_scheme, unit) op" where
  "SwapInit = modify (\<lambda>s. s\<lparr>swapFee := DefaultSwapFee\<rparr>)"

definition SwapInitGenesis :: "Rat \<Rightarrow> ('z swap_state_scheme, unit) op" where
  "SwapInitGenesis fee =
     (case validateFee fee of Inl _ \<Rightarrow> panic | Inr _ \<Rightarrow> modify (\<lambda>s. s\<lparr>swapFee := fee\<rparr>))"

definition SwapExportGenesis :: "'z swap_state_scheme \<Rightarrow> Rat" where
  "SwapExportGenesis s = swapFee s"

section \<open>Prices\<close>

definition getInputPrice :: "int \<Rightarrow> int \<Rightarrow> int \<Rightarrow> Rat \<Rightarrow> int option" where
  "getInputPrice inputAmt inputReserve outputReserve fee =
     (let deltaFee = 1 - fee in
      do {
        num \<leftarrow> Rat_Num deltaFee;
        inputAmtWithFee \<leftarrow> Int_Mul inputAmt num;
        numerator \<leftarrow> Int_Mul inputAmtWithFee outputReserve;
        den \<leftarrow> Rat_Denom deltaFee;
        scaled \<leftarrow> Int_Mul inputReserve den;
        denominator \<leftarrow> Int_Add scaled inputAmtWithFee;
        Int_Div numerator denominator
      })"

definition getOutputPrice :: "int \<Rightarrow> int \<Rightarrow> int \<Rightarrow> Rat \<Rightarrow> int option" where
  "getOutputPrice outputAmt inputReserve outputReserve fee =
     (let deltaFee = 1 - fee in
      do {
        product \<leftarrow> Int_Mul inputReserve outputAmt;
        den \<leftarrow> Rat_Denom deltaFee;
        numerator \<leftarrow> Int_Mul product den;
        remaining \<leftarrow> Int_Sub outputReserve outputAmt;
        num \<leftarrow> Rat_Num deltaFee;
        denominator \<leftarrow> Int_Mul remaining num;
        quotient \<leftarrow> Int_Div numerator denominator;
        Int_Add quotient 1
      })"

section \<open>Swaps\<close>

record SwapInput =
  sin_Address :: AccAddress
  sin_Coin :: Coin

record SwapOutput =
  sout_Address :: AccAddress
  sout_Coin :: Coin

definition getReservePoolAddr :: "'e externals_scheme \<Rightarrow> string \<Rightarrow> AccAddress" where
  "getReservePoolAddr E uniDenom = AddressHash E uniDenom"

definition GetReservePool :: "'e externals_scheme \<Rightarrow> string \<Rightarrow> 'z swap_state_scheme \<Rightarrow> Coins" where
  "GetReservePool E uniId s =
     (case GetAccount (getReservePoolAddr E uniId) s of None \<Rightarrow> [] | Some acc \<Rightarrow> acc_Coins acc)"

definition swapCoins ::
  "'e externals_scheme \<Rightarrow> AccAddress \<Rightarrow> AccAddress \<Rightarrow> Coin \<Rightarrow> Coin \<Rightarrow> ('z swap_state_scheme, unit) op" where
  "swapCoins E sender recipient coinSold coinBought =
     bind_op (lift_res (GetUniId (Denom coinSold) (Denom coinBought))) (\<lambda>uniId.
     let poolAddr = getReservePoolAddr E uniId in
     bind_op (lift_go (NewCoins [coinSold])) (\<lambda>sold.
     bind_op (sendCoins E sender poolAddr sold) (\<lambda>_.
     let recipient = (if recipient = [] then sender else recipient) in
     bind_op (lift_go (NewCoins [coinBought])) (\<lambda>bought.
     bind_op (sendCoins E poolAddr recipient bought) (\<lambda>_.
     ret ())))))"

definition calculateWithExactInput ::
  "'e externals_scheme \<Rightarrow> Coin \<Rightarrow> string \<Rightarrow> ('z swap_state_scheme, int) op" where
  "calculateWithExactInput E exactSoldCoin boughtTokenDenom =
     bind_op (lift_res (GetUniId (Denom exactSoldCoin) boughtTokenDenom)) (\<lambda>uniId.
     bind_op (gets (GetReservePool E uniId)) (\<lambda>reservePool.
     if reservePool = [] then fail ErrReservePoolNotExists
     else
       let inputReserve = AmountOf reservePool (Denom exactSoldCoin);
           outputReserve = AmountOf reservePool boughtTokenDenom in
       if \<not> inputReserve > 0 then fail ErrInsufficientFunds_swap
       else if \<not> outputReserve > 0 then fail ErrInsufficientFunds_swap
       else
         bind_op (gets swapFee) (\<lambda>fee.
         lift_go (getInputPrice (Amount exactSoldCoin) inputReserve outputReserve fee))))"

definition tradeExactInputForOutput ::
  "'e externals_scheme \<Rightarrow> SwapInput \<Rightarrow> SwapOutput \<Rightarrow> ('z swap_state_scheme, int) op" where
  "tradeExactInputForOutput E input output =
     bind_op (calculateWithExactInput E (sin_Coin input) (Denom (sout_Coin output))) (\<lambda>boughtTokenAmt.
     if boughtTokenAmt < Amount (sout_Coin output) then fail ErrConstraintNotMet
     else
       bind_op (lift_go (NewCoin (Denom (sout_Coin output)) boughtTokenAmt)) (\<lambda>boughtToken.
       bind_op (swapCoins E (sin_Address input) (sout_Address output) (sin_Coin input) boughtToken) (\<lambda>_.
       ret boughtTokenAmt)))"

definition doubleTradeExactInputForOutput ::
  "'e externals_scheme \<Rightarrow> SwapInput \<Rightarrow> SwapOutput \<Rightarrow> ('z swap_state_scheme, int) op" where
  "doubleTradeExactInputForOutput E input output =
     bind_op (calculateWithExactInput E (sin_Coin input) IrisAtto) (\<lambda>nativeAmount.
     bind_op (lift_go (NewCoin IrisAtto nativeAmount)) (\<lambda>nativeCoin.
     bind_op (swapCoins E (sin_Address input) (sout_Address output) (sin_Coin input) nativeCoin) (\<lambda>_.
     bind_op (calculateWithExactInput E nativeCoin (Denom (sout_Coin output))) (\<lambda>boughtAmt.
     bind_op (lift_go (NewCoin (Denom (sout_Coin output)) boughtAmt)) (\<lambda>boughtToken.
     if boughtAmt < Amount (sout_Coin output) then fail ErrConstraintNotMet
     else
       bind_op (swapCoins E (sin_Address input) (sout_Address output) nativeCoin boughtToken) (\<lambda>_.
       ret boughtAmt))))))"

definition calculateWithExactOutput ::
  "'e externals_scheme \<Rightarrow> Coin \<Rightarrow> string \<Rightarrow> ('z swap_state_scheme, int) op" where
  "calculateWithExactOutput E exactBoughtCoin soldTokenDenom =
     (case GetUniId (Denom exactBoughtCoin) soldTokenDenom of
        Inl _ \<Rightarrow> fail ErrReservePoolNotExists
      | Inr uniId \<Rightarrow>
          bind_op (gets (GetReservePool E uniId)) (\<lambda>reservePool.
          if reservePool = [] then fail ErrReservePoolNotExists
          else
            let outputReserve = AmountOf reservePool (Denom exactBoughtCoin);
                inputReserve = AmountOf reservePool soldTokenDenom in
            if \<not> inputReserve > 0 then fail ErrInsufficientFunds_swap
            else if \<not> outputReserve > 0 then fail ErrInsufficientFunds_swap
            else if Amount exactBoughtCoin \<ge> outputReserve then fail ErrInsufficientFunds_swap
            else
              bind_op (gets swapFee) (\<lambda>fee.
              lift_go (getOutputPrice (Amount exactBoughtCoin) inputReserve outputReserve fee))))"

definition tradeInputForExactOutput ::
  "'e externals_scheme \<Rightarrow> SwapInput \<Rightarrow> SwapOutput \<Rightarrow> ('z swap_state_scheme, int) op" where
  "tradeInputForExactOutput E input output =
     bind_op (calculateWithExactOutput E (sout_Coin output) (Denom (sin_Coin input))) (\<lambda>soldTokenAmt.
     if soldTokenAmt > Amount (sin_Coin input) then fail ErrConstraintNotMet
     else
       bind_op (lift_go (NewCoin (Denom (sin_Coin input)) soldTokenAmt)) (\<lambda>soldToken.
       bind_op (swapCoins E (sin_Address input) (sout_Address output) soldToken (sout_Coin output)) (\<lambda>_.
       ret soldTokenAmt)))"

definition doubleTradeInputForExactOutput ::
  "'e externals_scheme \<Rightarrow> SwapInput \<Rightarrow> SwapOutput \<Rightarrow> ('z swap_state_scheme, int) op" where
  "doubleTradeInputForExactOutput E input output =
     bind_op (calculateWithExactOutput E (sout_Coin output) IrisAtto) (\<lambda>soldIrisAmount.
     bind_op (lift_go (NewCoin IrisAtto soldIrisAmount)) (\<lambda>soldIrisCoin.
     bind_op (calculateWithExactOutput E soldIrisCoin (Denom (sin_Coin input))) (\<lambda>soldTokenAmt.
     bind_op (lift_go (NewCoin (Denom (sin_Coin input)) soldTokenAmt)) (\<lambda>soldTokenCoin.
     if soldTokenAmt > Amount (sin_Coin input) then fail ErrConstraintNotMet
     else
       bind_op (swapCoins E (sin_Address input) (sout_Address output) soldTokenCoin soldIrisCoin) (\<lambda>_.
       bind_op (swapCoins E (sin_Address input) (sout_Address output) soldIrisCoin (sout_Coin output)) (\<lambda>_.
       ret soldTokenAmt))))))"

record MsgSwapOrder =
  so_Input :: SwapInput
  so_Output :: SwapOutput
  so_Deadline :: int
  so_IsBuyOrder :: bool

definition getTokenPairByDenom :: "string \<Rightarrow> string \<Rightarrow> string option" where
  "getTokenPairByDenom inputDenom outputDenom =
     do {
       inputToken \<leftarrow> GetCoinNameByDenom inputDenom;
       outputToken \<leftarrow> GetCoinNameByDenom outputDenom;
       Some (outputToken @ ''-'' @ inputToken)
     }"

definition HandleSwap :: "'e externals_scheme \<Rightarrow> MsgSwapOrder \<Rightarrow> ('z swap_state_scheme, int) op" where
  "HandleSwap E msg =
     (let input = so_Input msg; output = so_Output msg;
          isDoubleSwap = (Denom (sin_Coin input) \<noteq> IrisAtto \<and> Denom (sout_Coin output) \<noteq> IrisAtto) in
      bind_op
        (if so_IsBuyOrder msg \<and> isDoubleSwap then doubleTradeInputForExactOutput E input output
         else if so_IsBuyOrder msg then tradeInputForExactOutput E input output
         else if isDoubleSwap then doubleTradeExactInputForOutput E input output
         else tradeExactInputForOutput E input output) (\<lambda>amount.
      bind_op (lift_go (getTokenPairByDenom (Denom (sin_Coin input)) (Denom (sout_Coin output)))) (\<lambda>_.
      ret amount)))"

section \<open>Liquidity\<close>

record MsgAddLiquidity =
  al_MaxToken :: Coin
  al_ExactIrisAmt :: int
  al_MinLiquidity :: int
  al_Deadline :: int
  al_Sender :: AccAddress

record MsgRemoveLiquidity =
  rl_MinToken :: int
  rl_WithdrawLiquidity :: Coin
  rl_MinIrisAmt :: int
  rl_Deadline :: int
  rl_Sender :: AccAddress

definition addLiquidity ::
  "'e externals_scheme \<Rightarrow> AccAddress \<Rightarrow> Coin \<Rightarrow> Coin \<Rightarrow> string \<Rightarrow> int \<Rightarrow> ('z swap_state_scheme, unit) op" where
  "addLiquidity E sender irisCoin token uniId mintLiquidityAmt =
     bind_op (lift_go (NewCoins [irisCoin, token])) (\<lambda>depositedTokens.
     let poolAddr = getReservePoolAddr E uniId in
     bind_op (sendCoins E sender poolAddr depositedTokens) (\<lambda>_.
     bind_op (lift_res (GetUniDenom uniId)) (\<lambda>uniDenom.
     bind_op (lift_go (NewCoin uniDenom mintLiquidityAmt)) (\<lambda>uniCoin.
     bind_op (lift_go (NewCoins [uniCoin])) (\<lambda>mintToken.
     bind_op (ignore_err (addCoins E poolAddr mintToken)) (\<lambda>_.
     ignore_err (addCoins E sender mintToken)))))))"

text \<open>The minted vouchers and the deposited token for an iris amount; an error is \<open>Inl\<close>.\<close>

definition liquidity_terms ::
  "int \<Rightarrow> int \<Rightarrow> int \<Rightarrow> MsgAddLiquidity \<Rightarrow> (sdk_error + int \<times> Coin) option" where
  "liquidity_terms irisReserveAmt tokenReserveAmt liquidity msg =
     (if liquidity = 0 then
        map_option (\<lambda>c. Inr (al_ExactIrisAmt msg, c))
          (NewCoin (Denom (al_MaxToken msg)) (Amount (al_MaxToken msg)))
      else
        do {
          product \<leftarrow> Int_Mul liquidity (al_ExactIrisAmt msg);
          mintLiquidityAmt \<leftarrow> Int_Div product irisReserveAmt;
          if mintLiquidityAmt < al_MinLiquidity msg then Some (Inl ErrConstraintNotMet)
          else do {
            product \<leftarrow> Int_Mul tokenReserveAmt (al_ExactIrisAmt msg);
            quotient \<leftarrow> Int_Div product irisReserveAmt;
            depositAmt \<leftarrow> Int_Add quotient 1;
            depositToken \<leftarrow> NewCoin (Denom (al_MaxToken msg)) depositAmt;
            if depositAmt > Amount (al_MaxToken msg) then Some (Inl ErrConstraintNotMet)
            else Some (Inr (mintLiquidityAmt, depositToken))
          }
        })"

definition HandleAddLiquidity ::
  "'e externals_scheme \<Rightarrow> MsgAddLiquidity \<Rightarrow> ('z swap_state_scheme, unit) op" where
  "HandleAddLiquidity E msg =
     bind_op (lift_res (GetUniId IrisAtto (Denom (al_MaxToken msg)))) (\<lambda>uniId.
     bind_op (lift_res (GetUniDenom uniId)) (\<lambda>uniDenom.
     bind_op (gets (GetReservePool E uniId)) (\<lambda>reservePool.
     let irisReserveAmt = AmountOf reservePool IrisAtto;
         tokenReserveAmt = AmountOf reservePool (Denom (al_MaxToken msg));
         liquidity = AmountOf reservePool uniDenom in
     bind_op (lift_go (NewCoin IrisAtto (al_ExactIrisAmt msg))) (\<lambda>irisCoin.
     bind_op (lift_go (liquidity_terms irisReserveAmt tokenReserveAmt liquidity msg)) (\<lambda>terms.
     bind_op (lift_res terms) (\<lambda>(mintLiquidityAmt, depositToken).
     bind_op (lift_go (getTokenPairByDenom (Denom (al_MaxToken msg)) IrisAtto)) (\<lambda>_.
     addLiquidity E (al_Sender msg) irisCoin depositToken uniId mintLiquidityAmt)))))))"

definition removeLiquidity ::
  "'e externals_scheme \<Rightarrow> AccAddress \<Rightarrow> AccAddress \<Rightarrow> Coin \<Rightarrow> Coin \<Rightarrow> Coin \<Rightarrow> ('z swap_state_scheme, unit) op" where
  "removeLiquidity E poolAddr sender deductUniCoin irisWithdrawCoin tokenWithdrawCoin =
     bind_op (lift_go (NewCoins [deductUniCoin])) (\<lambda>deltaCoins.
     bind_op (subtractCoins poolAddr deltaCoins) (\<lambda>_.
     bind_op (subtractCoins sender deltaCoins) (\<lambda>_.
     bind_op (lift_go (NewCoins [irisWithdrawCoin, tokenWithdrawCoin])) (\<lambda>coins.
     bind_op (sendCoins E poolAddr sender coins) (\<lambda>_.
     ret ())))))"

definition withdrawn_amount :: "int \<Rightarrow> int \<Rightarrow> int \<Rightarrow> int option" where
  "withdrawn_amount withdraw reserve liquidityReserve =
     do { product \<leftarrow> Int_Mul withdraw reserve; Int_Div product liquidityReserve }"

definition HandleRemoveLiquidity ::
  "'e externals_scheme \<Rightarrow> MsgRemoveLiquidity \<Rightarrow> ('z swap_state_scheme, unit) op" where
  "HandleRemoveLiquidity E msg =
     (let uniDenom = Denom (rl_WithdrawLiquidity msg); withdraw = Amount (rl_WithdrawLiquidity msg) in
      case GetCoinNameByDenom uniDenom of None \<Rightarrow> fail ErrIllegalDenom
      | Some uniId \<Rightarrow>
        bind_op (lift_res (GetCoinMinDenomFromUniDenom uniDenom)) (\<lambda>minTokenDenom.
        bind_op (gets (GetReservePool E uniId)) (\<lambda>reservePool.
        if reservePool = [] then fail ErrReservePoolNotExists
        else
          let irisReserveAmt = AmountOf reservePool IrisAtto;
              tokenReserveAmt = AmountOf reservePool minTokenDenom;
              liquidityReserve = AmountOf reservePool uniDenom in
          if irisReserveAmt < rl_MinIrisAmt msg then fail ErrInsufficientFunds_swap
          else if tokenReserveAmt < rl_MinToken msg then fail ErrInsufficientFunds_swap
          else if liquidityReserve < withdraw then fail ErrInsufficientFunds_swap
          else
            bind_op (lift_go (withdrawn_amount withdraw irisReserveAmt liquidityReserve)) (\<lambda>irisWithdrawnAmt.
            bind_op (lift_go (withdrawn_amount withdraw tokenReserveAmt liquidityReserve)) (\<lambda>tokenWithdrawnAmt.
            bind_op (lift_go (NewCoin IrisAtto irisWithdrawnAmt)) (\<lambda>irisWithdrawCoin.
            bind_op (lift_go (NewCoin minTokenDenom tokenWithdrawnAmt)) (\<lambda>tokenWithdrawCoin.
            if Amount irisWithdrawCoin < rl_MinIrisAmt msg then fail ErrConstraintNotMet
            else if Amount tokenWithdrawCoin < rl_MinToken msg then fail ErrConstraintNotMet
            else
              bind_op (lift_go (getTokenPairByDenom minTokenDenom IrisAtto)) (\<lambda>_.
              removeLiquidity E (getReservePoolAddr E uniId) (rl_Sender msg) (rl_WithdrawLiquidity msg)
                irisWithdrawCoin tokenWithdrawCoin))))))))"

section \<open>Messages and handler\<close>

definition MsgSwapOrder_ValidateBasic :: "MsgSwapOrder \<Rightarrow> sdk_error + unit" where
  "MsgSwapOrder_ValidateBasic msg =
     (let incoin = sin_Coin (so_Input msg); outcoin = sout_Coin (so_Output msg) in
      if \<not> (Coin_IsValid incoin \<and> Coin_IsPositive incoin) then Inl ErrInvalidCoins
      else if HasPrefix (Denom incoin) FormatUniABSPrefix then Inl ErrInvalidCoins
      else if \<not> (Coin_IsValid outcoin \<and> Coin_IsPositive outcoin) then Inl ErrInvalidCoins
      else if HasPrefix (Denom outcoin) FormatUniABSPrefix then Inl ErrInvalidCoins
      else if Denom incoin = Denom outcoin then Inl ErrEqualDenom
      else if so_Deadline msg \<le> 0 then Inl ErrInvalidDeadline
      else if sin_Address (so_Input msg) = [] then Inl ErrInvalidAddress
      else Inr ())"

definition MsgAddLiquidity_ValidateBasic :: "MsgAddLiquidity \<Rightarrow> sdk_error + unit" where
  "MsgAddLiquidity_ValidateBasic msg =
     (if \<not> (Coin_IsValid (al_MaxToken msg) \<and> Coin_IsPositive (al_MaxToken msg)) then Inl ErrInvalidCoins
      else if Denom (al_MaxToken msg) = IrisAtto then Inl ErrInvalidCoins
      else if HasPrefix (Denom (al_MaxToken msg)) FormatUniABSPrefix then Inl ErrInvalidCoins
      else if \<not> al_ExactIrisAmt msg > 0 then Inl ErrNotPositive
      else if al_MinLiquidity msg < 0 then Inl ErrNotPositive
      else if al_Deadline msg \<le> 0 then Inl ErrInvalidDeadline
      else if al_Sender msg = [] then Inl ErrInvalidAddress
      else Inr ())"

definition MsgRemoveLiquidity_ValidateBasic :: "MsgRemoveLiquidity \<Rightarrow> sdk_error + unit" where
  "MsgRemoveLiquidity_ValidateBasic msg =
     (if rl_MinToken msg < 0 then Inl ErrInvalidCoins
      else if \<not> Coin_IsValid (rl_WithdrawLiquidity msg) \<or> \<not> Coin_IsPositive (rl_WithdrawLiquidity msg)
        then Inl ErrNotPositive
      else case CheckUniDenom (Denom (rl_WithdrawLiquidity msg)) of
        Inl e \<Rightarrow> Inl e
      | Inr _ \<Rightarrow>
          if rl_MinIrisAmt msg < 0 then Inl ErrNotPositive
          else if rl_Deadline msg \<le> 0 then Inl ErrInvalidDeadline
          else if rl_Sender msg = [] then Inl ErrInvalidAddress
          else Inr ())"

text \<open>A Go \<open>time.Time\<close> as seconds since year 1 and nanoseconds; \<open>time.Unix\<close> shifts within \<open>int64\<close>.\<close>

definition time_Unix :: "int \<Rightarrow> int \<times> int" where
  "time_Unix sec = (big_Int64 (sec + 62135596800), 0)"

definition time_After :: "int \<times> int \<Rightarrow> int \<times> int \<Rightarrow> bool" where
  "time_After t u \<longleftrightarrow> fst t > fst u \<or> fst t = fst u \<and> snd t > snd u"

definition HandleMsgSwapOrder ::
  "'e externals_scheme \<Rightarrow> int \<times> int \<Rightarrow> MsgSwapOrder \<Rightarrow> ('z swap_state_scheme, unit) op" where
  "HandleMsgSwapOrder E now msg =
     (if time_After now (time_Unix (so_Deadline msg)) then fail ErrInvalidDeadline
      else bind_op (HandleSwap E msg) (\<lambda>_. ret ()))"

definition HandleMsgAddLiquidity ::
  "'e externals_scheme \<Rightarrow> int \<times> int \<Rightarrow> MsgAddLiquidity \<Rightarrow> ('z swap_state_scheme, unit) op" where
  "HandleMsgAddLiquidity E now msg =
     (if time_After now (time_Unix (al_Deadline msg)) then fail ErrInvalidDeadline
      else HandleAddLiquidity E msg)"

definition HandleMsgRemoveLiquidity ::
  "'e externals_scheme \<Rightarrow> int \<times> int \<Rightarrow> MsgRemoveLiquidity \<Rightarrow> ('z swap_state_scheme, unit) op" where
  "HandleMsgRemoveLiquidity E now msg =
     (if time_After now (time_Unix (rl_Deadline msg)) then fail ErrInvalidDeadline
      else HandleRemoveLiquidity E msg)"

datatype SwapMsg = SwapOrder MsgSwapOrder | AddLiq MsgAddLiquidity | RemoveLiq MsgRemoveLiquidity

definition SwapHandler ::
  "'e externals_scheme \<Rightarrow> int \<times> int \<Rightarrow> SwapMsg \<Rightarrow> ('z swap_state_scheme, unit) op" where
  "SwapHandler E now msg =
     (case msg of SwapOrder m \<Rightarrow> HandleMsgSwapOrder E now m
      | AddLiq m \<Rightarrow> HandleMsgAddLiquidity E now m
      | RemoveLiq m \<Rightarrow> HandleMsgRemoveLiquidity E now m)"

definition SwapMsg_ValidateBasic :: "SwapMsg \<Rightarrow> sdk_error + unit" where
  "SwapMsg_ValidateBasic msg =
     (case msg of SwapOrder m \<Rightarrow> MsgSwapOrder_ValidateBasic m
      | AddLiq m \<Rightarrow> MsgAddLiquidity_ValidateBasic m
      | RemoveLiq m \<Rightarrow> MsgRemoveLiquidity_ValidateBasic m)"

end
