(* ===== verification/Coinswap_Prices.thy ===== *)
theory Coinswap_Prices
  imports Coinswap
begin

text \<open>
  Facts about the exchange of \<open>src/app/v2/coinswap\<close>: what a swap does to the ledger, and that
  the product of a pool's reserves never falls.
\<close>

section \<open>Constant product\<close>

lemma delta_parts:
  assumes "0 < fee" "fee < 1" "quotient_of (1 - fee) = (n, d)"
  shows "0 < n" "n < d"
proof -
  have d: "0 < d" using quotient_of_denom_pos [OF assms(3)] .
  have "1 - fee = of_int n / of_int d" using quotient_of_div [OF assms(3)] .
  with assms(1,2) have "0 < (of_int n / of_int d :: rat)" "(of_int n / of_int d :: rat) < 1" by linarith+
  with d show "0 < n" "n < d" by (simp_all add: zero_less_divide_iff)
qed

text \<open>Selling pays out less than the reserve and never lowers the product of the reserves.\<close>

lemma getInputPrice_product:
  assumes "getInputPrice x i j fee = Some y" "0 < fee" "fee < 1" "0 < i" "0 < j" "0 \<le> x"
  shows "0 \<le> y" "y < j" "i * j \<le> (i + x) * (j - y)"
proof -
  obtain n d where q: "quotient_of (1 - fee) = (n, d)" by fastforce
  note nd = delta_parts [OF assms(2,3) q]
  let ?D = "i * d + x * n"
  have "0 < i * d" using assms(4) nd by simp
  moreover have "0 \<le> x * n" using assms(6) nd by simp
  ultimately have D: "0 < ?D" by simp
  have y: "y = x * n * j div ?D"
    using assms(1) D
    by (auto simp: getInputPrice_def Let_def Rat_Num_def Rat_Denom_def q bind_eq_Some_conv Int_Div_pos
        dest!: Int_Mul_Some_imp)
  have le: "y * ?D \<le> x * n * j" unfolding y using D by (simp add: pos_mod_sign minus_mod_eq_div_mult [symmetric])
  show y0: "0 \<le> y" unfolding y using D assms nd by (simp add: pos_imp_zdiv_nonneg_iff)
  show yj: "y < j"
  proof (rule ccontr)
    assume "\<not> y < j"
    then have "j * ?D \<le> y * ?D" using D by (intro mult_right_mono) simp_all
    with le have "j * (i * d) \<le> 0" by (simp add: algebra_simps)
    moreover have "0 < j * (i * d)" using assms(4,5) nd by simp
    ultimately show False by simp
  qed
  have "y * (x * (d - n)) \<le> j * (x * (d - n))"
    using yj assms(6) nd by (intro mult_right_mono) simp_all
  with le have "y * (i * d + x * d) \<le> x * d * j" by (simp add: algebra_simps)
  then have "d * (i * j) \<le> d * ((i + x) * (j - y))" by (simp add: algebra_simps)
  then show "i * j \<le> (i + x) * (j - y)" using nd by simp
qed

text \<open>Buying charges a positive amount and raises the product.\<close>

lemma getOutputPrice_product:
  assumes "getOutputPrice y i j fee = Some x" "0 < fee" "fee < 1" "0 < i" "0 \<le> y" "y < j"
  shows "0 < x" "i * j < (i + x) * (j - y)"
proof -
  obtain n d where q: "quotient_of (1 - fee) = (n, d)" by fastforce
  note nd = delta_parts [OF assms(2,3) q]
  let ?D = "(j - y) * n"
  have D: "0 < ?D" using assms(6) nd by simp
  have x: "x = i * y * d div ?D + 1"
    using assms(1) D
    by (auto simp: getOutputPrice_def Let_def Rat_Num_def Rat_Denom_def q bind_eq_Some_conv Int_Div_pos
        dest!: Int_Mul_Some_imp)
  show "0 < x" unfolding x using D assms nd by (simp add: pos_imp_zdiv_nonneg_iff add_nonneg_pos)
  have "i * y * d mod ?D < ?D" using D by simp
  moreover have "i * y * d = i * y * d div ?D * ?D + i * y * d mod ?D" by (rule div_mult_mod_eq [symmetric])
  moreover have "x * ?D = i * y * d div ?D * ?D + ?D" unfolding x by (simp add: distrib_right)
  ultimately have "i * y * d < x * ?D" by linarith
  moreover have "i * y * n \<le> i * y * d" using assms nd by (intro mult_left_mono) simp_all
  ultimately have "i * y * n < x * (j - y) * n" by (simp add: mult.assoc)
  then have "i * y < x * (j - y)" using nd by simp
  then show "i * j < (i + x) * (j - y)" by (simp add: algebra_simps)
qed

section \<open>Effects on the ledger\<close>

lemma bal_insort: "bal (insort_key Denom c cs) d = bal (c # cs) d"
  by (induction cs) simp_all

lemma bal_Sort [simp]: "bal (Coins_Sort cs) d = bal cs d"
  unfolding Coins_Sort_def by (induction cs) (simp_all add: bal_insort)

lemma NewCoins_bal: "NewCoins cs = Some x \<Longrightarrow> bal x = bal cs"
proof -
  assume "NewCoins cs = Some x"
  moreover have "bal (removeZeroCoins cs) d = bal cs d" for d by (simp add: removeZeroCoins_filter)
  ultimately show ?thesis
    by (auto simp: NewCoins_def Let_def fun_eq_iff split: if_splits)
qed

lemma credit_cong: "bal x = bal y \<Longrightarrow> credit a x = credit a y"
  and debit_cong: "bal x = bal y \<Longrightarrow> debit a x = debit a y"
  by (simp_all add: credit_def debit_def fun_eq_iff)

lemma pool_getCoins: "GetReservePool E uniId s = getCoins (getReservePoolAddr E uniId) s"
  by (simp add: GetReservePool_def getCoins_def)

lemma pool_amount:
  assumes "accounts_ok s"
  shows "AmountOf (GetReservePool E uniId s) d = balance (getReservePoolAddr E uniId) d s"
  using getCoins_holding [OF assms, of "getReservePoolAddr E uniId"]
  by (simp add: pool_getCoins AmountOf_bal holding_def getCoins_balance)

lemma sendCoins_spec:
  assumes "sendCoins E a b amt s = Ok amt' t" "accounts_ok s"
  shows "accounts_ok t" "ledger t = credit b amt (debit a amt (ledger s))"
    "auth_state.more t = auth_state.more s" "\<And>d. total_coins d t = total_coins d s"
  using assms(2,1) by (cases rule: sendCoins_cases [of s E a b amt]; simp add: rest_of_def)+

definition transfer :: "AccAddress \<Rightarrow> AccAddress \<Rightarrow> string \<Rightarrow> int \<Rightarrow> ledger \<Rightarrow> ledger" where
  "transfer a b d n L = credit b [\<lparr>Denom = d, Amount = n\<rparr>] (debit a [\<lparr>Denom = d, Amount = n\<rparr>] L)"

lemma transfer_apply:
  "transfer a b d n L c e =
     L c e + (if c = b \<and> e = d then n else 0) - (if c = a \<and> e = d then n else 0)"
  by (simp add: transfer_def credit_def debit_def)

lemma send_one:
  assumes "NewCoins [c] = Some x" "sendCoins E a b x s = Ok amt' t" "accounts_ok s"
  shows "accounts_ok t" "ledger t = transfer a b (Denom c) (Amount c) (ledger s)"
    "auth_state.more t = auth_state.more s" "\<And>e. total_coins e t = total_coins e s"
proof -
  have "bal x = bal [\<lparr>Denom = Denom c, Amount = Amount c\<rparr>]"
    using NewCoins_bal [OF assms(1)] by (simp add: fun_eq_iff)
  then show "ledger t = transfer a b (Denom c) (Amount c) (ledger s)"
    unfolding transfer_def sendCoins_spec(2) [OF assms(2,3)] by (metis credit_cong debit_cong)
qed (use sendCoins_spec [OF assms(2,3)] in simp_all)

definition recipient_of :: "AccAddress \<Rightarrow> AccAddress \<Rightarrow> AccAddress" where
  "recipient_of sender recipient = (if recipient = [] then sender else recipient)"

lemma swapCoins_spec:
  assumes "swapCoins E a r sold bought s = Ok u t" "accounts_ok s"
  obtains uniId where "GetUniId (Denom sold) (Denom bought) = Inr uniId"
    "accounts_ok t" "auth_state.more t = auth_state.more s" "\<And>d. total_coins d t = total_coins d s"
    "ledger t = transfer (getReservePoolAddr E uniId) (recipient_of a r) (Denom bought) (Amount bought)
       (transfer a (getReservePoolAddr E uniId) (Denom sold) (Amount sold) (ledger s))"
proof -
  obtain uniId x y s1 am1 am2 where u: "GetUniId (Denom sold) (Denom bought) = Inr uniId"
    and x: "NewCoins [sold] = Some x"
      "sendCoins E a (getReservePoolAddr E uniId) x s = Ok am1 s1"
    and y: "NewCoins [bought] = Some y"
      "sendCoins E (getReservePoolAddr E uniId) (recipient_of a r) y s1 = Ok am2 t"
    using assms(1) by (auto simp: swapCoins_def Let_def recipient_of_def)
  note 1 = send_one [OF x assms(2)] and 2 = send_one [OF y send_one(1) [OF x assms(2)]]
  show thesis by (rule that [OF u 2(1)]) (use 1 2 in simp_all)
qed

text \<open>The pool of a token, and the product of its two reserves.\<close>

definition pool_of :: "'e externals_scheme \<Rightarrow> string \<Rightarrow> AccAddress" where
  "pool_of E k = getReservePoolAddr E (FormatUniABSPrefix @ the (GetCoinNameByDenom k))"

definition pool_product :: "'e externals_scheme \<Rightarrow> string \<Rightarrow> 'z auth_state_scheme \<Rightarrow> int" where
  "pool_product E k s = balance (pool_of E k) IrisAtto s * balance (pool_of E k) k s"

definition pair_token :: "string \<Rightarrow> string \<Rightarrow> string" where
  "pair_token x y = (if x = IrisAtto then y else x)"

lemma GetUniId_pool:
  assumes "GetUniId x y = Inr uniId"
  shows "x \<noteq> y" "x = IrisAtto \<or> y = IrisAtto" "getReservePoolAddr E uniId = pool_of E (pair_token x y)"
  using assms
  by (auto simp: GetUniId_def Let_def pool_of_def pair_token_def split: if_splits option.splits)

lemma product_pair:
  assumes "x \<noteq> y" "x = IrisAtto \<or> y = IrisAtto" "p = pool_of E (pair_token x y)"
  shows "pool_product E (pair_token x y) s = ledger s p x * ledger s p y"
  using assms by (auto simp: pool_product_def pair_token_def ledger_def)

lemma swap_leg_other:
  assumes "swapCoins E a r sold bought s = Ok u t" "accounts_ok s"
    and "q \<noteq> a" "q \<noteq> recipient_of a r" "q \<noteq> pool_of E (pair_token (Denom sold) (Denom bought))"
  shows "ledger t q = ledger s q"
  using assms(1,2)
proof (rule swapCoins_spec)
  fix uniId
  assume u: "GetUniId (Denom sold) (Denom bought) = Inr uniId"
    and "ledger t = transfer (getReservePoolAddr E uniId) (recipient_of a r) (Denom bought) (Amount bought)
       (transfer a (getReservePoolAddr E uniId) (Denom sold) (Amount sold) (ledger s))"
  then show ?thesis
    using GetUniId_pool(3) [OF u, of E] assms(3-5) by (simp add: fun_eq_iff transfer_apply)
qed

lemma swap_leg_product:
  assumes "swapCoins E a r sold bought s = Ok u t" "accounts_ok s"
    and "p = pool_of E (pair_token (Denom sold) (Denom bought))" "p \<noteq> a" "p \<noteq> recipient_of a r"
    and le: "ledger s p (Denom sold) * ledger s p (Denom bought) \<le>
      (ledger s p (Denom sold) + Amount sold) * (ledger s p (Denom bought) - Amount bought)"
  shows "pool_product E (pair_token (Denom sold) (Denom bought)) s \<le>
    pool_product E (pair_token (Denom sold) (Denom bought)) t"
  using assms(1,2)
proof (rule swapCoins_spec)
  fix uniId
  assume u: "GetUniId (Denom sold) (Denom bought) = Inr uniId"
    and t: "ledger t = transfer (getReservePoolAddr E uniId) (recipient_of a r) (Denom bought) (Amount bought)
       (transfer a (getReservePoolAddr E uniId) (Denom sold) (Amount sold) (ledger s))"
  note g = GetUniId_pool(1,2) [OF u] GetUniId_pool(3) [OF u, of E, folded assms(3)]
  have "ledger t p (Denom sold) = ledger s p (Denom sold) + Amount sold"
    "ledger t p (Denom bought) = ledger s p (Denom bought) - Amount bought"
    using g assms(4,5) by (simp_all add: t transfer_apply)
  then show ?thesis unfolding product_pair [OF g(1,2) assms(3)] using le by simp
qed

lemma exact_input_spec:
  assumes "calculateWithExactInput E sold y s = Ok amt s'" "accounts_ok s" "0 \<le> Amount sold"
    and "0 < swapFee s" "swapFee s < 1" "p = pool_of E (pair_token (Denom sold) y)"
  shows "s' = s" "0 \<le> amt"
    "ledger s p (Denom sold) * ledger s p y \<le> (ledger s p (Denom sold) + Amount sold) * (ledger s p y - amt)"
proof -
  obtain uniId where u: "GetUniId (Denom sold) y = Inr uniId" and s': "s' = s"
    and "0 < AmountOf (GetReservePool E uniId s) (Denom sold)" "0 < AmountOf (GetReservePool E uniId s) y"
    and "getInputPrice (Amount sold) (AmountOf (GetReservePool E uniId s) (Denom sold))
      (AmountOf (GetReservePool E uniId s) y) (swapFee s) = Some amt"
    using assms(1) by (auto simp: calculateWithExactInput_def Let_def split: if_splits)
  moreover have "AmountOf (GetReservePool E uniId s) d = ledger s p d" for d
    using pool_amount [OF assms(2), of E uniId] GetUniId_pool(3) [OF u, of E] assms(6) by (simp add: ledger_def)
  ultimately show "s' = s" "0 \<le> amt"
    "ledger s p (Denom sold) * ledger s p y \<le> (ledger s p (Denom sold) + Amount sold) * (ledger s p y - amt)"
    using getInputPrice_product [OF _ assms(4,5) _ _ assms(3)] by simp_all
qed

lemma exact_output_spec:
  assumes "calculateWithExactOutput E bought x s = Ok amt s'" "accounts_ok s" "0 \<le> Amount bought"
    and "0 < swapFee s" "swapFee s < 1" "p = pool_of E (pair_token x (Denom bought))"
  shows "s' = s" "0 < amt"
    "ledger s p x * ledger s p (Denom bought) \<le> (ledger s p x + amt) * (ledger s p (Denom bought) - Amount bought)"
proof -
  obtain uniId where u: "GetUniId (Denom bought) x = Inr uniId" and s': "s' = s"
    and "0 < AmountOf (GetReservePool E uniId s) x"
      "Amount bought < AmountOf (GetReservePool E uniId s) (Denom bought)"
    and "getOutputPrice (Amount bought) (AmountOf (GetReservePool E uniId s) x)
      (AmountOf (GetReservePool E uniId s) (Denom bought)) (swapFee s) = Some amt"
    using assms(1) by (auto simp: calculateWithExactOutput_def Let_def split: if_splits sum.splits)
  moreover have "pair_token (Denom bought) x = pair_token x (Denom bought)"
    using GetUniId_pool(1,2) [OF u] by (auto simp: pair_token_def)
  then have "AmountOf (GetReservePool E uniId s) d = ledger s p d" for d
    using pool_amount [OF assms(2), of E uniId] GetUniId_pool(3) [OF u, of E] assms(6) by (simp add: ledger_def)
  ultimately show "s' = s" "0 < amt"
    "ledger s p x * ledger s p (Denom bought) \<le> (ledger s p x + amt) * (ledger s p (Denom bought) - Amount bought)"
    using getOutputPrice_product [OF _ assms(4,5) _ assms(3)] by (simp_all add: less_imp_le)
qed

text \<open>\<open>apart E a r ds k\<close>: the pool of \<open>k\<close> is none of the two parties, and no other token of \<open>ds\<close>
  shares its address.\<close>

definition apart :: "'e externals_scheme \<Rightarrow> AccAddress \<Rightarrow> AccAddress \<Rightarrow> string list \<Rightarrow> string \<Rightarrow> bool" where
  "apart E a r ds k \<longleftrightarrow> pool_of E k \<noteq> a \<and> pool_of E k \<noteq> recipient_of a r \<and>
     (\<forall>d\<in>set ds. d \<noteq> IrisAtto \<longrightarrow> pool_of E d = pool_of E k \<longrightarrow> d = k)"

lemma swap_leg:
  assumes "swapCoins E a r sold bought s = Ok u t" "accounts_ok s"
    and "apart E a r [Denom sold, Denom bought] k"
    and "pair_token (Denom sold) (Denom bought) = k \<Longrightarrow>
      ledger s (pool_of E k) (Denom sold) * ledger s (pool_of E k) (Denom bought) \<le>
      (ledger s (pool_of E k) (Denom sold) + Amount sold) * (ledger s (pool_of E k) (Denom bought) - Amount bought)"
  shows "pool_product E k s \<le> pool_product E k t"
proof (cases "pair_token (Denom sold) (Denom bought) = k")
  case True
  then show ?thesis using swap_leg_product [OF assms(1,2) refl] assms(3,4) by (simp add: apart_def)
next
  case False
  obtain uniId where "GetUniId (Denom sold) (Denom bought) = Inr uniId"
    using assms(1,2) by (rule swapCoins_spec)
  from GetUniId_pool(1,2) [OF this] have "pair_token (Denom sold) (Denom bought) \<noteq> IrisAtto"
    "pair_token (Denom sold) (Denom bought) \<in> {Denom sold, Denom bought}" by (auto simp: pair_token_def)
  then have "pool_of E k \<noteq> pool_of E (pair_token (Denom sold) (Denom bought))"
    using assms(3) False unfolding apart_def by (metis insert_iff list.set(2) singletonD set_empty)
  then have "ledger t (pool_of E k) = ledger s (pool_of E k)"
    using swap_leg_other [OF assms(1,2)] assms(3) by (simp add: apart_def)
  then show ?thesis by (simp add: pool_product_def ledger_def fun_eq_iff)
qed

lemma swap_keeps:
  assumes "swapCoins E a r sold bought s = Ok u t" "accounts_ok s"
  shows "accounts_ok t" "swapFee t = swapFee s" "\<And>d. total_coins d t = total_coins d s"
proof -
  have "accounts_ok t \<and> auth_state.more t = auth_state.more s \<and> (\<forall>d. total_coins d t = total_coins d s)"
    using assms by (rule swapCoins_spec) simp
  moreover have "swapFee t = swapFee s" if "auth_state.more t = auth_state.more s"
    using that by (cases s, cases t) simp
  ultimately show "accounts_ok t" "swapFee t = swapFee s" "\<And>d. total_coins d t = total_coins d s" by auto
qed

definition swap_improves :: "'e externals_scheme \<Rightarrow> AccAddress \<Rightarrow> AccAddress \<Rightarrow> string list \<Rightarrow>
    'z swap_state_scheme \<Rightarrow> 'z swap_state_scheme \<Rightarrow> bool" where
  "swap_improves E a r ds s t \<longleftrightarrow> accounts_ok t \<and> swapFee t = swapFee s \<and>
     (\<forall>d. total_coins d t = total_coins d s) \<and>
     (\<forall>k. apart E a r ds k \<longrightarrow> pool_product E k s \<le> pool_product E k t)"

lemma exact_input_leg:
  assumes "calculateWithExactInput E c y s = Ok amt s'" "swapCoins E a r c \<lparr>Denom = y, Amount = amt\<rparr> s = Ok u t"
    and "accounts_ok s" "0 \<le> Amount c" "0 < swapFee s" "swapFee s < 1" "{Denom c, y} \<subseteq> set ds \<union> {IrisAtto}"
  shows "swap_improves E a r ds s t"
proof -
  have "pool_product E k s \<le> pool_product E k t" if "apart E a r ds k" for k
  proof (rule swap_leg [OF assms(2,3)])
    show "apart E a r [Denom c, Denom \<lparr>Denom = y, Amount = amt\<rparr>] k"
      using that assms(7) by (auto simp: apart_def)
  qed (use exact_input_spec(3) [OF assms(1,3-6), of "pool_of E k"] in auto)
  then show ?thesis using swap_keeps [OF assms(2,3)] by (simp add: swap_improves_def)
qed

lemma exact_output_leg:
  assumes "calculateWithExactOutput E c x s = Ok amt s'" "swapCoins E a r \<lparr>Denom = x, Amount = amt\<rparr> c s = Ok u t"
    and "accounts_ok s" "0 \<le> Amount c" "0 < swapFee s" "swapFee s < 1" "{x, Denom c} \<subseteq> set ds \<union> {IrisAtto}"
  shows "swap_improves E a r ds s t"
proof -
  have "pool_product E k s \<le> pool_product E k t" if "apart E a r ds k" for k
  proof (rule swap_leg [OF assms(2,3)])
    show "apart E a r [Denom \<lparr>Denom = x, Amount = amt\<rparr>, Denom c] k"
      using that assms(7) by (auto simp: apart_def)
  qed (use exact_output_spec(3) [OF assms(1,3-6), of "pool_of E k"] in auto)
  then show ?thesis using swap_keeps [OF assms(2,3)] by (simp add: swap_improves_def)
qed

lemma swap_improves_trans:
  "swap_improves E a r ds s t \<Longrightarrow> swap_improves E a r ds t v \<Longrightarrow> swap_improves E a r ds s v"
  unfolding swap_improves_def by (auto intro: order_trans)

lemma NewCoin_Some [simp]: "NewCoin d n = Some c \<longleftrightarrow> 0 \<le> n \<and> c = \<lparr>Denom = d, Amount = n\<rparr>"
  by (auto simp: NewCoin_def)

lemma calculate_state:
  "calculateWithExactInput E c y s = Ok amt s' \<Longrightarrow> s' = s"
  "calculateWithExactOutput E c y s = Ok amt s' \<Longrightarrow> s' = s"
  by (auto simp: calculateWithExactInput_def calculateWithExactOutput_def Let_def split: if_splits sum.splits)

text \<open>What every trade is given: a well-formed store, a valid fee and a valid order.\<close>

definition trade_ok :: "SwapInput \<Rightarrow> SwapOutput \<Rightarrow> 'z swap_state_scheme \<Rightarrow> bool" where
  "trade_ok i out s \<longleftrightarrow> accounts_ok s \<and> 0 < swapFee s \<and> swapFee s < 1 \<and>
     0 \<le> Amount (sin_Coin i) \<and> 0 \<le> Amount (sout_Coin out) \<and> Denom (sin_Coin i) \<noteq> Denom (sout_Coin out)"

abbreviation trade_improves :: "'e externals_scheme \<Rightarrow> SwapInput \<Rightarrow> SwapOutput \<Rightarrow>
    'z swap_state_scheme \<Rightarrow> 'z swap_state_scheme \<Rightarrow> bool" where
  "trade_improves E i out \<equiv> swap_improves E (sin_Address i) (sout_Address out)
     [Denom (sin_Coin i), Denom (sout_Coin out)]"

lemma trade_exact_input:
  assumes "tradeExactInputForOutput E i out s = Ok n t" "trade_ok i out s"
  shows "trade_improves E i out s t"
proof -
  obtain s' u where 1: "calculateWithExactInput E (sin_Coin i) (Denom (sout_Coin out)) s = Ok n s'"
    and 2: "swapCoins E (sin_Address i) (sout_Address out) (sin_Coin i)
      \<lparr>Denom = Denom (sout_Coin out), Amount = n\<rparr> s' = Ok u t"
    using assms(1) by (auto simp: tradeExactInputForOutput_def split: if_splits)
  show ?thesis
    using exact_input_leg [OF 1 2 [unfolded calculate_state(1) [OF 1]]] assms(2) by (simp add: trade_ok_def)
qed

lemma trade_exact_output:
  assumes "tradeInputForExactOutput E i out s = Ok n t" "trade_ok i out s"
  shows "trade_improves E i out s t"
proof -
  obtain s' u where 1: "calculateWithExactOutput E (sout_Coin out) (Denom (sin_Coin i)) s = Ok n s'"
    and 2: "swapCoins E (sin_Address i) (sout_Address out) \<lparr>Denom = Denom (sin_Coin i), Amount = n\<rparr>
      (sout_Coin out) s' = Ok u t"
    using assms(1) by (auto simp: tradeInputForExactOutput_def split: if_splits)
  show ?thesis
    using exact_output_leg [OF 1 2 [unfolded calculate_state(2) [OF 1]]] assms(2) by (simp add: trade_ok_def)
qed

lemma double_trade_exact_input:
  assumes "doubleTradeExactInputForOutput E i out s = Ok n t" "trade_ok i out s"
  shows "trade_improves E i out s t"
proof -
  let ?a = "sin_Address i" and ?r = "sout_Address out"
  obtain m s0 u s1 s2 v where 1: "calculateWithExactInput E (sin_Coin i) IrisAtto s = Ok m s0" "0 \<le> m"
    and 2: "swapCoins E ?a ?r (sin_Coin i) \<lparr>Denom = IrisAtto, Amount = m\<rparr> s0 = Ok u s1"
    and 3: "calculateWithExactInput E \<lparr>Denom = IrisAtto, Amount = m\<rparr> (Denom (sout_Coin out)) s1 = Ok n s2"
    and 4: "swapCoins E ?a ?r \<lparr>Denom = IrisAtto, Amount = m\<rparr> \<lparr>Denom = Denom (sout_Coin out), Amount = n\<rparr> s2 = Ok v t"
    using assms(1) by (auto simp: doubleTradeExactInputForOutput_def split: if_splits)
  have first: "trade_improves E i out s s1"
    using exact_input_leg [OF 1(1) 2 [unfolded calculate_state(1) [OF 1(1)]]] assms(2) by (simp add: trade_ok_def)
  then have "accounts_ok s1" "0 < swapFee s1" "swapFee s1 < 1"
    using assms(2) by (simp_all add: trade_ok_def swap_improves_def)
  then have "trade_improves E i out s1 t"
    using exact_input_leg [OF 3 4 [unfolded calculate_state(1) [OF 3]]] 1(2) by simp
  with first show ?thesis by (rule swap_improves_trans)
qed

text \<open>The second leg of a double purchase uses a price computed before the first leg, which does
  not touch the second pool.\<close>

lemma double_trade_exact_output:
  assumes "doubleTradeInputForExactOutput E i out s = Ok n t" "trade_ok i out s"
    and "Denom (sin_Coin i) \<noteq> IrisAtto"
  shows "trade_improves E i out s t"
proof -
  let ?a = "sin_Address i" and ?r = "sout_Address out" and ?y = "Denom (sout_Coin out)"
  obtain m s0 s1 u s2 v where 1: "calculateWithExactOutput E (sout_Coin out) IrisAtto s = Ok m s0" "0 \<le> m"
    and 2: "calculateWithExactOutput E \<lparr>Denom = IrisAtto, Amount = m\<rparr> (Denom (sin_Coin i)) s0 = Ok n s1"
    and 3: "swapCoins E ?a ?r \<lparr>Denom = Denom (sin_Coin i), Amount = n\<rparr> \<lparr>Denom = IrisAtto, Amount = m\<rparr> s1 = Ok u s2"
    and 4: "swapCoins E ?a ?r \<lparr>Denom = IrisAtto, Amount = m\<rparr> (sout_Coin out) s2 = Ok v t"
    using assms(1) by (auto simp: doubleTradeInputForExactOutput_def split: if_splits)
  have s: "s0 = s" "s1 = s" using calculate_state(2) [OF 1(1)] calculate_state(2) [OF 2] by auto
  have ok: "accounts_ok s" "0 < swapFee s" "swapFee s < 1" "0 \<le> Amount (sout_Coin out)"
    using assms(2) by (simp_all add: trade_ok_def)
  have first: "trade_improves E i out s s2"
    using exact_output_leg [OF 2 [unfolded s] 3 [unfolded s] ok(1)] 1(2) ok by simp
  then have wf2: "accounts_ok s2" by (simp add: swap_improves_def)
  have "pool_product E k s2 \<le> pool_product E k t" if k: "apart E ?a ?r [Denom (sin_Coin i), ?y] k" for k
  proof (rule swap_leg [OF 4 wf2])
    show "apart E ?a ?r [Denom \<lparr>Denom = IrisAtto, Amount = m\<rparr>, ?y] k" using k by (simp add: apart_def)
    assume "pair_token (Denom \<lparr>Denom = IrisAtto, Amount = m\<rparr>) ?y = k"
    then have ky: "k = ?y" by (simp add: pair_token_def)
    have "pool_of E k \<noteq> pool_of E (Denom (sin_Coin i))"
      using k assms(2,3) ky by (auto simp: apart_def trade_ok_def)
    then have "ledger s2 (pool_of E k) = ledger s (pool_of E k)"
      using swap_leg_other [OF 3 [unfolded s] ok(1)] k assms(3) by (simp add: apart_def pair_token_def)
    then show "ledger s2 (pool_of E k) (Denom \<lparr>Denom = IrisAtto, Amount = m\<rparr>) * ledger s2 (pool_of E k) ?y \<le>
        (ledger s2 (pool_of E k) (Denom \<lparr>Denom = IrisAtto, Amount = m\<rparr>) + Amount \<lparr>Denom = IrisAtto, Amount = m\<rparr>) *
        (ledger s2 (pool_of E k) ?y - Amount (sout_Coin out))"
      using exact_output_spec(3) [OF 1(1) ok(1,4,2,3), of "pool_of E k"] ky by (simp add: pair_token_def)
  qed
  then have "trade_improves E i out s2 t" using swap_keeps [OF 4 wf2] by (simp add: swap_improves_def)
  with first show ?thesis by (rule swap_improves_trans)
qed

lemma HandleSwap_improves:
  assumes "HandleSwap E msg s = Ok n t" "MsgSwapOrder_ValidateBasic msg = Inr ()"
    and "accounts_ok s" "0 < swapFee s" "swapFee s < 1"
  shows "trade_improves E (so_Input msg) (so_Output msg) s t"
proof -
  have ok: "trade_ok (so_Input msg) (so_Output msg) s"
    using assms(2-) by (auto simp: MsgSwapOrder_ValidateBasic_def Let_def trade_ok_def split: if_splits)
  show ?thesis
    using assms(1) trade_exact_input [OF _ ok] trade_exact_output [OF _ ok]
      double_trade_exact_input [OF _ ok] double_trade_exact_output [OF _ ok]
    by (auto simp: HandleSwap_def Let_def split: if_splits)
qed

section \<open>Properties\<close>

text \<open>A small exchange: alice opens a pool for \<open>abc-min\<close> and one for \<open>xyz-min\<close>.\<close>

definition demo_funds :: swap_state where
  "demo_funds = auth_state.extend
     (demo_state\<lparr>accounts := fmap_of_list [(''alice'', demo_account ''alice''
        [\<lparr>Denom = ''abc-min'', Amount = 1000\<rparr>, \<lparr>Denom = ''iris-atto'', Amount = 1000\<rparr>,
         \<lparr>Denom = ''xyz-min'', Amount = 1000\<rparr>])]\<rparr>) \<lparr>swapFee = DefaultSwapFee\<rparr>"

definition demo_add :: "string \<Rightarrow> MsgAddLiquidity" where
  "demo_add d = \<lparr>al_MaxToken = \<lparr>Denom = d, Amount = 100\<rparr>, al_ExactIrisAmt = 100, al_MinLiquidity = 1,
     al_Deadline = 10, al_Sender = ''alice''\<rparr>"

definition run :: "('s, 'a) op \<Rightarrow> 's \<Rightarrow> 's" where
  "run m s = (case m s of Ok _ t \<Rightarrow> t | _ \<Rightarrow> s)"

definition demo_pools :: swap_state where
  "demo_pools = run (HandleAddLiquidity demo_E (demo_add ''xyz-min''))
     (run (HandleAddLiquidity demo_E (demo_add ''abc-min'')) demo_funds)"

definition demo_order :: "AccAddress \<Rightarrow> string \<Rightarrow> MsgSwapOrder" where
  "demo_order recipient d = \<lparr>so_Input = \<lparr>sin_Address = ''alice'', sin_Coin = \<lparr>Denom = ''abc-min'', Amount = 20\<rparr>\<rparr>,
     so_Output = \<lparr>sout_Address = recipient, sout_Coin = \<lparr>Denom = d, Amount = 1\<rparr>\<rparr>,
     so_Deadline = 10, so_IsBuyOrder = False\<rparr>"

text \<open>C14: A swap never lowers the product of the reserves of a pool, whether it sells or buys, directly
  or through iris in two pools. It keeps the accounts well formed and conserves every total. The
  pool must be neither party of the order, and its address not that of another pool involved.\<close>

theorem swap_product:
  assumes "HandleSwap E msg s = Ok n t" "MsgSwapOrder_ValidateBasic msg = Inr ()" "accounts_ok s"
    and "validateFee (swapFee s) = Inr ()"
    and "apart E (sin_Address (so_Input msg)) (sout_Address (so_Output msg))
      [Denom (sin_Coin (so_Input msg)), Denom (sout_Coin (so_Output msg))] k"
  shows "pool_product E k s \<le> pool_product E k t \<and> accounts_ok t \<and> (\<forall>d. total_coins d t = total_coins d s)"
proof -
  have "0 < swapFee s" "swapFee s < 1" using assms(4) by (auto simp: validateFee_def split: if_splits)
  from HandleSwap_improves [OF assms(1-3) this] assms(5) show ?thesis by (simp add: swap_improves_def)
qed

theorem swap_product_witness:
  "case HandleSwap demo_E (demo_order ''bob'' ''xyz-min'') demo_pools of
     Ok n t \<Rightarrow> 10000 \<le> pool_product demo_E ''xyz-min'' t | _ \<Rightarrow> False"
proof -
  let ?m = "demo_order ''bob'' ''xyz-min''"
  have "case HandleSwap demo_E ?m demo_pools of Ok _ _ \<Rightarrow> True | _ \<Rightarrow> False" by code_simp
  then obtain n t where r: "HandleSwap demo_E ?m demo_pools = Ok n t" by (auto split: outcome.splits)
  have v: "MsgSwapOrder_ValidateBasic ?m = Inr ()" "accounts_ok demo_pools" "validateFee (swapFee demo_pools) = Inr ()"
    "apart demo_E (sin_Address (so_Input ?m)) (sout_Address (so_Output ?m))
      [Denom (sin_Coin (so_Input ?m)), Denom (sout_Coin (so_Output ?m))] ''xyz-min''" by code_simp+
  have "pool_product demo_E ''xyz-min'' demo_pools = 10000" by code_simp
  then show ?thesis using swap_product [OF r v] by (simp add: r)
qed


text \<open>C16: The two prices agree. Whoever sells the amount that \<open>getOutputPrice\<close> charges for \<open>y\<close> coins
  gets at least \<open>y\<close> coins from \<open>getInputPrice\<close>, and never the whole reserve.\<close>

theorem prices_agree:
  assumes "getOutputPrice y i j fee = Some x" "getInputPrice x i j fee = Some z"
    and "0 < fee" "fee < 1" "0 < i" "0 \<le> y" "y < j"
  shows "y \<le> z \<and> z < j"
proof -
  obtain n d where q: "quotient_of (1 - fee) = (n, d)" by fastforce
  note nd = delta_parts [OF assms(3,4) q]
  have x0: "0 < x" using getOutputPrice_product(1) [OF assms(1,3-7)] .
  have D: "0 < i * d + x * n" "0 < (j - y) * n" using nd x0 assms(5,7) by (simp_all add: add_pos_pos)
  have "x = i * y * d div ((j - y) * n) + 1"
    using assms(1) D(2)
    by (auto simp: getOutputPrice_def Let_def Rat_Num_def Rat_Denom_def q bind_eq_Some_conv Int_Div_pos
        dest!: Int_Mul_Some_imp)
  then have "x * ((j - y) * n) = i * y * d div ((j - y) * n) * ((j - y) * n) + (j - y) * n"
    by (simp add: distrib_right)
  moreover have "i * y * d div ((j - y) * n) * ((j - y) * n) + i * y * d mod ((j - y) * n) = i * y * d"
    by (rule div_mult_mod_eq)
  moreover have "i * y * d mod ((j - y) * n) < (j - y) * n" using D(2) by (rule pos_mod_bound)
  ultimately have "i * y * d < x * ((j - y) * n)" by linarith
  then have "y * (i * d + x * n) \<le> x * n * j" by (simp add: algebra_simps)
  then have "y * (i * d + x * n) div (i * d + x * n) \<le> x * n * j div (i * d + x * n)"
    using D(1) by (rule zdiv_mono1)
  moreover have "z = x * n * j div (i * d + x * n)"
    using assms(2) D(1)
    by (auto simp: getInputPrice_def Let_def Rat_Num_def Rat_Denom_def q bind_eq_Some_conv Int_Div_pos
        dest!: Int_Mul_Some_imp)
  ultimately have "y \<le> z" using D(1) by simp
  moreover have "z < j" using getInputPrice_product(2) [OF assms(2-5)] assms(6,7) x0 by simp
  ultimately show ?thesis by simp
qed

theorem prices_agree_witness:
  "getOutputPrice 30 100 100 DefaultSwapFee = Some 43 \<and> getInputPrice 43 100 100 DefaultSwapFee = Some 30 \<and>
   (30::int) \<le> 30 \<and> (30::int) < 100"
proof -
  have p: "getOutputPrice 30 100 100 DefaultSwapFee = Some 43" "getInputPrice 43 100 100 DefaultSwapFee = Some 30"
    "0 < DefaultSwapFee" "DefaultSwapFee < 1" by code_simp+
  show ?thesis using prices_agree [OF p] p by simp
qed

end
