(* ===== verification/Coinswap_Liquidity.thy ===== *)
theory Coinswap_Liquidity
  imports Coinswap_Prices
begin

text \<open>
  Facts about liquidity of \<open>src/app/v2/coinswap\<close>: the names of pools and vouchers, what deposits
  and withdrawals do, that the value of a voucher never falls, and that vouchers are backed.
\<close>

section \<open>Pool ids and vouchers\<close>

lemma TrimSpace_name: "list_all name_char s \<Longrightarrow> TrimSpace s = s"
proof -
  assume "list_all name_char s"
  then have "\<forall>c\<in>set s. \<not> is_space c"
    by (auto simp: list_all_iff name_char_def is_space_def ralnum_def ralpha_def rdigit_def less_eq_char_def)
  then have "dropWhile is_space xs = xs" if "set xs = set s" for xs
    using that by (cases xs) auto
  then show ?thesis by (simp add: TrimSpace_def)
qed

lemma lower_denom: "list_all name_char n \<Longrightarrow> ToLower (n @ MinDenomSuffix) = n @ MinDenomSuffix"
proof -
  have "ToLower MinDenomSuffix = MinDenomSuffix" by code_simp
  moreover have "ToLower (n @ MinDenomSuffix) = ToLower n @ ToLower MinDenomSuffix" by (simp add: ToLower_def)
  ultimately show "list_all name_char n \<Longrightarrow> ToLower (n @ MinDenomSuffix) = n @ MinDenomSuffix" by simp
qed

lemma CoinName_valid:
  assumes "IsCoinMinDenomValid (n @ MinDenomSuffix)" "n @ MinDenomSuffix \<noteq> IrisAtto" "list_all name_char n" "n \<noteq> []"
  shows "GetCoinNameByDenom (n @ MinDenomSuffix) = Some n"
  using assms
  by (simp add: GetCoinNameByDenom_def Let_def lower_denom) (auto simp: IsCoinMinDenomValid_def split: if_splits)

lemma uni_denom_valid:
  assumes "IsCoinNameValid (FormatUniABSPrefix @ n)"
  shows "IsCoinMinDenomValid (FormatUniABSPrefix @ n @ MinDenomSuffix)"
proof -
  have "accepts reCoinName (FormatUniABSPrefix @ n)" using assms by (simp add: IsCoinNameValid_def matches_iff)
  moreover have "matches (ropt (RSeq (rlit ''-'') (rrep 3 2 (RCls ralpha)))) MinDenomSuffix" by code_simp
  ultimately have "accepts reDenom ((FormatUniABSPrefix @ n) @ MinDenomSuffix)"
    unfolding reDenom_def matches_iff by (rule acc_seq)
  then show ?thesis
    by (simp add: IsCoinMinDenomValid_def matches_iff HasSuffix_def HasPrefix_def FormatUniABSPrefix_def Iris_def
        suffix_def)
qed

lemma uni_ids:
  assumes "IsCoinMinDenomValid d" "d \<noteq> IrisAtto" "GetUniId IrisAtto d = Inr uniId" "GetUniDenom uniId = Inr uniDenom"
  shows "uniDenom = FormatUniABSPrefix @ d" "IsCoinMinDenomValid uniDenom"
    "GetCoinNameByDenom uniDenom = Some uniId" "getReservePoolAddr E uniId = pool_of E d"
proof -
  obtain chn gw tok where d: "d = chn @ gw @ tok @ MinDenomSuffix" and np: "name_parts chn gw tok"
    using assms(1,2) by (rule valid_denom_parts)
  define n where "n = chn @ gw @ tok"
  have n: "d = n @ MinDenomSuffix" "n \<noteq> []" "list_all name_char n"
    using d name_parts_tok(4) [OF np] name_parts_chars [OF np] by (simp_all add: n_def)
  have "GetCoinNameByDenom d = Some n" using CoinName_valid assms(1,2) n by blast
  then have u: "uniId = FormatUniABSPrefix @ n" and "getReservePoolAddr E uniId = pool_of E d"
    using assms(2,3) by (simp_all add: GetUniId_def pool_of_def split: if_splits)
  then show "getReservePoolAddr E uniId = pool_of E d" by simp
  have nc: "list_all name_char uniId"
    using n(3) unfolding u by (simp add: FormatUniABSPrefix_def name_char_def ralnum_def ralpha_def less_eq_char_def)
  have ok: "IsCoinNameValid uniId" using assms(4) by (auto simp: GetUniDenom_def CheckUniId_def split: if_splits)
  have "uniId \<noteq> Iris" by (simp add: u FormatUniABSPrefix_def Iris_def)
  then have ud: "uniDenom = uniId @ MinDenomSuffix"
    using assms(4) nc TrimSpace_name [OF nc]
    by (auto simp: GetUniDenom_def CheckUniId_def GetCoinMinDenom_def Let_def split: if_splits)
  then show ud': "uniDenom = FormatUniABSPrefix @ d" using u n(1) by simp
  show v: "IsCoinMinDenomValid uniDenom" using uni_denom_valid ok ud u by simp
  have "uniId \<noteq> []" "uniDenom \<noteq> IrisAtto" by (simp_all add: u ud' FormatUniABSPrefix_def IrisAtto_def)
  with CoinName_valid v nc ud show "GetCoinNameByDenom uniDenom = Some uniId" by blast
qed

section \<open>Deposits and withdrawals\<close>

lemma sendCoins_ranged: "sendCoins E a b amt s = Ok amt' t \<Longrightarrow> accounts_ok s \<Longrightarrow> ranged amt"
  by (cases rule: sendCoins_cases [of s E a b amt]) simp_all

lemma NewCoins_ranged: "NewCoins [c] = Some x \<Longrightarrow> ranged x \<longleftrightarrow> in_range (Amount c)"
  by (auto simp: NewCoins_def Let_def removeZeroCoins_filter Coins_Sort_def in_range_def split: if_splits)

lemma addLiquidity_spec:
  assumes "addLiquidity E a irisCoin token uniId m s = Ok u t" "accounts_ok s" "in_range m"
    and "GetUniDenom uniId = Inr uniDenom" "p = getReservePoolAddr E uniId"
  shows "accounts_ok t" "auth_state.more t = auth_state.more s"
    "ledger t = credit a [\<lparr>Denom = uniDenom, Amount = m\<rparr>] (credit p [\<lparr>Denom = uniDenom, Amount = m\<rparr>]
       (credit p [irisCoin, token] (debit a [irisCoin, token] (ledger s))))"
    "\<And>d. total_coins d t = total_coins d s + 2 * bal [\<lparr>Denom = uniDenom, Amount = m\<rparr>] d"
proof -
  let ?U = "[\<lparr>Denom = uniDenom, Amount = m\<rparr>]"
  obtain D amt s1 U s2 v where D: "NewCoins [irisCoin, token] = Some D" "sendCoins E a p D s = Ok amt s1"
    and U: "NewCoins ?U = Some U" "ignore_err (addCoins E p U) s1 = Ok v s2" "ignore_err (addCoins E a U) s2 = Ok u t"
    using assms(1,4,5) by (auto simp: addLiquidity_def Let_def simp del: ignore_err_Ok)
  have b: "bal D = bal [irisCoin, token]" "bal U = bal ?U" using D(1) U(1) by (simp_all only: NewCoins_bal)
  have r: "ranged U" using NewCoins_ranged [OF U(1)] assms(3) by simp
  note 1 = sendCoins_spec [OF D(2) assms(2)]
  note 2 = addCoins_spec [OF U(2) 1(1) r]
  note 3 = addCoins_spec [OF U(3) 2(1) r]
  show "accounts_ok t" "auth_state.more t = auth_state.more s" using 1 2 3 by simp_all
  show "ledger t = credit a ?U (credit p ?U (credit p [irisCoin, token] (debit a [irisCoin, token] (ledger s))))"
    unfolding 3(2) 2(2) 1(2) by (simp only: credit_cong [OF b(2)] credit_cong [OF b(1)] debit_cong [OF b(1)])
  show "total_coins d t = total_coins d s + 2 * bal ?U d" for d
    using 1(4) [of d] 2(4) [of d] 3(4) [of d] b(2) by simp
qed

lemma removeLiquidity_spec:
  assumes "removeLiquidity E p a w irisCoin token s = Ok u t" "accounts_ok s"
  shows "accounts_ok t" "auth_state.more t = auth_state.more s"
    "ledger t = credit a [irisCoin, token] (debit p [irisCoin, token] (debit a [w] (debit p [w] (ledger s))))"
    "\<And>d. total_coins d t = total_coins d s - 2 * bal [w] d"
proof -
  obtain W x s1 y s2 C amt where W: "NewCoins [w] = Some W" "subtractCoins p W s = Ok x s1" "subtractCoins a W s1 = Ok y s2"
    and C: "NewCoins [irisCoin, token] = Some C" "sendCoins E p a C s2 = Ok amt t"
    using assms(1) by (auto simp: removeLiquidity_def)
  have b: "bal C = bal [irisCoin, token]" "bal W = bal [w]" using C(1) W(1) by (simp_all only: NewCoins_bal)
  note 1 = subtractCoins_spec [OF W(2) assms(2)]
  note 2 = subtractCoins_spec [OF W(3) 1(1)]
  note 3 = sendCoins_spec [OF C(2) 2(1)]
  show "accounts_ok t" "auth_state.more t = auth_state.more s" using 1 2 3 by simp_all
  show "ledger t = credit a [irisCoin, token] (debit p [irisCoin, token] (debit a [w] (debit p [w] (ledger s))))"
    unfolding 3(2) 2(2) 1(2) by (simp only: debit_cong [OF b(2)] credit_cong [OF b(1)] debit_cong [OF b(1)])
  show "total_coins d t = total_coins d s - 2 * bal [w] d" for d
    using 1(4) [of d] 2(4) [of d] 3(4) [of d] b(2) by simp
qed

lemma terms_in_range:
  assumes "liquidity_terms i k l msg = Some (Inr (m, c))" "l \<noteq> 0" "0 \<le> i" "0 \<le> l" "0 \<le> k" "0 \<le> al_ExactIrisAmt msg"
  shows "0 < i" "in_range m" "0 \<le> m" "i * m \<le> l * al_ExactIrisAmt msg" "Denom c = Denom (al_MaxToken msg)"
    "k * al_ExactIrisAmt msg < Amount c * i" "Amount c \<le> Amount (al_MaxToken msg)" "al_MinLiquidity msg \<le> m"
proof -
  let ?x = "al_ExactIrisAmt msg"
  show i: "0 < i" using assms by (auto simp: liquidity_terms_def bind_eq_Some_conv Int_Div_def split: if_splits)
  have m: "m = l * ?x div i" "in_range (l * ?x)" and c: "c = \<lparr>Denom = Denom (al_MaxToken msg), Amount = k * ?x div i + 1\<rparr>"
    and "Amount c \<le> Amount (al_MaxToken msg)" "al_MinLiquidity msg \<le> m"
    using assms(1,2) i
    by (auto simp: liquidity_terms_def bind_eq_Some_conv Int_Div_pos split: if_splits dest!: Int_Mul_Some_imp)
  then show "Amount c \<le> Amount (al_MaxToken msg)" "al_MinLiquidity msg \<le> m" "Denom c = Denom (al_MaxToken msg)"
    by simp_all
  show "i * m \<le> l * ?x" unfolding m(1) using i by (simp add: mult.commute [of i] minus_mod_eq_div_mult [symmetric])
  show m0: "0 \<le> m" unfolding m(1) using i assms by (simp add: pos_imp_zdiv_nonneg_iff)
  have "m \<le> l * ?x" unfolding m(1) using abs_div_pos_le [OF i, of "l * ?x"] i assms(4,6) by simp
  with m0 m(2) show "in_range m" by (blast intro: in_range_between)
  have "k * ?x mod i < i" using i by simp
  moreover have "k * ?x div i * i + k * ?x mod i = k * ?x" by (rule div_mult_mod_eq)
  ultimately have "k * ?x < k * ?x div i * i + i" by linarith
  then show "k * ?x < Amount c * i" unfolding c by (simp add: distrib_right)
qed

definition uni_of :: "string \<Rightarrow> string" where
  "uni_of d = FormatUniABSPrefix @ d"

lemma uni_of_fresh [simp]: "uni_of d \<noteq> d" "uni_of d \<noteq> IrisAtto" "d \<noteq> uni_of d" "IrisAtto \<noteq> uni_of d"
  by (auto simp: uni_of_def FormatUniABSPrefix_def IrisAtto_def dest: arg_cong [of _ _ length])

lemma NewCoin_iris_ranged:
  assumes "addLiquidity E a \<lparr>Denom = IrisAtto, Amount = x\<rparr> token uniId m s = Ok u t" "accounts_ok s"
  shows "in_range x"
proof -
  obtain D amt s1 where D: "NewCoins [\<lparr>Denom = IrisAtto, Amount = x\<rparr>, token] = Some D"
      "sendCoins E a (getReservePoolAddr E uniId) D s = Ok amt s1"
    using assms(1) by (auto simp: addLiquidity_def Let_def)
  then have "ranged D" using sendCoins_ranged assms(2) by blast
  with D(1) show ?thesis
    by (cases "x = 0") (auto simp: NewCoins_def Let_def removeZeroCoins_filter Coins_Sort_def in_range_def ranged_def
        split: if_splits)
qed

text \<open>What a deposit does: \<open>x\<close> iris and \<open>y\<close> tokens move into the pool, \<open>m\<close> vouchers are minted for
  the pool and for the depositor.\<close>

lemma HandleAddLiquidity_spec:
  assumes "HandleAddLiquidity E msg s = Ok u t" "MsgAddLiquidity_ValidateBasic msg = Inr ()" "accounts_ok s"
    and "d = Denom (al_MaxToken msg)" "p = pool_of E d" "x = al_ExactIrisAmt msg"
  obtains m y where "accounts_ok t" "auth_state.more t = auth_state.more s"
    "liquidity_terms (balance p IrisAtto s) (balance p d s) (balance p (uni_of d) s) msg =
       Some (Inr (m, \<lparr>Denom = d, Amount = y\<rparr>))" "0 \<le> y" "0 \<le> m" "d \<noteq> IrisAtto"
    "ledger t = credit (al_Sender msg) [\<lparr>Denom = uni_of d, Amount = m\<rparr>] (credit p [\<lparr>Denom = uni_of d, Amount = m\<rparr>]
       (credit p [\<lparr>Denom = IrisAtto, Amount = x\<rparr>, \<lparr>Denom = d, Amount = y\<rparr>]
       (debit (al_Sender msg) [\<lparr>Denom = IrisAtto, Amount = x\<rparr>, \<lparr>Denom = d, Amount = y\<rparr>] (ledger s))))"
    "\<And>e. total_coins e t = total_coins e s + (if e = uni_of d then 2 * m else 0)"
proof -
  have v: "IsCoinMinDenomValid d" "d \<noteq> IrisAtto" "0 < x"
    using assms(2,4,6) by (auto simp: MsgAddLiquidity_ValidateBasic_def Coin_IsValid_def split: if_splits)
  obtain uniId uniDenom m c where u: "GetUniId IrisAtto d = Inr uniId" "GetUniDenom uniId = Inr uniDenom"
    and terms: "liquidity_terms (AmountOf (GetReservePool E uniId s) IrisAtto) (AmountOf (GetReservePool E uniId s) d)
      (AmountOf (GetReservePool E uniId s) uniDenom) msg = Some (Inr (m, c))"
    and add: "addLiquidity E (al_Sender msg) \<lparr>Denom = IrisAtto, Amount = x\<rparr> c uniId m s = Ok u t"
    using assms(1,4,6) by (auto simp: HandleAddLiquidity_def Let_def)
  note ids = uni_ids [OF v(1,2) u]
  have ud: "uniDenom = uni_of d" and pool: "getReservePoolAddr E uniId = p" using ids assms(5) by (simp_all add: uni_of_def)
  have terms': "liquidity_terms (balance p IrisAtto s) (balance p d s) (balance p (uni_of d) s) msg = Some (Inr (m, c))"
    using terms by (simp only: pool_amount [OF assms(3)] ud pool)
  have nn: "0 \<le> balance p e s" for e using balance_nonneg [OF assms(3)] .
  have c: "c = \<lparr>Denom = d, Amount = Amount c\<rparr>" "0 \<le> Amount c"
    using terms' assms(4)
    by (auto simp: liquidity_terms_def bind_eq_Some_conv split: if_splits)
  have m: "in_range m" "0 \<le> m"
  proof -
    have "in_range m \<and> 0 \<le> m"
    proof (cases "balance p (uni_of d) s = 0")
      case True
      then have "m = x" using terms' assms(6) by (auto simp: liquidity_terms_def)
      then show ?thesis using NewCoin_iris_ranged [OF add assms(3)] v(3) by simp
    next
      case False
      then show ?thesis using terms_in_range(2,3) [OF terms' False nn nn nn] v(3) assms(6) by simp
    qed
    then show "in_range m" "0 \<le> m" by simp_all
  qed
  note sp = addLiquidity_spec [OF add assms(3) m(1) u(2) pool [symmetric]]
  show thesis
  proof (rule that [of m "Amount c"])
    show "total_coins e t = total_coins e s + (if e = uni_of d then 2 * m else 0)" for e
      using sp(4) [of e] ud by simp
  qed (use sp c m v terms' ud in simp_all)
qed

lemma uni_pool:
  assumes "IsCoinMinDenomValid (uni_of d)" "GetCoinNameByDenom (uni_of d) = Some uniId" "GetCoinNameByDenom d = Some n"
  shows "getReservePoolAddr E uniId = pool_of E d" "d \<noteq> IrisAtto"
proof -
  obtain chn gw tok where parts: "uni_of d = chn @ gw @ tok @ MinDenomSuffix" and np: "name_parts chn gw tok"
    using assms(1) uni_of_fresh(2) by (rule valid_denom_parts)
  define n0 where "n0 = chn @ gw @ tok"
  have n0: "uni_of d = n0 @ MinDenomSuffix" "n0 \<noteq> []" "list_all name_char n0"
    using parts name_parts_tok(4) [OF np] name_parts_chars [OF np] by (simp_all add: n0_def)
  have u: "uniId = n0" using CoinName_valid [of n0] assms(1,2) n0 uni_of_fresh(2) [of d] by simp
  have len: "length MinDenomSuffix \<le> length d"
  proof (rule ccontr)
    assume "\<not> length MinDenomSuffix \<le> length d"
    then have "length n0 < 4" using arg_cong [OF n0(1), of length]
      by (simp add: uni_of_def FormatUniABSPrefix_def MinDenomSuffix_def)
    moreover have "take (length n0) (uni_of d) = n0" using n0(1) by simp
    ultimately show False
      using n0(1) by (auto simp: uni_of_def FormatUniABSPrefix_def MinDenomSuffix_def append_eq_Cons_conv Cons_eq_append_conv)
  qed
  have "FormatUniABSPrefix @ d = n0 @ MinDenomSuffix" using n0(1) by (simp add: uni_of_def)
  then obtain us where "FormatUniABSPrefix = n0 @ us \<and> us @ d = MinDenomSuffix \<or>
      FormatUniABSPrefix @ us = n0 \<and> d = us @ MinDenomSuffix" unfolding append_eq_append_conv2 by blast
  then obtain k where k: "d = k @ MinDenomSuffix"
  proof
    assume "FormatUniABSPrefix = n0 @ us \<and> us @ d = MinDenomSuffix"
    then have "us @ d = MinDenomSuffix" by simp
    with len have "us = []" by (metis add_le_same_cancel2 le_zero_eq length_append length_0_conv)
    with \<open>us @ d = MinDenomSuffix\<close> that [of "[]"] show thesis by simp
  qed (use that in simp)
  have n0k: "n0 = FormatUniABSPrefix @ k" using n0(1) k by (simp add: uni_of_def)
  then have "list_all name_char k" using n0(3) by simp
  then have low: "ToLower d = d" using k lower_denom by simp
  show "d \<noteq> IrisAtto" using k by (auto simp: IrisAtto_def MinDenomSuffix_def append_eq_Cons_conv)
  have "n = k"
  proof (cases "HasPrefix d (Iris @ ''-'')")
    case True
    then obtain r where r: "d = Iris @ ''-'' @ r" by (auto simp: HasPrefix_def prefix_def)
    have "GetUnit (ct_Units NewIrisCoinType) d \<noteq> None" using assms(3) low True by (auto simp: GetCoinNameByDenom_def Let_def split: option.splits)
    then show ?thesis using k by (auto simp: NewIrisCoinType_def iris_units_def NewUnit_def low Iris_def MinDenomSuffix_def
          ToLower_def lower_char_def append_eq_Cons_conv split: if_splits)
  next
    case False
    then show ?thesis using assms(3) low k by (auto simp: GetCoinNameByDenom_def Let_def split: if_splits)
  qed
  then show "getReservePoolAddr E uniId = pool_of E d" using u n0k assms(3) by (simp add: pool_of_def)
qed

lemma withdrawn_amount_spec:
  assumes "withdrawn_amount w r l = Some x" "0 < w" "w \<le> l" "0 \<le> r"
  shows "0 \<le> x" "x * l \<le> w * r"
proof -
  have x: "x = w * r div l"
    using assms(1-3) by (auto simp: withdrawn_amount_def bind_eq_Some_conv Int_Div_pos dest!: Int_Mul_Some_imp)
  show "0 \<le> x" unfolding x using assms by (simp add: pos_imp_zdiv_nonneg_iff)
  show "x * l \<le> w * r" unfolding x using assms by (simp add: minus_mod_eq_div_mult [symmetric])
qed

text \<open>What a withdrawal of \<open>w\<close> vouchers does: they are burned twice, and the pool pays \<open>x\<close> iris and
  \<open>y\<close> tokens, both rounded down.\<close>

lemma HandleRemoveLiquidity_spec:
  assumes "HandleRemoveLiquidity E msg s = Ok u t" "MsgRemoveLiquidity_ValidateBasic msg = Inr ()" "accounts_ok s"
    and "rl_WithdrawLiquidity msg = \<lparr>Denom = uni_of d, Amount = w\<rparr>" "p = pool_of E d"
  obtains x y where "accounts_ok t" "auth_state.more t = auth_state.more s" "0 < w" "w \<le> balance p (uni_of d) s"
    "d \<noteq> IrisAtto" "rl_MinIrisAmt msg \<le> x" "rl_MinToken msg \<le> y"
    "withdrawn_amount w (balance p IrisAtto s) (balance p (uni_of d) s) = Some x"
    "withdrawn_amount w (balance p d s) (balance p (uni_of d) s) = Some y"
    "ledger t = credit (rl_Sender msg) [\<lparr>Denom = IrisAtto, Amount = x\<rparr>, \<lparr>Denom = d, Amount = y\<rparr>]
       (debit p [\<lparr>Denom = IrisAtto, Amount = x\<rparr>, \<lparr>Denom = d, Amount = y\<rparr>]
       (debit (rl_Sender msg) [\<lparr>Denom = uni_of d, Amount = w\<rparr>] (debit p [\<lparr>Denom = uni_of d, Amount = w\<rparr>] (ledger s))))"
    "\<And>e. total_coins e t = total_coins e s - (if e = uni_of d then 2 * w else 0)"
proof -
  have v: "IsCoinMinDenomValid (uni_of d)" "0 < w"
    using assms(2,4) by (auto simp: MsgRemoveLiquidity_ValidateBasic_def Coin_IsValid_def split: if_splits)
  have min: "GetCoinMinDenomFromUniDenom (uni_of d) = Inr d"
    using v(1) by (simp add: GetCoinMinDenomFromUniDenom_def CheckUniDenom_def uni_of_def HasPrefix_def)
  obtain uniId x y where u: "GetCoinNameByDenom (uni_of d) = Some uniId"
    and ge: "rl_MinIrisAmt msg \<le> x" "rl_MinToken msg \<le> y" "0 \<le> x" "0 \<le> y"
      "w \<le> AmountOf (GetReservePool E uniId s) (uni_of d)"
    and pair: "GetCoinNameByDenom d \<noteq> None"
    and amt: "withdrawn_amount w (AmountOf (GetReservePool E uniId s) IrisAtto) (AmountOf (GetReservePool E uniId s) (uni_of d)) = Some x"
      "withdrawn_amount w (AmountOf (GetReservePool E uniId s) d) (AmountOf (GetReservePool E uniId s) (uni_of d)) = Some y"
    and rem: "removeLiquidity E (getReservePoolAddr E uniId) (rl_Sender msg) \<lparr>Denom = uni_of d, Amount = w\<rparr>
      \<lparr>Denom = IrisAtto, Amount = x\<rparr> \<lparr>Denom = d, Amount = y\<rparr> s = Ok u t"
    using assms(1,4) min
    by (auto simp: HandleRemoveLiquidity_def Let_def getTokenPairByDenom_def bind_eq_Some_conv not_less
        split: if_splits option.splits)
  from pair obtain n where "GetCoinNameByDenom d = Some n" by blast
  note up = uni_pool(1) [OF v(1) u this, of E] uni_pool(2) [OF v(1) u this]
  have pool: "getReservePoolAddr E uniId = p" using up(1) assms(5) by simp
  note sp = removeLiquidity_spec [OF rem [unfolded pool] assms(3)]
  show thesis
  proof (rule that [of x y])
    show "total_coins e t = total_coins e s - (if e = uni_of d then 2 * w else 0)" for e using sp(4) [of e] by simp
  qed (use sp up(2) v(2) ge amt [unfolded pool_amount [OF assms(3)] pool] in
      \<open>simp_all add: pool_amount [OF assms(3)] pool\<close>)
qed

section \<open>The value of a voucher\<close>

text \<open>\<open>share_grows E d s t\<close>: from \<open>s\<close> to \<open>t\<close> the reserves per voucher of the pool of \<open>d\<close> do not fall,
  written without division.\<close>

definition share_grows :: "'e externals_scheme \<Rightarrow> string \<Rightarrow> 'z auth_state_scheme \<Rightarrow> 'z auth_state_scheme \<Rightarrow> bool" where
  "share_grows E d s t \<longleftrightarrow> (\<forall>r\<in>{IrisAtto, d}.
     balance (pool_of E d) r s * balance (pool_of E d) (uni_of d) t \<le>
     balance (pool_of E d) r t * balance (pool_of E d) (uni_of d) s)"

lemma deposit_fair:
  assumes "HandleAddLiquidity E msg s = Ok u t" "MsgAddLiquidity_ValidateBasic msg = Inr ()" "accounts_ok s"
    and "d = Denom (al_MaxToken msg)" "balance (pool_of E d) (uni_of d) s \<noteq> 0" "al_Sender msg \<noteq> pool_of E d"
  shows "share_grows E d s t"
proof -
  define p where "p = pool_of E d"
  have nn: "0 \<le> balance p e s" for e using balance_nonneg [OF assms(3)] .
  have x: "0 \<le> al_ExactIrisAmt msg" using assms(2) by (auto simp: MsgAddLiquidity_ValidateBasic_def split: if_splits)
  obtain m y where terms: "liquidity_terms (balance p IrisAtto s) (balance p d s) (balance p (uni_of d) s) msg =
       Some (Inr (m, \<lparr>Denom = d, Amount = y\<rparr>))" and d: "d \<noteq> IrisAtto"
    and t: "ledger t = credit (al_Sender msg) [\<lparr>Denom = uni_of d, Amount = m\<rparr>] (credit p [\<lparr>Denom = uni_of d, Amount = m\<rparr>]
       (credit p [\<lparr>Denom = IrisAtto, Amount = al_ExactIrisAmt msg\<rparr>, \<lparr>Denom = d, Amount = y\<rparr>]
       (debit (al_Sender msg) [\<lparr>Denom = IrisAtto, Amount = al_ExactIrisAmt msg\<rparr>, \<lparr>Denom = d, Amount = y\<rparr>] (ledger s))))"
    using HandleAddLiquidity_spec [OF assms(1-4) p_def refl] by blast
  define I T L where "I = balance p IrisAtto s" and "T = balance p d s" and "L = balance p (uni_of d) s"
  note tr = terms_in_range [OF terms assms(5) [folded p_def] nn nn nn x, folded I_def T_def L_def, simplified]
  have nn': "0 \<le> T" "0 \<le> L" using nn by (simp_all add: T_def L_def)
  have after: "balance p IrisAtto t = I + al_ExactIrisAmt msg" "balance p d t = T + y" "balance p (uni_of d) t = L + m"
    using fun_cong [OF fun_cong [OF t], of p] assms(6) d p_def
    by (auto simp: ledger_def credit_def debit_def I_def T_def L_def)
  have "I * (L + m) \<le> (I + al_ExactIrisAmt msg) * L" using tr(4) by (simp add: algebra_simps)
  moreover have "T * (L + m) \<le> (T + y) * L"
  proof -
    have "T * (I * m) \<le> T * (L * al_ExactIrisAmt msg)" using tr(4) nn'(1) by (rule mult_left_mono)
    moreover have "(T * al_ExactIrisAmt msg) * L \<le> (y * I) * L" using tr(6) nn'(2) by (intro mult_right_mono) simp_all
    ultimately have "I * (T * m) \<le> I * (y * L)" by (simp add: algebra_simps)
    then have "T * m \<le> y * L" using tr(1) by simp
    then show ?thesis by (simp add: algebra_simps)
  qed
  ultimately show ?thesis
    unfolding share_grows_def p_def [symmetric] by (simp add: after I_def [symmetric] T_def [symmetric] L_def [symmetric])
qed

lemma withdrawal_fair:
  assumes "HandleRemoveLiquidity E msg s = Ok u t" "MsgRemoveLiquidity_ValidateBasic msg = Inr ()" "accounts_ok s"
    and "rl_WithdrawLiquidity msg = \<lparr>Denom = uni_of d, Amount = w\<rparr>" "rl_Sender msg \<noteq> pool_of E d"
  shows "share_grows E d s t"
proof -
  define p where "p = pool_of E d"
  obtain x y where w: "0 < w" "w \<le> balance p (uni_of d) s" and d: "d \<noteq> IrisAtto"
    and x: "withdrawn_amount w (balance p IrisAtto s) (balance p (uni_of d) s) = Some x"
    and y: "withdrawn_amount w (balance p d s) (balance p (uni_of d) s) = Some y"
    and t: "ledger t = credit (rl_Sender msg) [\<lparr>Denom = IrisAtto, Amount = x\<rparr>, \<lparr>Denom = d, Amount = y\<rparr>]
       (debit p [\<lparr>Denom = IrisAtto, Amount = x\<rparr>, \<lparr>Denom = d, Amount = y\<rparr>]
       (debit (rl_Sender msg) [\<lparr>Denom = uni_of d, Amount = w\<rparr>] (debit p [\<lparr>Denom = uni_of d, Amount = w\<rparr>] (ledger s))))"
    using HandleRemoveLiquidity_spec [OF assms(1-4) p_def] by blast
  have after: "balance p IrisAtto t = balance p IrisAtto s - x" "balance p d t = balance p d s - y"
    "balance p (uni_of d) t = balance p (uni_of d) s - w"
    using fun_cong [OF fun_cong [OF t], of p] assms(5) d p_def
    by (auto simp: ledger_def credit_def debit_def)
  have "x * balance p (uni_of d) s \<le> w * balance p IrisAtto s" "y * balance p (uni_of d) s \<le> w * balance p d s"
    using withdrawn_amount_spec(2) x y w balance_nonneg [OF assms(3)] by blast+
  then show ?thesis unfolding share_grows_def p_def [symmetric] by (simp add: after algebra_simps)
qed

section \<open>Vouchers are backed\<close>

lemma swapCoins_other:
  assumes "swapCoins E a r sold bought s = Ok u t" "accounts_ok s" "e \<noteq> Denom sold" "e \<noteq> Denom bought"
  shows "ledger t c e = ledger s c e"
  using assms(1,2) by (rule swapCoins_spec) (use assms(3,4) in \<open>simp add: transfer_apply\<close>)

lemma HandleSwap_other:
  assumes "HandleSwap E msg s = Ok n t" "accounts_ok s"
    and "e \<noteq> IrisAtto" "e \<noteq> Denom (sin_Coin (so_Input msg))" "e \<noteq> Denom (sout_Coin (so_Output msg))"
  shows "accounts_ok t" "ledger t c e = ledger s c e" "total_coins e t = total_coins e s"
proof -
  have two: "accounts_ok t \<and> ledger t c e = ledger s c e \<and> total_coins e t = total_coins e s"
    if "swapCoins E a r c1 c2 s = Ok u s1" "swapCoins E a r c3 c4 s1 = Ok v t"
      "e \<notin> {Denom c1, Denom c2, Denom c3, Denom c4}" for a r c1 c2 c3 c4 u v s1
    using swap_keeps [OF that(1) assms(2)] swap_keeps [OF that(2)] swapCoins_other [OF that(1) assms(2), of e c]
      swapCoins_other [OF that(2), of e c] that(3) by simp
  have one: "accounts_ok t \<and> ledger t c e = ledger s c e \<and> total_coins e t = total_coins e s"
    if "swapCoins E a r c1 c2 s = Ok u t" "e \<notin> {Denom c1, Denom c2}" for a r c1 c2 u
    using swap_keeps [OF that(1) assms(2)] swapCoins_other [OF that(1) assms(2), of e c] that(2) by simp
  have "accounts_ok t \<and> ledger t c e = ledger s c e \<and> total_coins e t = total_coins e s"
    using assms(1,3-5) one two
    by (auto simp: HandleSwap_def Let_def doubleTradeInputForExactOutput_def tradeInputForExactOutput_def
        doubleTradeExactInputForOutput_def tradeExactInputForOutput_def
        split: if_splits dest!: calculate_state)
  then show "accounts_ok t" "ledger t c e = ledger s c e" "total_coins e t = total_coins e s" by simp_all
qed

definition SwapMsg_signer :: "SwapMsg \<Rightarrow> AccAddress" where
  "SwapMsg_signer msg =
     (case msg of SwapOrder m \<Rightarrow> sin_Address (so_Input m) | AddLiq m \<Rightarrow> al_Sender m | RemoveLiq m \<Rightarrow> rl_Sender m)"

definition no_pool :: "'e externals_scheme \<Rightarrow> AccAddress \<Rightarrow> bool" where
  "no_pool E a \<longleftrightarrow> (\<forall>d. a \<noteq> pool_of E d)"

text \<open>The chain as the module sees it: validated messages are delivered at some block time, and other
  modules move coins through the bank. Nobody signs for a pool, whose address is a hash.\<close>

inductive swap_step :: "'e externals_scheme \<Rightarrow> 'z swap_state_scheme \<Rightarrow> 'z swap_state_scheme \<Rightarrow> bool"
  for E :: "'e externals_scheme" where
  deliver: "SwapMsg_ValidateBasic msg = Inr () \<Longrightarrow> no_pool E (SwapMsg_signer msg) \<Longrightarrow>
    SwapHandler E now msg s = Ok u t \<Longrightarrow> swap_step E s t"
| move: "sendCoins E a b amt s = Ok amt' t \<Longrightarrow> no_pool E a \<Longrightarrow> swap_step E s t"

inductive swap_reach :: "'e externals_scheme \<Rightarrow> 'z swap_state_scheme \<Rightarrow> bool"
  for E :: "'e externals_scheme" where
  start: "accounts_ok s \<Longrightarrow> (\<forall>d. total_coins (uni_of d) s = 0) \<Longrightarrow> swap_reach E s"
| more: "swap_reach E s \<Longrightarrow> swap_step E s t \<Longrightarrow> swap_reach E t"

definition backed :: "'e externals_scheme \<Rightarrow> 'z auth_state_scheme \<Rightarrow> bool" where
  "backed E s \<longleftrightarrow> accounts_ok s \<and>
     (\<forall>d. total_coins (uni_of d) s \<le> 2 * balance (pool_of E d) (uni_of d) s)"

lemma uni_of_inj [simp]: "uni_of d = uni_of e \<longleftrightarrow> d = e"
  by (simp add: uni_of_def)

lemma name_parts_colon: "name_parts chn gw tok \<Longrightarrow> CHR '':'' \<notin> set (gw @ tok @ MinDenomSuffix)"
  by (auto simp: name_parts_def list_all_iff MinDenomSuffix_def) (use alpha_not_special(3) in blast)+

text \<open>There are no vouchers of vouchers.\<close>

lemma no_double_uni: "\<not> IsCoinMinDenomValid (uni_of (uni_of e))"
proof
  assume "IsCoinMinDenomValid (uni_of (uni_of e))"
  then obtain chn gw tok where p: "uni_of (uni_of e) = chn @ gw @ tok @ MinDenomSuffix" "name_parts chn gw tok"
    using uni_of_fresh(2) by (rule valid_denom_parts)
  have "drop 4 (uni_of (uni_of e)) = uni_of e" "CHR '':'' \<in> set (uni_of e)" "CHR '':'' \<in> set (uni_of (uni_of e))"
    by (simp_all add: uni_of_def FormatUniABSPrefix_def)
  moreover have "chn = [] \<or> length chn = 4" using p(2) by (auto simp: name_parts_def)
  ultimately show False
    using name_parts_colon [OF p(2)] p(1) by (metis append_Nil append_eq_conv_conj)
qed

text \<open>A balance of vouchers after a change of the ledger.\<close>

lemma backedI:
  assumes "backed E s" "accounts_ok t"
    and "\<And>e. total_coins (uni_of e) t = total_coins (uni_of e) s + 2 * f e"
    and "\<And>e. ledger s (pool_of E e) (uni_of e) + f e \<le> ledger t (pool_of E e) (uni_of e)"
  shows "backed E t"
proof -
  have "total_coins (uni_of e) t \<le> 2 * balance (pool_of E e) (uni_of e) t" for e
  proof -
    have "total_coins (uni_of e) s \<le> 2 * balance (pool_of E e) (uni_of e) s" using assms(1) by (simp add: backed_def)
    then show ?thesis using assms(3) [of e] assms(4) [of e] unfolding ledger_def by linarith
  qed
  with assms(2) show ?thesis by (simp add: backed_def)
qed

lemma backed_deposit:
  assumes "HandleAddLiquidity E msg s = Ok u t" "MsgAddLiquidity_ValidateBasic msg = Inr ()" "backed E s"
  shows "backed E t"
proof -
  define d where "d = Denom (al_MaxToken msg)"
  have wf: "accounts_ok s" using assms(3) by (simp add: backed_def)
  obtain m y where ok: "accounts_ok t" "0 \<le> m"
    and t: "ledger t = credit (al_Sender msg) [\<lparr>Denom = uni_of d, Amount = m\<rparr>] (credit (pool_of E d) [\<lparr>Denom = uni_of d, Amount = m\<rparr>]
       (credit (pool_of E d) [\<lparr>Denom = IrisAtto, Amount = al_ExactIrisAmt msg\<rparr>, \<lparr>Denom = d, Amount = y\<rparr>]
       (debit (al_Sender msg) [\<lparr>Denom = IrisAtto, Amount = al_ExactIrisAmt msg\<rparr>, \<lparr>Denom = d, Amount = y\<rparr>] (ledger s))))"
    and tot: "\<And>e. total_coins e t = total_coins e s + (if e = uni_of d then 2 * m else 0)"
    using HandleAddLiquidity_spec [OF assms(1,2) wf d_def refl refl] by blast
  have nu: "d \<noteq> uni_of e" for e
    using assms(2) by (auto simp: MsgAddLiquidity_ValidateBasic_def d_def uni_of_def HasPrefix_def split: if_splits)
  show ?thesis
  proof (rule backedI [OF assms(3) ok(1), of "\<lambda>e. if e = d then m else 0"])
    show "total_coins (uni_of e) t = total_coins (uni_of e) s + 2 * (if e = d then m else 0)" for e by (simp add: tot)
    show "ledger s (pool_of E e) (uni_of e) + (if e = d then m else 0) \<le> ledger t (pool_of E e) (uni_of e)" for e
      unfolding t using ok(2) nu [of e] nu [of e, symmetric] by (simp add: credit_def debit_def)
  qed
qed

lemma backed_withdrawal:
  assumes "HandleRemoveLiquidity E msg s = Ok u t" "MsgRemoveLiquidity_ValidateBasic msg = Inr ()" "backed E s"
    and "no_pool E (rl_Sender msg)"
  shows "backed E t"
proof -
  have wf: "accounts_ok s" using assms(3) by (simp add: backed_def)
  have v: "IsCoinMinDenomValid (Denom (rl_WithdrawLiquidity msg))"
    "HasPrefix (Denom (rl_WithdrawLiquidity msg)) FormatUniABSPrefix"
    using assms(2) by (auto simp: MsgRemoveLiquidity_ValidateBasic_def CheckUniDenom_def split: if_splits)
  then obtain d where d: "Denom (rl_WithdrawLiquidity msg) = uni_of d" by (auto simp: HasPrefix_def prefix_def uni_of_def)
  then have w: "rl_WithdrawLiquidity msg = \<lparr>Denom = uni_of d, Amount = Amount (rl_WithdrawLiquidity msg)\<rparr>" by simp
  define n where "n = Amount (rl_WithdrawLiquidity msg)"
  obtain x y where ok: "accounts_ok t"
    and t: "ledger t = credit (rl_Sender msg) [\<lparr>Denom = IrisAtto, Amount = x\<rparr>, \<lparr>Denom = d, Amount = y\<rparr>]
       (debit (pool_of E d) [\<lparr>Denom = IrisAtto, Amount = x\<rparr>, \<lparr>Denom = d, Amount = y\<rparr>]
       (debit (rl_Sender msg) [\<lparr>Denom = uni_of d, Amount = n\<rparr>] (debit (pool_of E d) [\<lparr>Denom = uni_of d, Amount = n\<rparr>] (ledger s))))"
    and tot: "\<And>e. total_coins e t = total_coins e s - (if e = uni_of d then 2 * n else 0)"
    using HandleRemoveLiquidity_spec [OF assms(1,2) wf w refl, folded n_def] by blast
  have nu: "d \<noteq> uni_of e" for e using no_double_uni v(1) d by auto
  show ?thesis
  proof (rule backedI [OF assms(3) ok, of "\<lambda>e. if e = d then - n else 0"])
    show "total_coins (uni_of e) t = total_coins (uni_of e) s + 2 * (if e = d then - n else 0)" for e by (simp add: tot)
    show "ledger s (pool_of E e) (uni_of e) + (if e = d then - n else 0) \<le> ledger t (pool_of E e) (uni_of e)" for e
      unfolding t using nu [of e] nu [of e, symmetric] assms(4) by (auto simp: credit_def debit_def no_pool_def)
  qed
qed

lemma backed_step:
  assumes "swap_step E s t" "backed E s"
  shows "backed E t"
  using assms
proof (induction rule: swap_step.induct)
  case (deliver msg now s u t)
  have wf: "accounts_ok s" using deliver.prems by (simp add: backed_def)
  show ?case
  proof (cases msg)
    case (SwapOrder m)
    obtain n where sw: "HandleSwap E m s = Ok n t"
      using deliver.hyps(3) SwapOrder by (auto simp: SwapHandler_def HandleMsgSwapOrder_def split: if_splits)
    have "\<not> HasPrefix (Denom (sin_Coin (so_Input m))) FormatUniABSPrefix"
      "\<not> HasPrefix (Denom (sout_Coin (so_Output m))) FormatUniABSPrefix"
      using deliver.hyps(1) SwapOrder
      by (auto simp: SwapMsg_ValidateBasic_def MsgSwapOrder_ValidateBasic_def Let_def split: if_splits)
    moreover have "HasPrefix (uni_of e) FormatUniABSPrefix" for e by (simp add: HasPrefix_def uni_of_def)
    ultimately have "uni_of e \<noteq> Denom (sin_Coin (so_Input m))" "uni_of e \<noteq> Denom (sout_Coin (so_Output m))" for e
      by metis+
    then show ?thesis
      using HandleSwap_other [OF sw wf uni_of_fresh(2)] by (intro backedI [OF deliver.prems, of t "\<lambda>_. 0"]) simp_all
  next
    case (AddLiq m)
    then show ?thesis
      using deliver backed_deposit
      by (auto simp: SwapHandler_def HandleMsgAddLiquidity_def SwapMsg_ValidateBasic_def split: if_splits)
  next
    case (RemoveLiq m)
    then show ?thesis
      using deliver backed_withdrawal
      by (auto simp: SwapHandler_def HandleMsgRemoveLiquidity_def SwapMsg_ValidateBasic_def SwapMsg_signer_def
          split: if_splits)
  qed
next
  case (move a b amt s amt' t)
  have wf: "accounts_ok s" using move.prems by (simp add: backed_def)
  note sp = sendCoins_spec [OF move.hyps(1) wf]
  have "0 \<le> bal amt e" for e
    using sendCoins_cases [OF wf, of E a b amt thesis] move.hyps(1) operand_valid cs.operand_nonneg
      bk.send_Ok [OF wf move.hyps(1)] by blast
  then show ?case
    using sp move.hyps(2) by (intro backedI [OF move.prems, of t "\<lambda>_. 0"]) (auto simp: credit_def debit_def no_pool_def)
qed

lemma swap_reach_backed: "swap_reach E s \<Longrightarrow> backed E s"
proof (induction rule: swap_reach.induct)
  case (start s)
  then show ?case using balance_nonneg [of s] by (simp add: backed_def)
qed (rule backed_step)

section \<open>Properties\<close>

text \<open>C17: A deposit into a pool that has vouchers never lowers what a voucher is worth, in iris or in
  the token: amounts are rounded against the depositor.\<close>

theorem deposit_keeps_share_value:
  assumes "HandleAddLiquidity E msg s = Ok u t" "MsgAddLiquidity_ValidateBasic msg = Inr ()" "accounts_ok s"
    and "d = Denom (al_MaxToken msg)" "balance (pool_of E d) (uni_of d) s \<noteq> 0" "al_Sender msg \<noteq> pool_of E d"
    and "r = IrisAtto \<or> r = d"
  shows "balance (pool_of E d) r s * balance (pool_of E d) (uni_of d) t \<le>
    balance (pool_of E d) r t * balance (pool_of E d) (uni_of d) s"
  using deposit_fair [OF assms(1-6)] assms(7) by (auto simp: share_grows_def)

theorem deposit_keeps_share_value_witness:
  "let m = demo_add ''abc-min''\<lparr>al_ExactIrisAmt := 7, al_MaxToken := \<lparr>Denom = ''abc-min'', Amount = 9\<rparr>\<rparr> in
   case HandleAddLiquidity demo_E m demo_pools of
     Ok u t \<Rightarrow> 100 * balance (pool_of demo_E ''abc-min'') (uni_of ''abc-min'') t \<le>
       balance (pool_of demo_E ''abc-min'') ''abc-min'' t * 100
   | _ \<Rightarrow> False"
proof -
  let ?m = "demo_add ''abc-min''\<lparr>al_ExactIrisAmt := 7, al_MaxToken := \<lparr>Denom = ''abc-min'', Amount = 9\<rparr>\<rparr>"
  have "case HandleAddLiquidity demo_E ?m demo_pools of Ok _ _ \<Rightarrow> True | _ \<Rightarrow> False" by code_simp
  then obtain u t where r: "HandleAddLiquidity demo_E ?m demo_pools = Ok u t" by (auto split: outcome.splits)
  have v: "MsgAddLiquidity_ValidateBasic ?m = Inr ()" "accounts_ok demo_pools" "''abc-min'' = Denom (al_MaxToken ?m)"
    "balance (pool_of demo_E ''abc-min'') (uni_of ''abc-min'') demo_pools \<noteq> 0"
    "al_Sender ?m \<noteq> pool_of demo_E ''abc-min''" by code_simp+
  have "balance (pool_of demo_E ''abc-min'') (uni_of ''abc-min'') demo_pools = 100"
    "balance (pool_of demo_E ''abc-min'') ''abc-min'' demo_pools = 100" by code_simp+
  then show ?thesis using deposit_keeps_share_value [OF r v, of "''abc-min''"] by (simp add: r)
qed

text \<open>C18: A withdrawal never lowers what the remaining vouchers are worth, and pays at least the
  minimum amounts the message asks for.\<close>

theorem withdrawal_keeps_share_value:
  assumes "HandleRemoveLiquidity E msg s = Ok u t" "MsgRemoveLiquidity_ValidateBasic msg = Inr ()" "accounts_ok s"
    and "rl_WithdrawLiquidity msg = \<lparr>Denom = uni_of d, Amount = w\<rparr>" "rl_Sender msg \<noteq> pool_of E d"
    and "r = IrisAtto \<or> r = d"
  shows "balance (pool_of E d) r s * balance (pool_of E d) (uni_of d) t \<le>
      balance (pool_of E d) r t * balance (pool_of E d) (uni_of d) s \<and>
    rl_MinIrisAmt msg \<le> balance (rl_Sender msg) IrisAtto t - balance (rl_Sender msg) IrisAtto s \<and>
    rl_MinToken msg \<le> balance (rl_Sender msg) d t - balance (rl_Sender msg) d s"
proof (rule HandleRemoveLiquidity_spec [OF assms(1-4) refl])
  fix x y
  assume x: "rl_MinIrisAmt msg \<le> x" "rl_MinToken msg \<le> y" "d \<noteq> IrisAtto"
    and t: "ledger t = credit (rl_Sender msg) [\<lparr>Denom = IrisAtto, Amount = x\<rparr>, \<lparr>Denom = d, Amount = y\<rparr>]
       (debit (pool_of E d) [\<lparr>Denom = IrisAtto, Amount = x\<rparr>, \<lparr>Denom = d, Amount = y\<rparr>]
       (debit (rl_Sender msg) [\<lparr>Denom = uni_of d, Amount = w\<rparr>]
       (debit (pool_of E d) [\<lparr>Denom = uni_of d, Amount = w\<rparr>] (ledger s))))"
  have "ledger t (rl_Sender msg) IrisAtto = ledger s (rl_Sender msg) IrisAtto + x"
    "ledger t (rl_Sender msg) d = ledger s (rl_Sender msg) d + y"
    unfolding t using assms(5) x(3) by (simp_all add: credit_def debit_def)
  moreover have "balance (pool_of E d) r s * balance (pool_of E d) (uni_of d) t \<le>
      balance (pool_of E d) r t * balance (pool_of E d) (uni_of d) s"
    using withdrawal_fair [OF assms(1-5)] assms(6) unfolding share_grows_def by blast
  ultimately show ?thesis using x(1,2) unfolding ledger_def by simp
qed

definition demo_remove :: MsgRemoveLiquidity where
  "demo_remove = \<lparr>rl_MinToken = 1, rl_WithdrawLiquidity = \<lparr>Denom = ''uni:abc-min'', Amount = 10\<rparr>, rl_MinIrisAmt = 2,
     rl_Deadline = 10, rl_Sender = ''alice''\<rparr>"

theorem withdrawal_keeps_share_value_witness:
  "case HandleRemoveLiquidity demo_E demo_remove demo_pools of
     Ok u t \<Rightarrow> 2 \<le> balance ''alice'' IrisAtto t - balance ''alice'' IrisAtto demo_pools | _ \<Rightarrow> False"
proof -
  have "case HandleRemoveLiquidity demo_E demo_remove demo_pools of Ok _ _ \<Rightarrow> True | _ \<Rightarrow> False" by code_simp
  then obtain u t where r: "HandleRemoveLiquidity demo_E demo_remove demo_pools = Ok u t" by (auto split: outcome.splits)
  have v: "MsgRemoveLiquidity_ValidateBasic demo_remove = Inr ()" "accounts_ok demo_pools"
    "rl_WithdrawLiquidity demo_remove = \<lparr>Denom = uni_of ''abc-min'', Amount = 10\<rparr>"
    "rl_Sender demo_remove \<noteq> pool_of demo_E ''abc-min''" by code_simp+
  have "rl_MinIrisAmt demo_remove = 2" "rl_Sender demo_remove = ''alice''" by code_simp+
  then show ?thesis using withdrawal_keeps_share_value [OF r v, of IrisAtto] by (simp add: r)
qed

text \<open>C19: Vouchers are backed. In every state reached by validated messages and transfers, whoever
  holds vouchers of a pool, all holders outside the pool together hold at most as many as the pool
  itself, so the reserve check of a withdrawal never blocks a holder.\<close>

theorem vouchers_backed:
  assumes "swap_reach E s"
  shows "total_coins (uni_of d) s - balance (pool_of E d) (uni_of d) s \<le> balance (pool_of E d) (uni_of d) s"
  using swap_reach_backed [OF assms] by (simp add: backed_def)

lemma demo_deposit_step:
  assumes "swap_reach demo_E s" "MsgAddLiquidity_ValidateBasic (demo_add d) = Inr ()"
    and "case HandleAddLiquidity demo_E (demo_add d) s of Ok _ _ \<Rightarrow> True | _ \<Rightarrow> False"
  shows "swap_reach demo_E (run (HandleAddLiquidity demo_E (demo_add d)) s)"
proof -
  obtain u t where t: "HandleAddLiquidity demo_E (demo_add d) s = Ok u t" using assms(3) by (auto split: outcome.splits)
  have "\<not> time_After (0, 0) (time_Unix 10)" by code_simp
  then have h: "SwapHandler demo_E (0, 0) (AddLiq (demo_add d)) s = Ok u t"
    using t by (simp add: SwapHandler_def HandleMsgAddLiquidity_def demo_add_def)
  have "no_pool demo_E (SwapMsg_signer (AddLiq (demo_add d)))"
    by (simp add: no_pool_def SwapMsg_signer_def demo_add_def pool_of_def getReservePoolAddr_def demo_E_def)
  from swap_step.deliver [OF _ this h] assms(2) have "swap_step demo_E s t" by (simp add: SwapMsg_ValidateBasic_def)
  with assms(1) show ?thesis by (simp add: run_def t swap_reach.more)
qed

lemma demo_pools_reach: "swap_reach demo_E demo_pools"
proof -
  have "accounts_ok demo_funds" by code_simp
  moreover have "total_coins (uni_of d) demo_funds = 0" for d
    by (simp add: total_coins_def demo_funds_def auth_state.defs fm_sum_upd demo_account_def uni_of_def FormatUniABSPrefix_def)
  ultimately have "swap_reach demo_E demo_funds" by (simp add: swap_reach.start)
  moreover have "MsgAddLiquidity_ValidateBasic (demo_add ''abc-min'') = Inr ()"
    "MsgAddLiquidity_ValidateBasic (demo_add ''xyz-min'') = Inr ()" by code_simp+
  moreover have "case HandleAddLiquidity demo_E (demo_add ''abc-min'') demo_funds of Ok _ _ \<Rightarrow> True | _ \<Rightarrow> False"
    "case HandleAddLiquidity demo_E (demo_add ''xyz-min'')
      (run (HandleAddLiquidity demo_E (demo_add ''abc-min'')) demo_funds) of Ok _ _ \<Rightarrow> True | _ \<Rightarrow> False"
    by code_simp+
  ultimately show ?thesis unfolding demo_pools_def by (intro demo_deposit_step)
qed

theorem vouchers_backed_witness:
  "balance ''alice'' (uni_of ''abc-min'') demo_pools = 100 \<and>
   total_coins (uni_of ''abc-min'') demo_pools - balance (pool_of demo_E ''abc-min'') (uni_of ''abc-min'') demo_pools
     \<le> balance (pool_of demo_E ''abc-min'') (uni_of ''abc-min'') demo_pools"
proof
  show "balance ''alice'' (uni_of ''abc-min'') demo_pools = 100" by code_simp
qed (rule vouchers_backed [OF demo_pools_reach])

text \<open>C20: Pool names are consistent. The voucher denomination that a deposit of a token mints leads a
  later withdrawal back to the same token and the same pool id.\<close>

theorem voucher_roundtrip:
  assumes "IsCoinMinDenomValid d" "d \<noteq> IrisAtto" "GetUniId IrisAtto d = Inr uniId" "GetUniDenom uniId = Inr uniDenom"
  shows "GetCoinMinDenomFromUniDenom uniDenom = Inr d \<and> GetCoinNameByDenom uniDenom = Some uniId"
  using uni_ids [OF assms]
  by (simp add: GetCoinMinDenomFromUniDenom_def CheckUniDenom_def HasPrefix_def)

theorem voucher_roundtrip_witness:
  "GetCoinMinDenomFromUniDenom ''uni:btc.eth-min'' = Inr ''btc.eth-min'' \<and>
   GetCoinNameByDenom ''uni:btc.eth-min'' = Some ''uni:btc.eth''"
proof -
  have "IsCoinMinDenomValid ''btc.eth-min''" "''btc.eth-min'' \<noteq> IrisAtto"
    "GetUniId IrisAtto ''btc.eth-min'' = Inr ''uni:btc.eth''" "GetUniDenom ''uni:btc.eth'' = Inr ''uni:btc.eth-min''"
    by code_simp+
  from voucher_roundtrip [OF this] show ?thesis .
qed

end
