(* ===== verification/Stores.thy ===== *)
theory Stores
  imports Prelude
begin

text \<open>
  Component: \<open>src/store\<close>, the key-value stores that wrap one another: the write cache with its
  merging iterator, the prefix store, and the byte ranges of \<open>src/types/store.go\<close>.

  The interface \<open>KVStore\<close> is a record of operations on a store state; a nil byte slice is \<open>None\<close>,
  a panic is \<open>None\<close> as well. An iterator over a store that is not written meanwhile, which is the
  interface's contract, is the list of its entries. The test \<open>IsKeyInDomain\<close> of the database
  library is the argument \<open>D\<close>.
\<close>

section \<open>The interface\<close>

record 'p KVStore =
  kv_Get :: "bytes option \<Rightarrow> 'p \<Rightarrow> (bytes option \<times> 'p) option"
  kv_Set :: "bytes option \<Rightarrow> bytes option \<Rightarrow> 'p \<Rightarrow> 'p option"
  kv_Delete :: "bytes option \<Rightarrow> 'p \<Rightarrow> 'p option"
  kv_Iter :: "bytes option \<Rightarrow> bytes option \<Rightarrow> bool \<Rightarrow> 'p \<Rightarrow> (bytes \<times> bytes) list"

definition Compare :: "bytes \<Rightarrow> bytes \<Rightarrow> int" where
  "Compare a b = (if a < b then - 1 else if a = b then 0 else 1)"

definition iter_compare :: "bool \<Rightarrow> bytes \<Rightarrow> bytes \<Rightarrow> int" where
  "iter_compare ascending a b = (if ascending then Compare a b else Compare a b * (- 1))"

section \<open>The write cache\<close>

record cValue =
  cv_value :: "bytes option"
  cv_deleted :: bool
  cv_dirty :: bool

record 'p cacheKVStore =
  ck_cache :: "(bytes, cValue) fmap"
  ck_parent :: 'p

definition NewCacheKVStore :: "'p \<Rightarrow> 'p cacheKVStore" where
  "NewCacheKVStore parent = \<lparr>ck_cache = fmempty, ck_parent = parent\<rparr>"

definition setCacheValue :: "bytes \<Rightarrow> bytes option \<Rightarrow> bool \<Rightarrow> bool \<Rightarrow> 'p cacheKVStore \<Rightarrow> 'p cacheKVStore" where
  "setCacheValue key val deleted dirty ci =
     ci\<lparr>ck_cache := fmupd key \<lparr>cv_value = val, cv_deleted = deleted, cv_dirty = dirty\<rparr> (ck_cache ci)\<rparr>"

definition cache_Get :: "'p KVStore \<Rightarrow> bytes option \<Rightarrow> 'p cacheKVStore \<Rightarrow> (bytes option \<times> 'p cacheKVStore) option" where
  "cache_Get P key0 ci =
     do {
       key \<leftarrow> key0;
       case fmlookup (ck_cache ci) key of
         None \<Rightarrow> do {
           (val, parent) \<leftarrow> kv_Get P key0 (ck_parent ci);
           Some (val, setCacheValue key val False False (ci\<lparr>ck_parent := parent\<rparr>))
         }
       | Some cacheValue \<Rightarrow> Some (cv_value cacheValue, ci)
     }"

definition cache_Set :: "bytes option \<Rightarrow> bytes option \<Rightarrow> 'p cacheKVStore \<Rightarrow> 'p cacheKVStore option" where
  "cache_Set key0 val0 ci = do { key \<leftarrow> key0; val \<leftarrow> val0; Some (setCacheValue key (Some val) False True ci) }"

definition cache_Has :: "'p KVStore \<Rightarrow> bytes option \<Rightarrow> 'p cacheKVStore \<Rightarrow> (bool \<times> 'p cacheKVStore) option" where
  "cache_Has P key ci = map_option (\<lambda>(val, ci'). (val \<noteq> None, ci')) (cache_Get P key ci)"

definition cache_Delete :: "bytes option \<Rightarrow> 'p cacheKVStore \<Rightarrow> 'p cacheKVStore option" where
  "cache_Delete key0 ci = do { key \<leftarrow> key0; Some (setCacheValue key None True True ci) }"

definition write_key :: "'p KVStore \<Rightarrow> (bytes, cValue) fmap \<Rightarrow> bytes \<Rightarrow> 'p \<Rightarrow> 'p option" where
  "write_key P cache key parent =
     (case fmlookup cache key of
        None \<Rightarrow> Some parent
      | Some cacheValue \<Rightarrow>
          if cv_deleted cacheValue then kv_Delete P (Some key) parent
          else if cv_value cacheValue = None then Some parent
          else kv_Set P (Some key) (cv_value cacheValue) parent)"

fun write_keys :: "'p KVStore \<Rightarrow> (bytes, cValue) fmap \<Rightarrow> bytes list \<Rightarrow> 'p \<Rightarrow> 'p option" where
  "write_keys P cache [] parent = Some parent"
| "write_keys P cache (key # keys) parent =
     do { parent' \<leftarrow> write_key P cache key parent; write_keys P cache keys parent' }"

definition dirty_keys :: "(bytes, cValue) fmap \<Rightarrow> bytes list" where
  "dirty_keys cache = map fst (filter (\<lambda>(_, cv). cv_dirty cv) (sorted_list_of_fmap cache))"

definition cache_Write :: "'p KVStore \<Rightarrow> 'p cacheKVStore \<Rightarrow> 'p cacheKVStore option" where
  "cache_Write P ci =
     do {
       parent \<leftarrow> write_keys P (ck_cache ci) (dirty_keys (ck_cache ci)) (ck_parent ci);
       Some \<lparr>ck_cache = fmempty, ck_parent = parent\<rparr>
     }"

section \<open>Iterators\<close>

definition dirtyItems ::
  "(bytes \<Rightarrow> bytes option \<Rightarrow> bytes option \<Rightarrow> bool) \<Rightarrow> bytes option \<Rightarrow> bytes option \<Rightarrow> bool \<Rightarrow>
   'p cacheKVStore \<Rightarrow> (bytes \<times> bytes option) list" where
  "dirtyItems D start end ascending ci =
     (let items = map (\<lambda>(key, cv). (key, cv_value cv))
            (filter (\<lambda>(key, cv). cv_dirty cv \<and> D key start end) (sorted_list_of_fmap (ck_cache ci)))
      in if ascending then items else rev items)"

definition newMemIterator ::
  "(bytes \<Rightarrow> bytes option \<Rightarrow> bytes option \<Rightarrow> bool) \<Rightarrow> bytes option \<Rightarrow> bytes option \<Rightarrow>
   (bytes \<times> bytes option) list \<Rightarrow> (bytes \<times> bytes option) list" where
  "newMemIterator D start end items = filter (\<lambda>item. D (fst item) start end) items"

record mergeIterator =
  mi_parent :: "(bytes \<times> bytes) list"
  mi_cache :: "(bytes \<times> bytes option) list"
  mi_ascending :: bool

fun skipCacheDeletes :: "bool \<Rightarrow> bytes option \<Rightarrow> (bytes \<times> bytes option) list \<Rightarrow> (bytes \<times> bytes option) list" where
  "skipCacheDeletes ascending until [] = []"
| "skipCacheDeletes ascending until ((key, val) # items) =
     (if val = None \<and> (case until of None \<Rightarrow> True | Some u \<Rightarrow> iter_compare ascending key u < 0)
      then skipCacheDeletes ascending until items
      else (key, val) # items)"

lemma length_skipCacheDeletes: "length (skipCacheDeletes ascending until items) \<le> length items"
  by (induction items) auto

lemma iter_compare_cases:
  "iter_compare asc a b = - 1 \<longleftrightarrow> iter_compare asc a b < 0" "iter_compare asc a b = 0 \<longleftrightarrow> a = b"
  "iter_compare asc a b = 1 \<longleftrightarrow> iter_compare asc b a < 0" "iter_compare asc a a = 0"
  "a = b \<or> iter_compare asc a b < 0 \<or> iter_compare asc b a < 0"
  "iter_compare asc a b < 0 \<Longrightarrow> \<not> iter_compare asc b a < 0"
  by (auto simp: iter_compare_def Compare_def split: if_splits)

function skipUntilExistsOrInvalid :: "mergeIterator \<Rightarrow> mergeIterator \<times> bool" where
  "skipUntilExistsOrInvalid iter =
     (case mi_parent iter of
        [] \<Rightarrow>
          let cache = skipCacheDeletes (mi_ascending iter) None (mi_cache iter)
          in (iter\<lparr>mi_cache := cache\<rparr>, cache \<noteq> [])
      | (keyP, _) # parent' \<Rightarrow>
          (case mi_cache iter of
             [] \<Rightarrow> (iter, True)
           | (keyC, valueC) # cache' \<Rightarrow>
               let c = iter_compare (mi_ascending iter) keyP keyC in
               if c = - 1 then (iter, True)
               else if c = 0 then
                 (if valueC = None
                  then skipUntilExistsOrInvalid (iter\<lparr>mi_parent := parent', mi_cache := cache'\<rparr>)
                  else (iter, True))
               else
                 (if valueC = None
                  then skipUntilExistsOrInvalid
                    (iter\<lparr>mi_cache := skipCacheDeletes (mi_ascending iter) (Some keyP) (mi_cache iter)\<rparr>)
                  else (iter, True))))"
  by auto

termination
proof (relation "measure (\<lambda>iter. length (mi_parent iter) + length (mi_cache iter))", goal_cases)
  case (3 iter x xs k v y ys kc vc c)
  then have "iter_compare (mi_ascending iter) kc k < 0"
    using iter_compare_cases(1,2,5) by metis
  with 3 show ?case
    using length_skipCacheDeletes [of "mi_ascending iter" "Some k" ys] by auto
qed auto

declare skipUntilExistsOrInvalid.simps [simp del]

definition mi_Valid :: "mergeIterator \<Rightarrow> mergeIterator \<times> bool" where
  "mi_Valid iter = skipUntilExistsOrInvalid iter"

definition assertValid :: "mergeIterator \<Rightarrow> mergeIterator option" where
  "assertValid iter = (case mi_Valid iter of (iter', valid) \<Rightarrow> if valid then Some iter' else None)"

definition mi_Next :: "mergeIterator \<Rightarrow> mergeIterator option" where
  "mi_Next iter0 =
     do {
       iter \<leftarrow> assertValid (fst (skipUntilExistsOrInvalid iter0));
       case (mi_parent iter, mi_cache iter) of
         ([], []) \<Rightarrow> None
       | ([], _ # cache') \<Rightarrow> Some (iter\<lparr>mi_cache := cache'\<rparr>)
       | (_ # parent', []) \<Rightarrow> Some (iter\<lparr>mi_parent := parent'\<rparr>)
       | ((keyP, _) # parent', (keyC, _) # cache') \<Rightarrow>
           let c = iter_compare (mi_ascending iter) keyP keyC in
           if c = - 1 then Some (iter\<lparr>mi_parent := parent'\<rparr>)
           else if c = 0 then Some (iter\<lparr>mi_parent := parent', mi_cache := cache'\<rparr>)
           else Some (iter\<lparr>mi_cache := cache'\<rparr>)
     }"

definition mi_Key :: "mergeIterator \<Rightarrow> (bytes \<times> mergeIterator) option" where
  "mi_Key iter0 =
     do {
       iter \<leftarrow> assertValid (fst (skipUntilExistsOrInvalid iter0));
       case (mi_parent iter, mi_cache iter) of
         ([], []) \<Rightarrow> None
       | ([], (keyC, _) # _) \<Rightarrow> Some (keyC, iter)
       | ((keyP, _) # _, []) \<Rightarrow> Some (keyP, iter)
       | ((keyP, _) # _, (keyC, _) # _) \<Rightarrow>
           let c = iter_compare (mi_ascending iter) keyP keyC in
           if c = - 1 then Some (keyP, iter) else if c = 0 then Some (keyP, iter) else Some (keyC, iter)
     }"

definition mi_Value :: "mergeIterator \<Rightarrow> (bytes option \<times> mergeIterator) option" where
  "mi_Value iter0 =
     do {
       iter \<leftarrow> assertValid (fst (skipUntilExistsOrInvalid iter0));
       case (mi_parent iter, mi_cache iter) of
         ([], []) \<Rightarrow> None
       | ([], (_, valC) # _) \<Rightarrow> Some (valC, iter)
       | ((_, valP) # _, []) \<Rightarrow> Some (Some valP, iter)
       | ((keyP, valP) # _, (keyC, valC) # _) \<Rightarrow>
           let c = iter_compare (mi_ascending iter) keyP keyC in
           if c = - 1 then Some (Some valP, iter) else if c = 0 then Some (valC, iter) else Some (valC, iter)
     }"

definition cache_iterator ::
  "'p KVStore \<Rightarrow> (bytes \<Rightarrow> bytes option \<Rightarrow> bytes option \<Rightarrow> bool) \<Rightarrow> bytes option \<Rightarrow> bytes option \<Rightarrow> bool \<Rightarrow>
   'p cacheKVStore \<Rightarrow> mergeIterator" where
  "cache_iterator P D start end ascending ci =
     \<lparr>mi_parent = kv_Iter P start end ascending (ck_parent ci),
      mi_cache = newMemIterator D start end (dirtyItems D start end ascending ci),
      mi_ascending = ascending\<rparr>"

text \<open>What the loop \<open>for ; iter.Valid(); iter.Next()\<close> sees of a merging iterator: the keys and the
  values in turn. The counter bounds the rounds; \<open>drain_merge\<close> below shows that the number of
  entries of the two inputs is enough.\<close>

fun drain :: "nat \<Rightarrow> mergeIterator \<Rightarrow> (bytes \<times> bytes option) list option" where
  "drain n iter0 =
     (case mi_Valid iter0 of (iter, valid) \<Rightarrow>
        if \<not> valid then Some []
        else (case n of
          0 \<Rightarrow> None
        | Suc m \<Rightarrow>
            do {
              (key, iter1) \<leftarrow> mi_Key iter;
              (val, iter2) \<leftarrow> mi_Value iter1;
              iter3 \<leftarrow> mi_Next iter2;
              rest \<leftarrow> drain m iter3;
              Some ((key, val) # rest)
            }))"

declare drain.simps [simp del]

section \<open>The prefix store and byte ranges\<close>

function prefix_end :: "bytes \<Rightarrow> bytes option option" where
  "prefix_end e =
     (if e = [] then None
      else if last e \<noteq> CHR 0xFF then Some (Some (butlast e @ [char_of (of_char (last e) + 1 :: nat)]))
      else if butlast e = [] then Some None
      else prefix_end (butlast e))"
  by auto
termination
  by (relation "measure length") auto

declare prefix_end.simps [simp del]

definition PrefixEndBytes :: "bytes option \<Rightarrow> bytes option option" where
  "PrefixEndBytes pre = (case pre of None \<Rightarrow> Some None | Some p \<Rightarrow> prefix_end p)"

definition InclusiveEndBytes :: "bytes \<Rightarrow> bytes" where
  "InclusiveEndBytes inclusiveBytes = inclusiveBytes @ [CHR 0x00]"

definition prefix_key :: "bytes \<Rightarrow> bytes option \<Rightarrow> bytes option" where
  "prefix_key pre key = map_option (\<lambda>k. pre @ k) key"

definition prefix_Get :: "'p KVStore \<Rightarrow> bytes \<Rightarrow> bytes option \<Rightarrow> 'p \<Rightarrow> (bytes option \<times> 'p) option" where
  "prefix_Get P pre key parent = do { k \<leftarrow> prefix_key pre key; kv_Get P (Some k) parent }"

definition prefix_Set :: "'p KVStore \<Rightarrow> bytes \<Rightarrow> bytes option \<Rightarrow> bytes option \<Rightarrow> 'p \<Rightarrow> 'p option" where
  "prefix_Set P pre key val parent = do { k \<leftarrow> prefix_key pre key; kv_Set P (Some k) val parent }"

definition prefix_Delete :: "'p KVStore \<Rightarrow> bytes \<Rightarrow> bytes option \<Rightarrow> 'p \<Rightarrow> 'p option" where
  "prefix_Delete P pre key parent = do { k \<leftarrow> prefix_key pre key; kv_Delete P (Some k) parent }"

definition stripPrefix :: "bytes \<Rightarrow> bytes \<Rightarrow> bytes option" where
  "stripPrefix key pre =
     (if length key < length pre \<or> take (length pre) key \<noteq> pre then None
      else Some (drop (length pre) key))"

definition prefix_Iter :: "'p KVStore \<Rightarrow> bytes \<Rightarrow> bytes option \<Rightarrow> bytes option \<Rightarrow> bool \<Rightarrow> 'p \<Rightarrow> (bytes \<times> bytes) list option" where
  "prefix_Iter P pre start end ascending parent =
     (let newstart = pre @ (case start of None \<Rightarrow> [] | Some s \<Rightarrow> s) in
      do {
        newend \<leftarrow> (case end of None \<Rightarrow> PrefixEndBytes (Some pre) | Some e \<Rightarrow> Some (Some (pre @ e)));
        those (map (\<lambda>(key, val). map_option (\<lambda>k. (k, val)) (stripPrefix key pre))
          (takeWhile (\<lambda>(key, _). HasPrefix key pre) (kv_Iter P (Some newstart) newend ascending parent)))
      })"

section \<open>What a merging iterator lists\<close>

text \<open>The reference: one pass over the two lists, the cache's entry winning and its deletions
  dropping the parent's entry.\<close>

fun merge :: "bool \<Rightarrow> (bytes \<times> bytes) list \<Rightarrow> (bytes \<times> bytes option) list \<Rightarrow> (bytes \<times> bytes) list" where
  "merge asc ps [] = ps"
| "merge asc [] ((k, v) # cs) = (case v of None \<Rightarrow> merge asc [] cs | Some w \<Rightarrow> (k, w) # merge asc [] cs)"
| "merge asc ((kp, vp) # ps) ((k, v) # cs) =
     (if iter_compare asc kp k < 0 then (kp, vp) # merge asc ps ((k, v) # cs)
      else case v of
        None \<Rightarrow> merge asc (if kp = k then ps else (kp, vp) # ps) cs
      | Some w \<Rightarrow> (k, w) # merge asc (if kp = k then ps else (kp, vp) # ps) cs)"

definition mi_merge :: "mergeIterator \<Rightarrow> (bytes \<times> bytes) list" where
  "mi_merge iter = merge (mi_ascending iter) (mi_parent iter) (mi_cache iter)"

definition settled :: "mergeIterator \<Rightarrow> bool" where
  "settled iter =
     (case (mi_parent iter, mi_cache iter) of
        (_, []) \<Rightarrow> True
      | ([], (_, v) # _) \<Rightarrow> v \<noteq> None
      | ((kp, _) # _, (k, v) # _) \<Rightarrow> iter_compare (mi_ascending iter) kp k < 0 \<or> v \<noteq> None)"

definition mi_size :: "mergeIterator \<Rightarrow> nat" where
  "mi_size iter = length (mi_parent iter) + length (mi_cache iter)"

lemma merge_skip_all: "merge asc [] (skipCacheDeletes asc None cs) = merge asc [] cs"
  by (induction cs) auto

lemma merge_skip_until: "merge asc ((kp, vp) # ps) (skipCacheDeletes asc (Some kp) cs) = merge asc ((kp, vp) # ps) cs"
  using iter_compare_cases(4,6) by (induction cs) force+

lemma skipCacheDeletes_head: "skipCacheDeletes asc None cs = (k, v) # cs' \<Longrightarrow> v \<noteq> None"
  by (induction cs) (auto split: if_splits)

lemma skip_parent_done:
  "skipUntilExistsOrInvalid \<lparr>mi_parent = [], mi_cache = cs, mi_ascending = asc\<rparr> =
   (\<lparr>mi_parent = [], mi_cache = skipCacheDeletes asc None cs, mi_ascending = asc\<rparr>, skipCacheDeletes asc None cs \<noteq> [])"
  by (subst skipUntilExistsOrInvalid.simps) (simp add: Let_def)

lemma skip_stays:
  assumes "ps \<noteq> []" "settled \<lparr>mi_parent = ps, mi_cache = cs, mi_ascending = asc\<rparr>"
  shows "skipUntilExistsOrInvalid \<lparr>mi_parent = ps, mi_cache = cs, mi_ascending = asc\<rparr> =
    (\<lparr>mi_parent = ps, mi_cache = cs, mi_ascending = asc\<rparr>, True)"
  using assms by (subst skipUntilExistsOrInvalid.simps)
    (auto simp: Let_def settled_def iter_compare_cases(1) split: list.splits)

lemma skip_both_deleted:
  "skipUntilExistsOrInvalid \<lparr>mi_parent = (k, vp) # ps, mi_cache = (k, None) # cs, mi_ascending = asc\<rparr> =
   skipUntilExistsOrInvalid \<lparr>mi_parent = ps, mi_cache = cs, mi_ascending = asc\<rparr>"
  by (subst skipUntilExistsOrInvalid.simps) (simp add: Let_def iter_compare_cases(4))

lemma skip_cache_deleted:
  assumes "iter_compare asc k kp < 0"
  shows "skipUntilExistsOrInvalid \<lparr>mi_parent = (kp, vp) # ps, mi_cache = (k, None) # cs, mi_ascending = asc\<rparr> =
    skipUntilExistsOrInvalid \<lparr>mi_parent = (kp, vp) # ps, mi_cache = skipCacheDeletes asc (Some kp) cs, mi_ascending = asc\<rparr>"
proof -
  have "\<not> iter_compare asc kp k < 0" "kp \<noteq> k"
    using assms iter_compare_cases(4,6) by auto
  then show ?thesis
    using assms by (subst skipUntilExistsOrInvalid.simps) (simp add: Let_def iter_compare_cases(1,2))
qed

lemma unsettled:
  assumes "ps \<noteq> []" "\<not> settled \<lparr>mi_parent = ps, mi_cache = cs, mi_ascending = asc\<rparr>"
  shows "\<exists>kp vp ps' k cs'. ps = (kp, vp) # ps' \<and> cs = (k, None) # cs' \<and> \<not> iter_compare asc kp k < 0"
  using assms by (cases ps; cases cs) (auto simp: settled_def)

definition skip_ok :: "mergeIterator \<Rightarrow> mergeIterator \<times> bool \<Rightarrow> bool" where
  "skip_ok iter = (\<lambda>(iter', valid). settled iter' \<and> mi_merge iter' = mi_merge iter \<and> mi_size iter' \<le> mi_size iter \<and>
     valid = (0 < mi_size iter'))"

lemma skip_settles: "skip_ok iter (skipUntilExistsOrInvalid iter)"
proof (induction "mi_size iter" arbitrary: iter rule: less_induct)
  case less
  obtain ps cs asc where iter: "iter = \<lparr>mi_parent = ps, mi_cache = cs, mi_ascending = asc\<rparr>"
    by (cases iter) auto
  consider "ps = []" | "ps \<noteq> []" "settled iter"
    | kp vp ps' k cs' where "ps = (kp, vp) # ps'" "cs = (k, None) # cs'" "\<not> iter_compare asc kp k < 0"
    using unsettled [of ps cs asc] unfolding iter by metis
  then show ?case
  proof cases
    case 1
    then show ?thesis
      using length_skipCacheDeletes [of asc None cs] skipCacheDeletes_head [of asc cs]
      by (auto simp: iter skip_parent_done skip_ok_def settled_def mi_merge_def mi_size_def merge_skip_all split: list.splits)
  next
    case 2
    then show ?thesis
      by (simp add: iter skip_stays skip_ok_def mi_size_def)
  next
    case (3 kp vp ps' k cs')
    show ?thesis
    proof (cases "kp = k")
      case True
      then show ?thesis
        using less [of "\<lparr>mi_parent = ps', mi_cache = cs', mi_ascending = asc\<rparr>"]
        by (auto simp: iter 3(1,2) skip_both_deleted skip_ok_def mi_merge_def mi_size_def iter_compare_cases(4) split: prod.splits)
    next
      case False
      then have "iter_compare asc k kp < 0"
        using 3(3) iter_compare_cases(5) by blast
      then show ?thesis
        using False 3(3) less [of "\<lparr>mi_parent = (kp, vp) # ps', mi_cache = skipCacheDeletes asc (Some kp) cs', mi_ascending = asc\<rparr>"]
          length_skipCacheDeletes [of asc "Some kp" cs'] merge_skip_until [of asc kp vp ps' cs']
        by (auto simp: iter 3(1,2) skip_cache_deleted skip_ok_def mi_merge_def mi_size_def split: prod.splits)
    qed
  qed
qed

lemma skip_settled:
  assumes "settled iter"
  shows "skipUntilExistsOrInvalid iter = (iter, 0 < mi_size iter)"
proof -
  obtain ps cs asc where iter: "iter = \<lparr>mi_parent = ps, mi_cache = cs, mi_ascending = asc\<rparr>"
    by (cases iter) auto
  show ?thesis
  proof (cases "ps = []")
    case True
    then show ?thesis
      using assms by (cases cs) (auto simp: iter skip_parent_done settled_def mi_size_def)
  next
    case False
    then show ?thesis
      using assms by (simp add: iter skip_stays mi_size_def)
  qed
qed

lemma settled_front:
  assumes "settled iter" "0 < mi_size iter"
  shows "\<exists>k v iter'. mi_Key iter = Some (k, iter) \<and> mi_Value iter = Some (Some v, iter) \<and> mi_Next iter = Some iter' \<and>
    mi_merge iter = (k, v) # mi_merge iter' \<and> mi_size iter' < mi_size iter"
proof -
  obtain ps cs asc where iter: "iter = \<lparr>mi_parent = ps, mi_cache = cs, mi_ascending = asc\<rparr>"
    by (cases iter) auto
  have "assertValid (fst (skipUntilExistsOrInvalid iter)) = Some iter"
    using assms by (simp add: skip_settled assertValid_def mi_Valid_def)
  then show ?thesis
    using assms unfolding mi_Key_def mi_Value_def mi_Next_def
    by (cases ps; cases cs)
      (auto simp: iter settled_def mi_size_def mi_merge_def Let_def iter_compare_cases(1,2,4) split: option.splits)
qed

theorem drain_merge:
  "mi_size iter \<le> n \<Longrightarrow> drain n iter = Some (map (\<lambda>(k, v). (k, Some v)) (mi_merge iter))"
proof (induction n arbitrary: iter rule: less_induct)
  case (less n)
  obtain iter1 valid where skip: "skipUntilExistsOrInvalid iter = (iter1, valid)"
    by fastforce
  have st: "settled iter1" "mi_merge iter1 = mi_merge iter" "mi_size iter1 \<le> mi_size iter" "valid \<longleftrightarrow> 0 < mi_size iter1"
    using skip_settles [of iter] by (simp_all add: skip skip_ok_def)
  show ?case
  proof (cases valid)
    case False
    then have "mi_merge iter1 = []"
      using st(4) by (simp add: mi_size_def mi_merge_def)
    then show ?thesis
      using False st(2) by (subst drain.simps) (simp add: mi_Valid_def skip)
  next
    case True
    then have "0 < mi_size iter1"
      using st(4) by simp
    then obtain k v iter2 where front: "mi_Key iter1 = Some (k, iter1)" "mi_Value iter1 = Some (Some v, iter1)"
      "mi_Next iter1 = Some iter2" "mi_merge iter1 = (k, v) # mi_merge iter2" "mi_size iter2 < mi_size iter1"
      using settled_front [OF st(1)] by blast
    moreover obtain m where n: "n = Suc m" "mi_size iter2 \<le> m"
      using front(5) st(3) less.prems by (cases n) auto
    ultimately show ?thesis
      using True st(2) less.IH [of m iter2] by (subst drain.simps) (simp add: mi_Valid_def skip n)
  qed
qed

lemma iter_compare_trans: "iter_compare asc a b < 0 \<Longrightarrow> iter_compare asc b c < 0 \<Longrightarrow> iter_compare asc a c < 0"
  by (auto simp: iter_compare_def Compare_def split: if_splits)

definition in_order :: "bool \<Rightarrow> (bytes \<times> 'v) list \<Rightarrow> bool" where
  "in_order asc xs = sorted_wrt (\<lambda>x y. iter_compare asc (fst x) (fst y) < 0) xs"

lemma in_order_simps [simp]:
  "in_order asc []"
  "in_order asc (x # xs) \<longleftrightarrow> (\<forall>y \<in> set xs. iter_compare asc (fst x) (fst y) < 0) \<and> in_order asc xs"
  by (simp_all add: in_order_def)

text \<open>The map that the merged list represents.\<close>

definition merged :: "(bytes \<times> bytes) list \<Rightarrow> (bytes \<times> bytes option) list \<Rightarrow> (bytes \<times> bytes) set" where
  "merged ps cs = {(k, v). (k, Some v) \<in> set cs \<or> (k \<notin> fst ` set cs \<and> (k, v) \<in> set ps)}"

lemma merged_keys: "x \<in> merged ps cs \<Longrightarrow> fst x \<in> fst ` set ps \<union> fst ` set cs"
  by (force simp: merged_def)

lemma in_order_below:
  "in_order asc ((k, v) # cs) \<Longrightarrow> iter_compare asc kp k < 0 \<Longrightarrow> x \<in> set ((k, v) # cs) \<Longrightarrow> iter_compare asc kp (fst x) < 0"
  using iter_compare_trans [of asc kp k "fst x"] by auto

lemma set_merge: "in_order asc ps \<Longrightarrow> in_order asc cs \<Longrightarrow> set (merge asc ps cs) = merged ps cs"
proof (induction asc ps cs rule: merge.induct)
  case (3 asc kp vp ps k v cs)
  have fresh: "k \<notin> fst ` set cs" "kp \<notin> fst ` set ps"
    using "3.prems" iter_compare_cases(4) [of asc] by force+
  show ?case
  proof (cases "iter_compare asc kp k < 0")
    case True
    then have "kp \<notin> fst ` set ((k, v) # cs)"
      using in_order_below [OF "3.prems"(2)] iter_compare_cases(4) [of asc kp] by force
    then show ?thesis
      using True 3 fresh by (auto simp: merged_def)
  next
    case False
    have "set (merge asc (if kp = k then ps else (kp, vp) # ps) cs) = merged (if kp = k then ps else (kp, vp) # ps) cs"
      using 3 False by (cases v) auto
    moreover have "iter_compare asc k kp < 0" if "kp \<noteq> k"
      using False that iter_compare_cases(5) by blast
    then have "(k, b) \<notin> set ps" for b
      using fresh(2) "3.prems"(1) iter_compare_cases(6) [of asc k kp] by force
    ultimately show ?thesis
      using False fresh by (cases v) (auto simp: merged_def)
  qed
qed (auto simp: merged_def split: option.splits)

lemma in_order_merge: "in_order asc ps \<Longrightarrow> in_order asc cs \<Longrightarrow> in_order asc (merge asc ps cs)"
proof (induction asc ps cs rule: merge.induct)
  case (2 asc k v cs)
  have "set (merge asc [] cs) = merged [] cs"
    using 2(4) by (simp add: set_merge)
  then show ?case
    using 2 merged_keys [of _ "[]" cs] by (force split: option.splits)
next
  case (3 asc kp vp ps k v cs)
  let ?rest = "if kp = k then ps else (kp, vp) # ps"
  have sets: "set (merge asc ps ((k, v) # cs)) = merged ps ((k, v) # cs)" "set (merge asc ?rest cs) = merged ?rest cs"
    using "3.prems" by (simp_all add: set_merge)
  show ?case
  proof (cases "iter_compare asc kp k < 0")
    case True
    then have "iter_compare asc kp (fst x) < 0" if "x \<in> merged ps ((k, v) # cs)" for x
      using merged_keys [OF that] "3.prems" in_order_below [OF "3.prems"(2) True] by force
    then show ?thesis
      using True 3 sets(1) by auto
  next
    case False
    have "iter_compare asc k (fst x) < 0" if "x \<in> set ps" for x
      using that False "3.prems"(1) iter_compare_trans [of asc k kp "fst x"] iter_compare_cases(5) [of kp k asc] by auto
    then have "iter_compare asc k (fst x) < 0" if "x \<in> merged ?rest cs" for x
      using merged_keys [OF that] "3.prems" False iter_compare_cases(5) [of kp k asc] by (auto split: if_splits)
    then show ?thesis
      using False 3 sets(2) by (cases v) auto
  qed
qed simp

section \<open>The contract of a store\<close>

text \<open>\<open>xs\<close> is the contents \<open>m\<close> of a store within a domain, in the order of the keys.\<close>

definition lists_range ::
  "(bytes \<Rightarrow> bytes option \<Rightarrow> bytes option \<Rightarrow> bool) \<Rightarrow> (bytes \<rightharpoonup> bytes) \<Rightarrow> bytes option \<Rightarrow> bytes option \<Rightarrow> bool \<Rightarrow>
   (bytes \<times> bytes) list \<Rightarrow> bool" where
  "lists_range D m start end asc xs \<longleftrightarrow>
     in_order asc xs \<and> set xs = {(k, v). m k = Some v \<and> D k start end}"

locale kv_store =
  fixes P :: "'p KVStore" and view :: "'p \<Rightarrow> bytes \<rightharpoonup> bytes" and good :: "'p \<Rightarrow> bool"
    and D :: "bytes \<Rightarrow> bytes option \<Rightarrow> bytes option \<Rightarrow> bool"
  assumes get_nil: "kv_Get P None p = None"
    and get_key: "good p \<Longrightarrow> \<exists>q. kv_Get P (Some k) p = Some (view p k, q) \<and> good q \<and> view q = view p"
    and set_nil: "key = None \<or> val = None \<Longrightarrow> kv_Set P key val p = None"
    and set_key: "good p \<Longrightarrow> \<exists>q. kv_Set P (Some k) (Some v) p = Some q \<and> good q \<and> view q = (view p)(k \<mapsto> v)"
    and delete_nil: "kv_Delete P None p = None"
    and delete_key: "good p \<Longrightarrow> \<exists>q. kv_Delete P (Some k) p = Some q \<and> good q \<and> view q = (view p)(k := None)"
    and iterates: "good p \<Longrightarrow> lists_range D (view p) start end asc (kv_Iter P start end asc p)"

definition cache_ops :: "'p KVStore \<Rightarrow> (bytes \<Rightarrow> bytes option \<Rightarrow> bytes option \<Rightarrow> bool) \<Rightarrow> 'p cacheKVStore KVStore" where
  "cache_ops P D =
     \<lparr>kv_Get = cache_Get P, kv_Set = cache_Set, kv_Delete = cache_Delete,
      kv_Iter = (\<lambda>start end asc ci.
        let iter = cache_iterator P D start end asc ci in
        case drain (mi_size iter) iter of
          None \<Rightarrow> []
        | Some items \<Rightarrow> map (\<lambda>(k, v). (k, case v of None \<Rightarrow> [] | Some w \<Rightarrow> w)) items)\<rparr>"

text \<open>The contents of a cached store: the cache's entry where there is one, else the parent's.\<close>

definition overlay :: "('p \<Rightarrow> bytes \<rightharpoonup> bytes) \<Rightarrow> 'p cacheKVStore \<Rightarrow> bytes \<rightharpoonup> bytes" where
  "overlay view ci k =
     (case fmlookup (ck_cache ci) k of None \<Rightarrow> view (ck_parent ci) k | Some cv \<Rightarrow> cv_value cv)"

definition entry_ok :: "(bytes \<rightharpoonup> bytes) \<Rightarrow> bytes \<Rightarrow> cValue \<Rightarrow> bool" where
  "entry_ok m k cv \<longleftrightarrow>
     (if cv_dirty cv then cv_deleted cv = (cv_value cv = None) else \<not> cv_deleted cv \<and> cv_value cv = m k)"

definition cache_ok :: "('p \<Rightarrow> bytes \<rightharpoonup> bytes) \<Rightarrow> ('p \<Rightarrow> bool) \<Rightarrow> 'p cacheKVStore \<Rightarrow> bool" where
  "cache_ok view good ci \<longleftrightarrow>
     good (ck_parent ci) \<and>
     (\<forall>k cv. fmlookup (ck_cache ci) k = Some cv \<longrightarrow> entry_ok (view (ck_parent ci)) k cv)"

lemmas cache_defs = cache_Get_def cache_Set_def cache_Delete_def setCacheValue_def cache_ok_def entry_ok_def

lemma new_cache_ok: "good p \<Longrightarrow> cache_ok view good (NewCacheKVStore p) \<and> overlay view (NewCacheKVStore p) = view p"
  by (auto simp: cache_ok_def NewCacheKVStore_def overlay_def fun_eq_iff)

lemma in_order_sorted_list_of_fmap: "in_order True (sorted_list_of_fmap m)"
proof -
  have "sorted_wrt (<) (map fst (sorted_list_of_fmap m))"
    unfolding fst_sorted_list_of_fmap by (simp add: sorted_list_of_fset.rep_eq)
  then show ?thesis
    by (auto simp: in_order_def sorted_wrt_map iter_compare_def Compare_def elim: sorted_wrt_mono_rel [rotated])
qed

lemma in_order_rev: "in_order False (rev xs) \<longleftrightarrow> in_order True xs"
proof -
  have "iter_compare False a b = iter_compare True b a" for a b
    by (auto simp: iter_compare_def Compare_def)
  then show ?thesis
    by (simp add: in_order_def sorted_wrt_rev)
qed

lemma in_order_filter: "in_order asc xs \<Longrightarrow> in_order asc (filter Q xs)"
  by (simp add: in_order_def sorted_wrt_filter)

lemma in_order_map: "(\<And>x. fst (f x) = fst x) \<Longrightarrow> in_order asc (map f xs) \<longleftrightarrow> in_order asc xs"
  by (simp add: in_order_def sorted_wrt_map)

lemma in_order_dirtyItems: "in_order asc (newMemIterator D start end (dirtyItems D start end asc ci))"
proof -
  let ?items = "map (\<lambda>(key, cv). (key, cv_value cv))
    (filter (\<lambda>(key, cv). cv_dirty cv \<and> D key start end) (sorted_list_of_fmap (ck_cache ci)))"
  have "in_order True ?items"
    by (subst in_order_map) (auto intro: in_order_filter in_order_sorted_list_of_fmap)
  then show ?thesis
    unfolding newMemIterator_def
    by (intro in_order_filter) (cases asc; simp add: dirtyItems_def Let_def in_order_rev)
qed

lemma set_dirtyItems:
  "set (newMemIterator D start end (dirtyItems D start end asc ci)) =
   {(k, v). \<exists>cv. fmlookup (ck_cache ci) k = Some cv \<and> cv_dirty cv \<and> v = cv_value cv \<and> D k start end}"
  by (auto simp: newMemIterator_def dirtyItems_def Let_def set_sorted_list_of_fmap image_iff)

lemma cache_ops_Iter: "kv_Iter (cache_ops P D) start end asc ci = mi_merge (cache_iterator P D start end asc ci)"
  by (simp add: cache_ops_def Let_def drain_merge comp_def case_prod_unfold)

context kv_store
begin

lemma cache_get_key:
  assumes "cache_ok view good ci"
  shows "\<exists>ci'. cache_Get P (Some k) ci = Some (overlay view ci k, ci') \<and> cache_ok view good ci' \<and>
    overlay view ci' = overlay view ci"
proof (cases "fmlookup (ck_cache ci) k")
  case None
  obtain q where "kv_Get P (Some k) (ck_parent ci) = Some (view (ck_parent ci) k, q)" "good q" "view q = view (ck_parent ci)"
    using get_key [of "ck_parent ci" k] assms by (auto simp: cache_ok_def)
  with None assms show ?thesis
    by (auto simp: cache_defs overlay_def fun_eq_iff split: option.splits)
next
  case (Some cv)
  with assms show ?thesis
    by (auto simp: cache_Get_def overlay_def)
qed

lemma cache_iterates:
  assumes "cache_ok view good ci"
  shows "lists_range D (overlay view ci) start end asc (mi_merge (cache_iterator P D start end asc ci))"
proof -
  have parent: "in_order asc (kv_Iter P start end asc (ck_parent ci))"
    "set (kv_Iter P start end asc (ck_parent ci)) = {(k, v). view (ck_parent ci) k = Some v \<and> D k start end}"
    using iterates [of "ck_parent ci" start "end" asc] assms by (simp_all add: cache_ok_def lists_range_def)
  let ?items = "newMemIterator D start end (dirtyItems D start end asc ci)"
  have keys: "k \<in> fst ` set ?items \<longleftrightarrow> (\<exists>cv. fmlookup (ck_cache ci) k = Some cv \<and> cv_dirty cv \<and> D k start end)" for k
    unfolding set_dirtyItems by force
  have "(k, v) \<in> merged (kv_Iter P start end asc (ck_parent ci)) ?items \<longleftrightarrow> overlay view ci k = Some v \<and> D k start end" for k v
    using assms unfolding merged_def set_dirtyItems parent(2) keys [unfolded set_dirtyItems]
    by (cases "fmlookup (ck_cache ci) k") (auto simp: overlay_def cache_ok_def entry_ok_def)
  then have "merged (kv_Iter P start end asc (ck_parent ci)) ?items = {(k, v). overlay view ci k = Some v \<and> D k start end}"
    by auto
  then show ?thesis
    by (simp add: lists_range_def mi_merge_def cache_iterator_def set_merge in_order_merge parent(1) in_order_dirtyItems)
qed

lemma cached: "kv_store (cache_ops P D) (overlay view) (cache_ok view good) D"
proof
  show "\<exists>ci'. kv_Get (cache_ops P D) (Some k) ci = Some (overlay view ci k, ci') \<and> cache_ok view good ci' \<and>
      overlay view ci' = overlay view ci" if "cache_ok view good ci" for ci k
    using cache_get_key [OF that] by (simp add: cache_ops_def)
  show "lists_range D (overlay view ci) start end asc (kv_Iter (cache_ops P D) start end asc ci)"
    if "cache_ok view good ci" for ci start "end" asc
    using cache_iterates [OF that] by (simp add: cache_ops_Iter)
qed (auto simp: cache_ops_def cache_defs overlay_def fun_eq_iff split: option.splits)

lemma write_key_view:
  assumes "cache_ok view good ci" "good p" "fmlookup (ck_cache ci) k = Some cv" "cv_dirty cv"
  shows "\<exists>q. write_key P (ck_cache ci) k p = Some q \<and> good q \<and> view q = (view p)(k := cv_value cv)"
proof -
  have "cv_deleted cv \<longleftrightarrow> cv_value cv = None"
    using assms by (auto simp: cache_ok_def entry_ok_def)
  then show ?thesis
    using assms(2,3) set_key [of p k] delete_key [of p k]
    by (cases "cv_value cv") (auto simp: write_key_def)
qed

lemma write_keys_view:
  assumes "cache_ok view good ci" "good p" "\<forall>k \<in> set keys. \<exists>cv. fmlookup (ck_cache ci) k = Some cv \<and> cv_dirty cv"
  shows "\<exists>q. write_keys P (ck_cache ci) keys p = Some q \<and> good q \<and>
    (\<forall>k. view q k = (if k \<in> set keys then overlay view ci k else view p k))"
  using assms(2,3)
proof (induction keys arbitrary: p)
  case (Cons k keys)
  obtain cv where cv: "fmlookup (ck_cache ci) k = Some cv" "cv_dirty cv"
    using Cons.prems by auto
  obtain q where "write_key P (ck_cache ci) k p = Some q" "good q" "view q = (view p)(k := cv_value cv)"
    using write_key_view [OF assms(1) Cons.prems(1) cv] by auto
  with Cons.IH [of q] Cons.prems cv show ?case
    by (auto simp: overlay_def)
qed simp

lemma write_view:
  assumes "cache_ok view good ci"
  shows "\<exists>p. cache_Write P ci = Some \<lparr>ck_cache = fmempty, ck_parent = p\<rparr> \<and> good p \<and> view p = overlay view ci"
proof -
  have keys: "set (dirty_keys (ck_cache ci)) = {k. \<exists>cv. fmlookup (ck_cache ci) k = Some cv \<and> cv_dirty cv}"
    by (force simp: dirty_keys_def set_sorted_list_of_fmap)
  obtain p where "write_keys P (ck_cache ci) (dirty_keys (ck_cache ci)) (ck_parent ci) = Some p" "good p"
    "\<forall>k. view p k = (if k \<in> set (dirty_keys (ck_cache ci)) then overlay view ci k else view (ck_parent ci) k)"
    using write_keys_view [OF assms, of "ck_parent ci" "dirty_keys (ck_cache ci)"] assms keys by (auto simp: cache_ok_def)
  moreover have "overlay view ci k = view (ck_parent ci) k" if "k \<notin> set (dirty_keys (ck_cache ci))" for k
    using that assms by (auto simp: keys overlay_def cache_ok_def entry_ok_def split: option.splits)
  ultimately show ?thesis
    by (auto simp: cache_Write_def fun_eq_iff)
qed

end

end
