(* ===== verification/Prefix_Stores.thy ===== *)
theory Prefix_Stores
  imports Stores
begin

text \<open>
  The contract \<open>kv_store\<close> discharged for the stores of \<open>src/store\<close>: the write cache over any store
  that keeps it, the prefix store over any store that keeps it, and their stacking, on top of a
  store in memory. \<open>in_domain\<close> is the documented meaning of \<open>IsKeyInDomain\<close>: the start is
  included, the end excluded, and a nil bound is no bound.
\<close>

definition in_domain :: "bytes \<Rightarrow> bytes option \<Rightarrow> bytes option \<Rightarrow> bool" where
  "in_domain k start end \<longleftrightarrow>
     (case start of None \<Rightarrow> True | Some s \<Rightarrow> s \<le> k) \<and> (case end of None \<Rightarrow> True | Some e \<Rightarrow> k < e)"

section \<open>A store in memory\<close>

definition mem_ops :: "(bytes, bytes) fmap KVStore" where
  "mem_ops =
     \<lparr>kv_Get = (\<lambda>key m. map_option (\<lambda>k. (fmlookup m k, m)) key),
      kv_Set = (\<lambda>key val m. do { k \<leftarrow> key; v \<leftarrow> val; Some (fmupd k v m) }),
      kv_Delete = (\<lambda>key m. map_option (\<lambda>k. fmdrop k m) key),
      kv_Iter = (\<lambda>start end asc m.
        let items = filter (\<lambda>(k, _). in_domain k start end) (sorted_list_of_fmap m)
        in if asc then items else rev items)\<rparr>"

interpretation mem: kv_store mem_ops fmlookup "\<lambda>_. True" in_domain
proof
  show "lists_range in_domain (fmlookup m) start end asc (kv_Iter mem_ops start end asc m)" for m start "end" asc
    by (cases asc) (auto simp: lists_range_def mem_ops_def Let_def in_order_rev in_order_filter
        in_order_sorted_list_of_fmap set_sorted_list_of_fmap)
qed (auto simp: mem_ops_def fun_eq_iff)

interpretation cached_mem: kv_store "cache_ops mem_ops in_domain" "overlay fmlookup" "cache_ok fmlookup (\<lambda>_. True)" in_domain
  by (rule mem.cached)

section \<open>Byte ranges\<close>

lemma append_le_append [simp]: "p @ a \<le> p @ b \<longleftrightarrow> a \<le> (b :: bytes)"
  by (induction p) auto

lemma append_less_append [simp]: "p @ a < p @ b \<longleftrightarrow> a < (b :: bytes)"
  by (induction p) auto

lemma HasPrefix_append: "HasPrefix k p \<longleftrightarrow> (\<exists>r. k = p @ r)"
  by (auto simp: HasPrefix_def prefix_def)

lemma between_prefix: "p @ s \<le> k \<Longrightarrow> k < p @ e \<Longrightarrow> \<exists>r. k = p @ (r :: bytes)"
proof (induction p arbitrary: k)
  case (Cons c p)
  then obtain r where "k = c # r" "p @ s \<le> r" "r < p @ e"
    by (cases k) (auto split: if_splits)
  with Cons.IH show ?case
    by auto
qed simp

lemma above_prefix: "p @ s \<le> k \<Longrightarrow> p \<le> (k :: bytes)"
proof -
  have "p @ [] \<le> p @ s"
    by (simp del: append_Nil2)
  then show "p @ s \<le> k \<Longrightarrow> p \<le> k"
    by simp
qed

lemma prefix_le [simp]: "p \<le> p @ (s :: bytes)"
  using above_prefix [of p s "p @ s"] by simp

lemma of_char_less_256: "of_char c < (256 :: nat)"
  by (metis mod_less_divisor of_char_mod_256 zero_less_numeral)

lemma succ_char:
  assumes "c \<noteq> CHR 0xFF"
  shows "of_char (char_of (of_char c + 1 :: nat)) = (of_char c + 1 :: nat)"
proof -
  have "of_char c \<noteq> (255 :: nat)"
  proof
    assume "of_char c = (255 :: nat)"
    moreover have "char_of (255 :: nat) = CHR 0xFF"
      by code_simp
    ultimately have "char_of (of_char c :: nat) = CHR 0xFF"
      by simp
    with assms show False
      by simp
  qed
  then have "of_char c < (255 :: nat)"
    using of_char_less_256 [of c] by linarith
  then show ?thesis
    by simp
qed

lemma last_byte_range:
  assumes "c \<noteq> CHR 0xFF"
  shows "[c] \<le> r \<and> r < [char_of (of_char c + 1 :: nat)] \<longleftrightarrow> (\<exists>r'. r = c # r')"
  using succ_char [OF assms] by (cases r) (auto simp: less_char_def less_eq_char_def)

lemma max_byte_range: "[CHR 0xFF] \<le> r \<longleftrightarrow> (\<exists>r'. r = CHR 0xFF # r')"
proof (cases r)
  case (Cons c r')
  have "of_char c \<le> (255 :: nat)"
    using of_char_less_256 [of c] by linarith
  then have "\<not> CHR 0xFF < c"
    by (simp add: less_char_def)
  then show ?thesis
    using Cons by auto
qed simp

lemma prefix_end_spec:
  assumes "prefix_end p = Some e"
  shows "(\<exists>r. k = p @ r) \<longleftrightarrow> p \<le> k \<and> (case e of None \<Rightarrow> True | Some b \<Rightarrow> k < b)"
  using assms
proof (induction p rule: prefix_end.induct)
  case (1 p)
  then have "p \<noteq> []"
    by (auto simp: prefix_end.simps [of p])
  then obtain q c where p: "p = q @ [c]"
    by (cases p rule: rev_cases) auto
  show ?case
  proof (cases "c = CHR 0xFF")
    case False
    then have e: "e = Some (q @ [char_of (of_char c + 1 :: nat)])"
      using 1 by (simp add: prefix_end.simps [of "q @ [c]"] p)
    let ?d = "[char_of (of_char c + 1 :: nat)]"
    have "p \<le> k \<and> k < q @ ?d \<longleftrightarrow> (\<exists>r. k = q @ r \<and> [c] \<le> r \<and> r < ?d)"
      using between_prefix [of q "[c]" k ?d] unfolding p by auto
    also have "\<dots> \<longleftrightarrow> (\<exists>r'. k = p @ r')"
      unfolding last_byte_range [OF False] p by auto
    finally show ?thesis
      unfolding e by simp
  next
    case True
    have "(\<exists>r. k = q @ r) \<longleftrightarrow> q \<le> k \<and> (case e of None \<Rightarrow> True | Some b \<Rightarrow> k < b)"
    proof (cases "q = []")
      case True
      then show ?thesis
        using 1(2) \<open>c = CHR 0xFF\<close> by (simp add: prefix_end.simps [of "[CHR 0xFF]"] p)
    next
      case False
      then have "prefix_end q = Some e"
        using 1(2) True by (simp add: prefix_end.simps [of "q @ [CHR 0xFF]"] p)
      then show ?thesis
        using 1(1) False True by (simp add: p)
    qed
    then show ?thesis
      using max_byte_range above_prefix [of q "[c]" k] by (auto simp: p True)
  qed
qed

lemma prefix_end_total: "p \<noteq> [] \<Longrightarrow> \<exists>e. prefix_end p = Some e"
proof (induction p rule: prefix_end.induct)
  case (1 p)
  then show ?case
    by (subst prefix_end.simps) simp
qed

section \<open>The prefix store\<close>

definition prefix_ops :: "'p KVStore \<Rightarrow> bytes \<Rightarrow> 'p KVStore" where
  "prefix_ops P pre =
     \<lparr>kv_Get = prefix_Get P pre, kv_Set = prefix_Set P pre, kv_Delete = prefix_Delete P pre,
      kv_Iter = (\<lambda>start end asc p. case prefix_Iter P pre start end asc p of None \<Rightarrow> [] | Some items \<Rightarrow> items)\<rparr>"

definition newend_of :: "bytes \<Rightarrow> bytes option \<Rightarrow> bytes option option" where
  "newend_of pre end = (case end of None \<Rightarrow> PrefixEndBytes (Some pre) | Some e \<Rightarrow> Some (Some (pre @ e)))"

lemma prefix_domain:
  assumes "newend_of pre end = Some e"
  shows "in_domain k (Some (pre @ (case start of None \<Rightarrow> [] | Some s \<Rightarrow> s))) e \<longleftrightarrow>
    (\<exists>r. k = pre @ r \<and> in_domain r start end)"
proof (cases "end")
  case None
  then have "(\<exists>r. k = pre @ r) \<longleftrightarrow> pre \<le> k \<and> (case e of None \<Rightarrow> True | Some b \<Rightarrow> k < b)"
    using assms prefix_end_spec [of pre e k] by (simp add: newend_of_def PrefixEndBytes_def)
  then show ?thesis
    using None above_prefix [of pre "case start of None \<Rightarrow> [] | Some s \<Rightarrow> s" k]
    by (cases start) (auto simp: in_domain_def)
next
  case (Some b)
  then have e: "e = Some (pre @ b)"
    using assms by (simp add: newend_of_def)
  show ?thesis
    using between_prefix [of pre "case start of None \<Rightarrow> [] | Some s \<Rightarrow> s" k b]
    unfolding e Some by (cases start) (auto simp: in_domain_def)
qed

lemma stripPrefix_append [simp]: "stripPrefix (pre @ r) pre = Some r"
  by (simp add: stripPrefix_def)

lemma strip_all:
  "(\<forall>x \<in> set xs. \<exists>r. fst x = pre @ r) \<Longrightarrow>
   those (map (\<lambda>(key, val). map_option (\<lambda>k. (k, val)) (stripPrefix key pre)) xs) =
   Some (map (\<lambda>(key, val). (drop (length pre) key, val)) xs)"
  by (induction xs) (auto simp: case_prod_unfold)

lemma in_order_strip:
  "(\<forall>x \<in> set xs. \<exists>r. fst x = pre @ r) \<Longrightarrow> in_order asc (map (\<lambda>(key, val). (drop (length pre) key, val)) xs) \<longleftrightarrow> in_order asc xs"
proof (induction xs)
  case (Cons x xs)
  have "iter_compare asc (drop (length pre) (fst x)) (drop (length pre) (fst y)) = iter_compare asc (fst x) (fst y)"
    if "y \<in> set xs" for y
    using that Cons.prems by (auto simp: iter_compare_def Compare_def)
  with Cons show ?case
    by (auto simp: case_prod_unfold)
qed simp

context kv_store
begin

lemma prefix_iterates:
  assumes "good p" "D = in_domain" "newend_of pre end = Some e"
  shows "\<exists>xs. prefix_Iter P pre start end asc p = Some xs \<and> lists_range D (\<lambda>k. view p (pre @ k)) start end asc xs"
proof -
  let ?xs = "kv_Iter P (Some (pre @ (case start of None \<Rightarrow> [] | Some s \<Rightarrow> s))) e asc p"
  have xs: "in_order asc ?xs" "set ?xs = {(k, v). view p k = Some v \<and> (\<exists>r. k = pre @ r \<and> in_domain r start end)}"
    using iterates [OF assms(1)] prefix_domain [OF assms(3)] by (auto simp: lists_range_def assms(2))
  then have pre: "\<forall>x \<in> set ?xs. \<exists>r. fst x = pre @ r"
    by auto
  then have "takeWhile (\<lambda>(key, _). HasPrefix key pre) ?xs = ?xs"
    by (auto simp: takeWhile_eq_all_conv HasPrefix_append)
  then have "prefix_Iter P pre start end asc p = Some (map (\<lambda>(key, val). (drop (length pre) key, val)) ?xs)"
    using assms(3) strip_all [OF pre] unfolding prefix_Iter_def newend_of_def Let_def by (simp del: takeWhile_eq_all_conv)
  moreover have "set (map (\<lambda>(key, val). (drop (length pre) key, val)) ?xs) =
    {(k, v). view p (pre @ k) = Some v \<and> in_domain k start end}"
    unfolding set_map xs(2) by (auto simp: image_iff) (metis append_eq_conv_conj)
  ultimately show ?thesis
    using xs(1) in_order_strip [OF pre] by (simp add: lists_range_def assms(2))
qed

lemma prefixed:
  assumes "pre \<noteq> []" "D = in_domain"
  shows "kv_store (prefix_ops P pre) (\<lambda>p k. view p (pre @ k)) good D"
proof
  show "\<exists>q. kv_Get (prefix_ops P pre) (Some k) p = Some (view p (pre @ k), q) \<and> good q \<and>
      (\<lambda>k. view q (pre @ k)) = (\<lambda>k. view p (pre @ k))" if "good p" for p k
    using get_key [OF that, of "pre @ k"] by (auto simp: prefix_ops_def prefix_Get_def prefix_key_def)
  show "\<exists>q. kv_Set (prefix_ops P pre) (Some k) (Some v) p = Some q \<and> good q \<and>
      (\<lambda>k. view q (pre @ k)) = (\<lambda>k. view p (pre @ k))(k \<mapsto> v)" if "good p" for p k v
    using set_key [OF that, of "pre @ k" v] by (auto simp: prefix_ops_def prefix_Set_def prefix_key_def fun_eq_iff)
  show "\<exists>q. kv_Delete (prefix_ops P pre) (Some k) p = Some q \<and> good q \<and>
      (\<lambda>k. view q (pre @ k)) = (\<lambda>k. view p (pre @ k))(k := None)" if "good p" for p k
    using delete_key [OF that, of "pre @ k"] by (auto simp: prefix_ops_def prefix_Delete_def prefix_key_def fun_eq_iff)
  show "lists_range D (\<lambda>k. view p (pre @ k)) start end asc (kv_Iter (prefix_ops P pre) start end asc p)"
    if "good p" for p start "end" asc
  proof -
    obtain e where "newend_of pre end = Some e"
      using prefix_end_total [OF assms(1)] by (cases "end") (auto simp: newend_of_def PrefixEndBytes_def)
    then show ?thesis
      using prefix_iterates [OF that assms(2), of pre "end" e start asc] by (auto simp: prefix_ops_def)
  qed
  show "kv_Set (prefix_ops P pre) key val p = None" if "key = None \<or> val = None" for key val p
    using that set_nil [of _ val p] by (cases key) (auto simp: prefix_ops_def prefix_Set_def prefix_key_def)
qed (simp_all add: prefix_ops_def prefix_Get_def prefix_Delete_def prefix_key_def)

end

section \<open>Properties\<close>

text \<open>C21: A write cache over a store that keeps the contract keeps it too, its contents being the
  parent's overlaid with the cached writes: a read returns the overlaid value and changes nothing
  observable, a write and a deletion change exactly their key, a nil key or value panics, and the
  cache's bookkeeping stays consistent.\<close>

theorem cache_contract:
  assumes "kv_store P view good D" "cache_ok view good ci"
  shows "(\<exists>ci'. cache_Get P (Some k) ci = Some (overlay view ci k, ci') \<and> cache_ok view good ci' \<and>
      overlay view ci' = overlay view ci) \<and>
    (\<exists>ci'. cache_Set (Some k) (Some v) ci = Some ci' \<and> cache_ok view good ci' \<and>
      overlay view ci' = (overlay view ci)(k \<mapsto> v)) \<and>
    (\<exists>ci'. cache_Delete (Some k) ci = Some ci' \<and> cache_ok view good ci' \<and>
      overlay view ci' = (overlay view ci)(k := None)) \<and>
    cache_Get P None ci = None \<and> cache_Set None (Some v) ci = None \<and> cache_Set (Some k) None ci = None \<and>
    cache_Delete None ci = None"
proof -
  have "kv_store (cache_ops P D) (overlay view) (cache_ok view good) D"
    using assms(1) by (rule kv_store.cached)
  note laws = kv_store.get_key [OF this assms(2)] kv_store.set_key [OF this assms(2)] kv_store.delete_key [OF this assms(2)]
  show ?thesis
    using laws [of k] by (simp add: cache_ops_def) (simp add: cache_defs)
qed

definition demo_store :: "(bytes, bytes) fmap" where
  "demo_store = fmupd ''a'' ''1'' (fmupd ''b'' ''2'' fmempty)"

definition demo_cache :: "(bytes, bytes) fmap cacheKVStore" where
  "demo_cache = setCacheValue ''c'' (Some ''3'') False True
     (setCacheValue ''a'' None True True (NewCacheKVStore demo_store))"

lemma demo_cache_ok: "cache_ok fmlookup (\<lambda>_. True) demo_cache"
  by (auto simp: demo_cache_def cache_defs NewCacheKVStore_def)

theorem cache_contract_witness:
  "kv_store mem_ops fmlookup (\<lambda>_. True) in_domain \<and> cache_ok fmlookup (\<lambda>_. True) demo_cache \<and>
   overlay fmlookup demo_cache ''a'' = None \<and> overlay fmlookup demo_cache ''b'' = Some ''2'' \<and>
   (\<exists>ci'. cache_Get mem_ops (Some ''b'') demo_cache = Some (Some ''2'', ci') \<and>
     overlay fmlookup ci' = overlay fmlookup demo_cache)"
proof -
  have "overlay fmlookup demo_cache ''a'' = None" "overlay fmlookup demo_cache ''b'' = Some ''2''"
    by code_simp+
  then show ?thesis
    using cache_contract [OF mem.kv_store_axioms demo_cache_ok, of "''b''" "[]"] mem.kv_store_axioms demo_cache_ok
    by auto
qed

text \<open>C22: Writing a cache back succeeds, leaves the cache empty, and makes the parent's contents
  exactly what the cache showed.\<close>

theorem cache_write_commits:
  assumes "kv_store P view good D" "cache_ok view good ci"
  shows "\<exists>p. cache_Write P ci = Some (NewCacheKVStore p) \<and> good p \<and> view p = overlay view ci"
  using kv_store.write_view [OF assms] by (simp add: NewCacheKVStore_def)

theorem cache_write_commits_witness:
  "kv_store mem_ops fmlookup (\<lambda>_. True) in_domain \<and> cache_ok fmlookup (\<lambda>_. True) demo_cache \<and>
   (\<exists>p. cache_Write mem_ops demo_cache = Some (NewCacheKVStore p) \<and> fmlookup p ''a'' = None \<and>
     fmlookup p ''c'' = Some ''3'')"
proof -
  have "overlay fmlookup demo_cache ''a'' = None" "overlay fmlookup demo_cache ''c'' = Some ''3''"
    by code_simp+
  then show ?thesis
    using cache_write_commits [OF mem.kv_store_axioms demo_cache_ok] mem.kv_store_axioms demo_cache_ok by auto
qed

text \<open>C23: Iterating a cache from any start to any end, in either direction, stops after at most as
  many rounds as the parent and the cache have entries in the range, never panics, and lists
  exactly the overlaid contents of the range, each key once, in the order of the keys.\<close>

theorem cache_iteration:
  assumes "kv_store P view good D" "cache_ok view good ci" "mi_size (cache_iterator P D start end asc ci) \<le> n"
  shows "\<exists>xs. drain n (cache_iterator P D start end asc ci) = Some (map (\<lambda>(k, v). (k, Some v)) xs) \<and>
    lists_range D (overlay view ci) start end asc xs"
  using kv_store.cache_iterates [OF assms(1,2)] drain_merge [OF assms(3)] by blast

theorem cache_iteration_witness:
  "kv_store mem_ops fmlookup (\<lambda>_. True) in_domain \<and> cache_ok fmlookup (\<lambda>_. True) demo_cache \<and>
   mi_size (cache_iterator mem_ops in_domain None None False demo_cache) \<le> 4 \<and>
   drain 4 (cache_iterator mem_ops in_domain None None False demo_cache) =
     Some [(''c'', Some ''3''), (''b'', Some ''2'')] \<and>
   lists_range in_domain (overlay fmlookup demo_cache) None None False [(''c'', ''3''), (''b'', ''2'')]"
proof -
  have size: "mi_size (cache_iterator mem_ops in_domain None None False demo_cache) \<le> 4"
    by code_simp
  have run: "drain 4 (cache_iterator mem_ops in_domain None None False demo_cache) =
      Some [(''c'', Some ''3''), (''b'', Some ''2'')]"
    by code_simp
  have "lists_range in_domain (overlay fmlookup demo_cache) None None False [(''c'', ''3''), (''b'', ''2'')]"
    using cache_iteration [OF mem.kv_store_axioms demo_cache_ok size] run by auto
  with size run show ?thesis
    using mem.kv_store_axioms demo_cache_ok by simp
qed

text \<open>C24: A prefix store with a non-empty prefix, over a store that keeps the contract, iterates
  without panicking, also when the prefix ends in \<open>0xFF\<close> bytes, and lists exactly the parent's
  entries under the prefix that are in the range, with the prefix removed, in order.\<close>

theorem prefix_iteration:
  assumes "kv_store P view good in_domain" "good p" "pre \<noteq> []"
  shows "\<exists>xs. prefix_Iter P pre start end asc p = Some xs \<and>
    lists_range in_domain (\<lambda>k. view p (pre @ k)) start end asc xs"
proof -
  obtain e where "newend_of pre end = Some e"
    using prefix_end_total [OF assms(3)] by (cases "end") (auto simp: newend_of_def PrefixEndBytes_def)
  then show ?thesis
    using kv_store.prefix_iterates [OF assms(1,2) refl] by blast
qed

definition demo_prefixed :: "(bytes, bytes) fmap" where
  "demo_prefixed = fmupd [CHR 0xFF, CHR ''b''] ''2'' (fmupd [CHR 0xFF, CHR ''a''] ''1'' (fmupd ''a'' ''0'' fmempty))"

theorem prefix_iteration_witness:
  "kv_store mem_ops fmlookup (\<lambda>_. True) in_domain \<and>
   prefix_Iter mem_ops [CHR 0xFF] None None True demo_prefixed = Some [(''a'', ''1''), (''b'', ''2'')] \<and>
   lists_range in_domain (\<lambda>k. fmlookup demo_prefixed (CHR 0xFF # k)) None None True [(''a'', ''1''), (''b'', ''2'')]"
proof -
  have "prefix_Iter mem_ops [CHR 0xFF] None None True demo_prefixed = Some [(''a'', ''1''), (''b'', ''2'')]"
    by code_simp
  then show ?thesis
    using prefix_iteration [OF mem.kv_store_axioms, of "[CHR 0xFF]" None None True demo_prefixed] mem.kv_store_axioms by simp
qed

text \<open>The prefix of length zero, which the type allows, panics when it is iterated without an end.\<close>

lemma empty_prefix_panics: "prefix_Iter P [] start None asc p = None"
  by (simp add: prefix_Iter_def PrefixEndBytes_def prefix_end.simps Let_def)

end
