(* ===== verification/Guardian.thy ===== *)
theory Guardian
  imports Errors
begin

text \<open>
  Component: \<open>src/modules/guardian\<close>: the profilers and trustees, two stores of guardians keyed by
  address (\<open>keeper.go\<close>), the messages that add and delete them (\<open>msgs.go\<close>, \<open>handler.go\<close>) and
  their genesis (\<open>genesis.go\<close>). A guardian is of type \<open>Genesis\<close> or \<open>Ordinary\<close>, a byte in the code.
\<close>

section \<open>Guardians\<close>

type_synonym AccountType = "8 word"

definition Genesis :: AccountType where
  "Genesis = 0x01"

definition Ordinary :: AccountType where
  "Ordinary = 0x02"

definition AccountTypeFromString :: "string \<Rightarrow> AccountType option" where
  "AccountTypeFromString str =
     (if str = ''Genesis'' then Some Genesis else if str = ''Ordinary'' then Some Ordinary else None)"

definition AccountType_String :: "AccountType \<Rightarrow> string" where
  "AccountType_String bt = (if bt = Genesis then ''Genesis'' else if bt = Ordinary then ''Ordinary'' else '''')"

definition validAccountType :: "AccountType \<Rightarrow> bool" where
  "validAccountType bt = (bt = Genesis \<or> bt = Ordinary)"

record Guardian =
  g_Description :: string
  g_AccountType :: AccountType
  g_Address :: AccAddress
  g_AddedBy :: AccAddress

definition NewGuardian :: "string \<Rightarrow> AccountType \<Rightarrow> AccAddress \<Rightarrow> AccAddress \<Rightarrow> Guardian" where
  "NewGuardian description accountType address addedBy =
     \<lparr>g_Description = description, g_AccountType = accountType, g_Address = address, g_AddedBy = addedBy\<rparr>"

section \<open>Errors\<close>

definition GuardianCodespace :: string where
  "GuardianCodespace = ''guardian''"

definition ErrInvalidOperator :: sdk_error where
  "ErrInvalidOperator = SdkError GuardianCodespace 100"

definition ErrProfilerExists :: sdk_error where
  "ErrProfilerExists = SdkError GuardianCodespace 101"

definition ErrProfilerNotExists :: sdk_error where
  "ErrProfilerNotExists = SdkError GuardianCodespace 102"

definition ErrTrusteeExists :: sdk_error where
  "ErrTrusteeExists = SdkError GuardianCodespace 103"

definition ErrTrusteeNotExists :: sdk_error where
  "ErrTrusteeNotExists = SdkError GuardianCodespace 104"

definition ErrInvalidDescription :: sdk_error where
  "ErrInvalidDescription = SdkError GuardianCodespace 105"

definition ErrDeleteGenesisProfiler :: sdk_error where
  "ErrDeleteGenesisProfiler = SdkError GuardianCodespace 106"

definition ErrDeleteGenesisTrustee :: sdk_error where
  "ErrDeleteGenesisTrustee = SdkError GuardianCodespace 107"

definition ErrInvalidGuardianLength :: sdk_error where
  "ErrInvalidGuardianLength = SdkError GuardianCodespace 108"

section \<open>Keeper\<close>

record guardian_state =
  profilers :: "(AccAddress, Guardian) fmap"
  trustees :: "(AccAddress, Guardian) fmap"

definition GetProfilerKey :: "AccAddress \<Rightarrow> bytes" where
  "GetProfilerKey addr = CHR 0x00 # addr"

definition GetTrusteeKey :: "AccAddress \<Rightarrow> bytes" where
  "GetTrusteeKey addr = CHR 0x01 # addr"

definition AddProfiler :: "Guardian \<Rightarrow> (guardian_state, unit) op" where
  "AddProfiler guardian = modify (\<lambda>s. s\<lparr>profilers := fmupd (g_Address guardian) guardian (profilers s)\<rparr>)"

definition DeleteProfiler :: "AccAddress \<Rightarrow> (guardian_state, unit) op" where
  "DeleteProfiler address = modify (\<lambda>s. s\<lparr>profilers := fmdrop address (profilers s)\<rparr>)"

definition GetProfiler :: "AccAddress \<Rightarrow> guardian_state \<Rightarrow> Guardian option" where
  "GetProfiler addr s = fmlookup (profilers s) addr"

definition AddTrustee :: "Guardian \<Rightarrow> (guardian_state, unit) op" where
  "AddTrustee guardian = modify (\<lambda>s. s\<lparr>trustees := fmupd (g_Address guardian) guardian (trustees s)\<rparr>)"

definition DeleteTrustee :: "AccAddress \<Rightarrow> (guardian_state, unit) op" where
  "DeleteTrustee address = modify (\<lambda>s. s\<lparr>trustees := fmdrop address (trustees s)\<rparr>)"

definition GetTrustee :: "AccAddress \<Rightarrow> guardian_state \<Rightarrow> Guardian option" where
  "GetTrustee addr s = fmlookup (trustees s) addr"

section \<open>Messages\<close>

record AddGuardian =
  ag_Description :: string
  ag_Address :: AccAddress
  ag_AddedBy :: AccAddress

record DeleteGuardian =
  dg_Address :: AccAddress
  dg_DeletedBy :: AccAddress

datatype guardian_msg =
    MsgAddProfiler AddGuardian
  | MsgAddTrustee AddGuardian
  | MsgDeleteProfiler DeleteGuardian
  | MsgDeleteTrustee DeleteGuardian

definition AddGuardian_EnsureLength :: "AddGuardian \<Rightarrow> sdk_error + unit" where
  "AddGuardian_EnsureLength g = (if length (ag_Description g) > 70 then Inl ErrInvalidGuardianLength else Inr ())"

definition AddGuardian_ValidateBasic :: "AddGuardian \<Rightarrow> sdk_error + unit" where
  "AddGuardian_ValidateBasic g =
     (if length (ag_Description g) = 0 then Inl ErrInvalidDescription
      else if length (ag_Address g) = 0 then Inl ErrInvalidAddress
      else if length (ag_AddedBy g) = 0 then Inl ErrInvalidAddress
      else AddGuardian_EnsureLength g)"

definition DeleteGuardian_ValidateBasic :: "DeleteGuardian \<Rightarrow> sdk_error + unit" where
  "DeleteGuardian_ValidateBasic g =
     (if length (dg_Address g) = 0 then Inl ErrInvalidAddress
      else if length (dg_DeletedBy g) = 0 then Inl ErrInvalidAddress
      else Inr ())"

section \<open>Handler\<close>

definition handleMsgAddProfiler :: "AddGuardian \<Rightarrow> (guardian_state, unit) op" where
  "handleMsgAddProfiler msg =
     bind_op (gets (GetProfiler (ag_AddedBy msg))) (\<lambda>operator.
     if (case operator of None \<Rightarrow> True | Some profiler \<Rightarrow> g_AccountType profiler \<noteq> Genesis)
     then fail ErrInvalidOperator
     else
       bind_op (gets (GetProfiler (ag_Address msg))) (\<lambda>existing.
       if existing \<noteq> None then fail ErrProfilerExists
       else AddProfiler (NewGuardian (ag_Description msg) Ordinary (ag_Address msg) (ag_AddedBy msg))))"

definition handleMsgAddTrustee :: "AddGuardian \<Rightarrow> (guardian_state, unit) op" where
  "handleMsgAddTrustee msg =
     bind_op (gets (GetTrustee (ag_AddedBy msg))) (\<lambda>operator.
     if (case operator of None \<Rightarrow> True | Some trustee \<Rightarrow> g_AccountType trustee \<noteq> Genesis)
     then fail ErrInvalidOperator
     else
       bind_op (gets (GetTrustee (ag_Address msg))) (\<lambda>existing.
       if existing \<noteq> None then fail ErrTrusteeExists
       else AddTrustee (NewGuardian (ag_Description msg) Ordinary (ag_Address msg) (ag_AddedBy msg))))"

definition handleMsgDeleteProfiler :: "DeleteGuardian \<Rightarrow> (guardian_state, unit) op" where
  "handleMsgDeleteProfiler msg =
     bind_op (gets (GetProfiler (dg_DeletedBy msg))) (\<lambda>operator.
     if (case operator of None \<Rightarrow> True | Some profiler \<Rightarrow> g_AccountType profiler \<noteq> Genesis)
     then fail ErrInvalidOperator
     else
       bind_op (gets (GetProfiler (dg_Address msg))) (\<lambda>found.
       case found of
         None \<Rightarrow> fail ErrProfilerNotExists
       | Some profiler \<Rightarrow>
           if g_AccountType profiler = Genesis then fail ErrDeleteGenesisProfiler
           else DeleteProfiler (dg_Address msg)))"

definition handleMsgDeleteTrustee :: "DeleteGuardian \<Rightarrow> (guardian_state, unit) op" where
  "handleMsgDeleteTrustee msg =
     bind_op (gets (GetTrustee (dg_DeletedBy msg))) (\<lambda>operator.
     if (case operator of None \<Rightarrow> True | Some trustee \<Rightarrow> g_AccountType trustee \<noteq> Genesis)
     then fail ErrInvalidOperator
     else
       bind_op (gets (GetTrustee (dg_Address msg))) (\<lambda>found.
       case found of
         None \<Rightarrow> fail ErrTrusteeNotExists
       | Some trustee \<Rightarrow>
           if g_AccountType trustee = Genesis then fail ErrDeleteGenesisTrustee
           else DeleteTrustee (dg_Address msg)))"

definition GuardianHandler :: "guardian_msg \<Rightarrow> (guardian_state, unit) op" where
  "GuardianHandler msg =
     (case msg of
        MsgAddProfiler m \<Rightarrow> handleMsgAddProfiler m
      | MsgAddTrustee m \<Rightarrow> handleMsgAddTrustee m
      | MsgDeleteProfiler m \<Rightarrow> handleMsgDeleteProfiler m
      | MsgDeleteTrustee m \<Rightarrow> handleMsgDeleteTrustee m)"

section \<open>Genesis\<close>

record GuardianGenesis =
  gg_Profilers :: "Guardian list"
  gg_Trustees :: "Guardian list"

definition GuardianInitGenesis :: "GuardianGenesis \<Rightarrow> (guardian_state, unit) op" where
  "GuardianInitGenesis data =
     bind_op (for_each (gg_Profilers data) AddProfiler) (\<lambda>_. for_each (gg_Trustees data) AddTrustee)"

definition GuardianExportGenesis :: "guardian_state \<Rightarrow> GuardianGenesis" where
  "GuardianExportGenesis s =
     \<lparr>gg_Profilers = map snd (sorted_list_of_fmap (profilers s)), gg_Trustees = map snd (sorted_list_of_fmap (trustees s))\<rparr>"

section \<open>Who can change the guardians\<close>

text \<open>One store of guardians, seen from the address of an operator: what a successful message may
  do to it.\<close>

inductive guardians_move :: "(AccAddress, Guardian) fmap \<Rightarrow> (AccAddress, Guardian) fmap \<Rightarrow> bool" where
  added: "fmlookup m operator = Some o_g \<Longrightarrow> g_AccountType o_g = Genesis \<Longrightarrow> fmlookup m (g_Address g) = None \<Longrightarrow>
    g_AccountType g = Ordinary \<Longrightarrow> g_AddedBy g = operator \<Longrightarrow> guardians_move m (fmupd (g_Address g) g m)"
| deleted: "fmlookup m operator = Some o_g \<Longrightarrow> g_AccountType o_g = Genesis \<Longrightarrow> fmlookup m a = Some g \<Longrightarrow>
    g_AccountType g \<noteq> Genesis \<Longrightarrow> guardians_move m (fmdrop a m)"

inductive guardian_reach :: "guardian_state \<Rightarrow> guardian_state \<Rightarrow> bool" where
  start: "guardian_reach s s"
| handled: "guardian_reach s t \<Longrightarrow> GuardianHandler msg t = Ok () u \<Longrightarrow> guardian_reach s u"

lemmas guardian_defs =
  GuardianHandler_def handleMsgAddProfiler_def handleMsgAddTrustee_def handleMsgDeleteProfiler_def
  handleMsgDeleteTrustee_def AddProfiler_def AddTrustee_def DeleteProfiler_def DeleteTrustee_def
  GetProfiler_def GetTrustee_def NewGuardian_def

lemma handler_moves:
  assumes "GuardianHandler msg s = Ok () t"
  shows "guardians_move (profilers s) (profilers t) \<and> trustees t = trustees s \<or>
    guardians_move (trustees s) (trustees t) \<and> profilers t = profilers s"
proof (cases msg)
  case (MsgAddProfiler m)
  then show ?thesis
    using assms guardians_move.added [of "profilers s" "ag_AddedBy m" _ "NewGuardian (ag_Description m) Ordinary (ag_Address m) (ag_AddedBy m)"]
    by (auto simp: guardian_defs op_simps bind_op_eval split: if_splits option.splits)
next
  case (MsgAddTrustee m)
  then show ?thesis
    using assms guardians_move.added [of "trustees s" "ag_AddedBy m" _ "NewGuardian (ag_Description m) Ordinary (ag_Address m) (ag_AddedBy m)"]
    by (auto simp: guardian_defs op_simps bind_op_eval split: if_splits option.splits)
next
  case (MsgDeleteProfiler m)
  then show ?thesis
    using assms by (auto simp: guardian_defs op_simps bind_op_eval intro: guardians_move.deleted split: if_splits option.splits)
next
  case (MsgDeleteTrustee m)
  then show ?thesis
    using assms by (auto simp: guardian_defs op_simps bind_op_eval intro: guardians_move.deleted split: if_splits option.splits)
qed

definition entrenched :: "(AccAddress, Guardian) fmap \<Rightarrow> (AccAddress, Guardian) fmap \<Rightarrow> bool" where
  "entrenched m0 m \<longleftrightarrow>
     (\<forall>a g. g_AccountType g = Genesis \<longrightarrow> (fmlookup m a = Some g \<longleftrightarrow> fmlookup m0 a = Some g)) \<and>
     (\<forall>a g. fmlookup m a = Some g \<longrightarrow> fmlookup m0 a = Some g \<or>
        g_AccountType g = Ordinary \<and> g_Address g = a \<and>
        (\<exists>o_g. fmlookup m0 (g_AddedBy g) = Some o_g \<and> g_AccountType o_g = Genesis))"

lemma Genesis_Ordinary [simp]: "Genesis \<noteq> Ordinary" "Ordinary \<noteq> Genesis"
  by (simp_all add: Genesis_def Ordinary_def)

lemma entrenched_move: "guardians_move m m' \<Longrightarrow> entrenched m0 m \<Longrightarrow> entrenched m0 m'"
proof (induction rule: guardians_move.induct)
  case (added m operator o_g g)
  then have "fmlookup m0 operator = Some o_g"
    by (simp add: entrenched_def)
  moreover have "g_AccountType h \<noteq> Genesis" if "fmlookup m0 (g_Address g) = Some h" for h
    using added that unfolding entrenched_def by (metis option.distinct(1))
  ultimately show ?case
    using added by (auto simp: entrenched_def)
next
  case (deleted m operator o_g a g)
  then have "g_AccountType h \<noteq> Genesis" if "fmlookup m0 a = Some h" for h
    using that unfolding entrenched_def by (metis option.inject)
  with deleted show ?case
    by (auto simp: entrenched_def)
qed

text \<open>A store is keyed when every guardian is filed under its own address.\<close>

definition keyed :: "(AccAddress, Guardian) fmap \<Rightarrow> bool" where
  "keyed m \<longleftrightarrow> (\<forall>a g. fmlookup m a = Some g \<longrightarrow> g_Address g = a)"

lemma keyed_code [code]: "keyed m \<longleftrightarrow> list_all (\<lambda>(a, g). g_Address g = a) (sorted_list_of_fmap m)"
  by (auto simp: keyed_def list_all_iff set_sorted_list_of_fmap)

definition refill :: "Guardian list \<Rightarrow> (AccAddress, Guardian) fmap \<Rightarrow> (AccAddress, Guardian) fmap" where
  "refill gs m = fold (\<lambda>g. fmupd (g_Address g) g) gs m"

lemma for_each_AddProfiler: "for_each gs AddProfiler s = Ok () (s\<lparr>profilers := refill gs (profilers s)\<rparr>)"
  by (induction gs arbitrary: s) (simp_all add: AddProfiler_def op_simps bind_op_eval refill_def)

lemma for_each_AddTrustee: "for_each gs AddTrustee s = Ok () (s\<lparr>trustees := refill gs (trustees s)\<rparr>)"
  by (induction gs arbitrary: s) (simp_all add: AddTrustee_def op_simps bind_op_eval refill_def)

lemma refill_other: "a \<notin> g_Address ` set gs \<Longrightarrow> fmlookup (refill gs m) a = fmlookup m a"
  by (induction gs arbitrary: m) (auto simp: refill_def)

lemma refill_own: "g \<in> set gs \<Longrightarrow> distinct (map g_Address gs) \<Longrightarrow> fmlookup (refill gs m) (g_Address g) = Some g"
proof (induction gs arbitrary: m)
  case (Cons h gs)
  show ?case
  proof (cases "g = h")
    case True
    then have "fmlookup (refill gs (fmupd (g_Address h) h m)) (g_Address g) = fmlookup (fmupd (g_Address h) h m) (g_Address g)"
      using Cons.prems by (intro refill_other) auto
    then show ?thesis
      using True by (simp add: refill_def)
  next
    case False
    then show ?thesis
      using Cons by (simp add: refill_def)
  qed
qed simp

lemma refill_export:
  assumes "keyed m"
  shows "refill (map snd (sorted_list_of_fmap m)) fmempty = m"
proof (rule fmap_ext)
  fix a
  let ?gs = "map snd (sorted_list_of_fmap m)"
  have "map g_Address ?gs = sorted_list_of_fset (fmdom m)"
    using assms by (simp add: sorted_list_of_fmap_def comp_def keyed_def fmlookup_dom_iff)
      (auto intro!: map_idI simp: fmlookup_dom_iff)
  then have d: "distinct (map g_Address ?gs)" and dom: "g_Address ` set ?gs = fset (fmdom m)"
    by (simp_all add: sorted_list_of_fset.rep_eq flip: set_map)
  show "fmlookup (refill ?gs fmempty) a = fmlookup m a"
  proof (cases "fmlookup m a")
    case None
    then show ?thesis
      using dom by (subst refill_other) (auto simp: fmlookup_dom_iff)
  next
    case (Some g)
    then have "g \<in> set ?gs" "g_Address g = a"
      using assms by (force simp: set_sorted_list_of_fmap, simp add: keyed_def)
    then show ?thesis
      using refill_own [OF _ d] Some by metis
  qed
qed

section \<open>Properties\<close>

text \<open>C25: Whatever messages are handled, the guardians of genesis type stay exactly those the
  chain started with: none is added, changed or deleted. Every guardian that is new is ordinary,
  filed under its own address, and was added by a guardian of genesis type of the same store.\<close>

theorem genesis_guardians_permanent:
  assumes "guardian_reach s t"
  shows "entrenched (profilers s) (profilers t) \<and> entrenched (trustees s) (trustees t)"
  using assms
proof induction
  case (start s)
  then show ?case
    by (simp add: entrenched_def)
next
  case (handled s t msg u)
  then show ?case
    using handler_moves [of msg t u] entrenched_move by auto
qed

definition demo_guardians :: guardian_state where
  "demo_guardians =
     (let g = NewGuardian ''genesis'' Genesis ''a'' []
      in \<lparr>profilers = fmupd ''a'' g fmempty, trustees = fmupd ''a'' g fmempty\<rparr>)"

definition demo_added :: guardian_state where
  "demo_added = demo_guardians\<lparr>profilers :=
     fmupd ''b'' (NewGuardian ''second'' Ordinary ''b'' ''a'') (profilers demo_guardians)\<rparr>"

theorem genesis_guardians_permanent_witness:
  "guardian_reach demo_guardians demo_added \<and> entrenched (profilers demo_guardians) (profilers demo_added) \<and>
   fmlookup (profilers demo_added) ''b'' \<noteq> None"
proof -
  have "GuardianHandler (MsgAddProfiler \<lparr>ag_Description = ''second'', ag_Address = ''b'', ag_AddedBy = ''a''\<rparr>) demo_guardians = Ok () demo_added"
    by (simp add: guardian_defs demo_guardians_def demo_added_def op_simps bind_op_eval Let_def)
  then have "guardian_reach demo_guardians demo_added"
    using guardian_reach.handled guardian_reach.start by blast
  then show ?thesis
    using genesis_guardians_permanent [of demo_guardians demo_added] by (auto simp: demo_added_def)
qed

text \<open>C26: Exporting the guardians and initialising an empty store with the export gives back the
  same two stores, when every guardian is filed under its own address.\<close>

theorem guardian_genesis_roundtrip:
  assumes "keyed (profilers s)" "keyed (trustees s)"
  shows "GuardianInitGenesis (GuardianExportGenesis s) \<lparr>profilers = fmempty, trustees = fmempty\<rparr> = Ok () s"
  using refill_export [OF assms(1)] refill_export [OF assms(2)]
  by (simp add: GuardianInitGenesis_def GuardianExportGenesis_def for_each_AddProfiler for_each_AddTrustee bind_op_eval)

theorem guardian_genesis_roundtrip_witness:
  "keyed (profilers demo_added) \<and> keyed (trustees demo_added) \<and>
   GuardianInitGenesis (GuardianExportGenesis demo_added) \<lparr>profilers = fmempty, trustees = fmempty\<rparr> = Ok () demo_added"
proof -
  have "keyed (profilers demo_added)" "keyed (trustees demo_added)"
    by code_simp+
  then show ?thesis
    using guardian_genesis_roundtrip by simp
qed

end
