(* ===== verification/Asset_Types.thy ===== *)
theory Asset_Types
  imports Denoms Decimal
begin

text \<open>
  Component: \<open>src/app/v1/asset/internal/types\<close>: the sources and families of assets
  (\<open>source.go\<close>, \<open>family.go\<close>), fungible tokens and their ids (\<open>asset.go\<close>), gateways (\<open>gateway.go\<close>),
  the messages and their stateless checks (\<open>msgs.go\<close>), the parameters (\<open>params.go\<close>) and the errors
  (\<open>errors.go\<close>).

  Bytes that the code converts to a source or a family are 8-bit words, so that the default branches
  can be reached. Case conversion and trimming act on ASCII text: symbols with letters outside ASCII
  whose Unicode lower case is an ASCII letter are not represented.
\<close>

section \<open>Errors\<close>

datatype AssetCode =
    CodeInvalidMoniker | CodeInvalidIdentity | CodeInvalidDetails | CodeInvalidWebsite
  | CodeUnknownGateway | CodeGatewayAlreadyExists | CodeInvalidOwner | CodeNoUpdatesProvided
  | CodeInvalidAddress | CodeInvalidToAddress
  | CodeNilAssetOwner | CodeInvalidAssetFamily | CodeInvalidAssetSource | CodeInvalidAssetName
  | CodeInvalidAssetSymbol | CodeInvalidAssetCanonicalSymbol | CodeInvalidAssetMinUnitAlias
  | CodeInvalidAssetInitSupply | CodeInvalidAssetMaxSupply | CodeInvalidAssetDecimal
  | CodeAssetAlreadyExists | CodeUnauthorizedIssueGatewayAsset | CodeAssetNotExists
  | CodeAssetNotMintable
  | CodeAssetInsufficientCoins | CodeSignersMissingInContext

fun asset_code :: "AssetCode \<Rightarrow> nat" where
  "asset_code CodeInvalidMoniker = 100"
| "asset_code CodeInvalidIdentity = 101"
| "asset_code CodeInvalidDetails = 102"
| "asset_code CodeInvalidWebsite = 103"
| "asset_code CodeUnknownGateway = 104"
| "asset_code CodeGatewayAlreadyExists = 105"
| "asset_code CodeInvalidOwner = 106"
| "asset_code CodeNoUpdatesProvided = 107"
| "asset_code CodeInvalidAddress = 108"
| "asset_code CodeInvalidToAddress = 109"
| "asset_code CodeNilAssetOwner = 110"
| "asset_code CodeInvalidAssetFamily = 111"
| "asset_code CodeInvalidAssetSource = 112"
| "asset_code CodeInvalidAssetName = 113"
| "asset_code CodeInvalidAssetSymbol = 114"
| "asset_code CodeInvalidAssetCanonicalSymbol = 115"
| "asset_code CodeInvalidAssetMinUnitAlias = 116"
| "asset_code CodeInvalidAssetInitSupply = 117"
| "asset_code CodeInvalidAssetMaxSupply = 118"
| "asset_code CodeInvalidAssetDecimal = 119"
| "asset_code CodeAssetAlreadyExists = 120"
| "asset_code CodeUnauthorizedIssueGatewayAsset = 121"
| "asset_code CodeAssetNotExists = 122"
| "asset_code CodeAssetNotMintable = 123"
| "asset_code CodeAssetInsufficientCoins = 130"
| "asset_code CodeSignersMissingInContext = 131"

definition AssetErr :: "AssetCode \<Rightarrow> sdk_error" where
  "AssetErr code = SdkError ''asset'' (asset_code code)"

section \<open>Sources and families\<close>

type_synonym AssetSource = "8 word"
type_synonym AssetFamily = "8 word"

definition NATIVE :: AssetSource where
  "NATIVE = 0x00"

definition EXTERNAL :: AssetSource where
  "EXTERNAL = 0x01"

definition GATEWAY :: AssetSource where
  "GATEWAY = 0x02"

definition FUNGIBLE :: AssetFamily where
  "FUNGIBLE = 0x00"

lemma sources_distinct [simp]:
  "NATIVE \<noteq> EXTERNAL" "NATIVE \<noteq> GATEWAY" "EXTERNAL \<noteq> GATEWAY" "EXTERNAL \<noteq> NATIVE" "GATEWAY \<noteq> NATIVE" "GATEWAY \<noteq> EXTERNAL"
  by (simp_all add: NATIVE_def EXTERNAL_def GATEWAY_def)

definition AssetSource_String :: "AssetSource \<Rightarrow> string" where
  "AssetSource_String source =
     (if source = NATIVE then ''native'' else if source = EXTERNAL then ''external''
      else if source = GATEWAY then ''gateway'' else '''')"

definition AssetSourceFromString :: "string \<Rightarrow> AssetSource option" where
  "AssetSourceFromString str =
     (if ToLower str = ''native'' then Some NATIVE
      else if ToLower str = ''external'' then Some EXTERNAL
      else if ToLower str = ''gateway'' then Some GATEWAY else None)"

definition IsValidAssetFamily :: "AssetFamily \<Rightarrow> bool" where
  "IsValidAssetFamily family \<longleftrightarrow> family = FUNGIBLE"

text \<open>The optional boolean of the edit message, a string; \<open>strconv.ParseBool\<close> of anything else
  than its spellings of true is false here, as its error is dropped.\<close>

definition Bool_ToBool :: "string \<Rightarrow> bool" where
  "Bool_ToBool b =
     (if length b = 0 then False
      else b \<in> {''1'', ''t'', ''T'', ''true'', ''TRUE'', ''True''})"

section \<open>Limits and formats\<close>

definition MaximumAssetMaxSupply :: uint64 where
  "MaximumAssetMaxSupply = 1000000000000"

definition MaximumAssetInitSupply :: uint64 where
  "MaximumAssetInitSupply = 100000000000"

definition MaximumAssetDecimal :: "8 word" where
  "MaximumAssetDecimal = 18"

definition MinimumAssetSymbolSize :: nat where
  "MinimumAssetSymbolSize = 3"

definition MaximumAssetSymbolSize :: nat where
  "MaximumAssetSymbolSize = 8"

definition MinimumAssetMinUnitAliasSize :: nat where
  "MinimumAssetMinUnitAliasSize = 3"

definition MaximumAssetMinUnitAliasSize :: nat where
  "MaximumAssetMinUnitAliasSize = 10"

definition MaximumAssetNameSize :: nat where
  "MaximumAssetNameSize = 32"

definition MinimumGatewayMonikerSize :: nat where
  "MinimumGatewayMonikerSize = 3"

definition MaximumGatewayMonikerSize :: nat where
  "MaximumGatewayMonikerSize = 8"

definition DoNotModify :: string where
  "DoNotModify = ''[do-not-modify]''"

definition letter_char :: "char \<Rightarrow> bool" where
  "letter_char c \<longleftrightarrow> ralpha c \<or> (CHR ''A'' \<le> c \<and> c \<le> CHR ''Z'')"

definition IsAlphaNumeric :: "string \<Rightarrow> bool" where
  "IsAlphaNumeric s \<longleftrightarrow> s \<noteq> [] \<and> list_all (\<lambda>c. letter_char c \<or> rdigit c) s"

definition IsBeginWithAlpha :: "string \<Rightarrow> bool" where
  "IsBeginWithAlpha s = (case s of [] \<Rightarrow> False | c # _ \<Rightarrow> letter_char c)"

definition Contains :: "string \<Rightarrow> string \<Rightarrow> bool" where
  "Contains s sub \<longleftrightarrow> sublist sub s"

section \<open>Monikers and descriptions of gateways\<close>

record Gateway =
  gw_Owner :: AccAddress
  gw_Moniker :: string
  gw_Identity :: string
  gw_Details :: string
  gw_Website :: string

definition ValidateMoniker :: "string \<Rightarrow> sdk_error + unit" where
  "ValidateMoniker moniker =
     (if length moniker < MinimumGatewayMonikerSize \<or> length moniker > MaximumGatewayMonikerSize
      then Inl (AssetErr CodeInvalidMoniker)
      else if \<not> IsBeginWithAlpha moniker \<or> \<not> IsAlphaNumeric moniker then Inl (AssetErr CodeInvalidMoniker)
      else if Contains (ToLower moniker) Iris then Inl (AssetErr CodeInvalidMoniker)
      else Inr ())"

text \<open>A nil pointer, a field that is not to be changed, is \<open>None\<close>.\<close>

definition longer :: "string option \<Rightarrow> nat \<Rightarrow> bool" where
  "longer field n = (case field of None \<Rightarrow> False | Some str \<Rightarrow> length str > n)"

definition validateGatewayDesc :: "string option \<Rightarrow> string option \<Rightarrow> string option \<Rightarrow> sdk_error + unit" where
  "validateGatewayDesc identity details website =
     (if longer identity 128 then Inl (AssetErr CodeInvalidIdentity)
      else if longer details 280 then Inl (AssetErr CodeInvalidDetails)
      else if longer website 128 then Inl (AssetErr CodeInvalidWebsite)
      else Inr ())"

definition Gateway_Validate :: "Gateway \<Rightarrow> sdk_error + unit" where
  "Gateway_Validate g =
     (case ValidateMoniker (gw_Moniker g) of Inl e \<Rightarrow> Inl e
      | Inr _ \<Rightarrow> validateGatewayDesc (Some (gw_Identity g)) (Some (gw_Details g)) (Some (gw_Website g)))"

section \<open>Token ids\<close>

definition GetTokenID :: "AssetSource \<Rightarrow> string \<Rightarrow> string \<Rightarrow> sdk_error + string" where
  "GetTokenID source symbol gateway =
     (if source = NATIVE then Inr (ToLower (''i.'' @ symbol))
      else if source = EXTERNAL then Inr (ToLower (''x.'' @ symbol))
      else if source = GATEWAY then Inr (ToLower (gateway @ ''.'' @ symbol))
      else Inl (AssetErr CodeInvalidAssetSource))"

fun Join :: "string list \<Rightarrow> string \<Rightarrow> string" where
  "Join [] sep = []"
| "Join [s] sep = s"
| "Join (s # ss) sep = s @ sep @ Join ss sep"

definition GetTokenIDParts :: "string \<Rightarrow> string \<times> string" where
  "GetTokenIDParts tokenId =
     (let parts = Split (ToLower tokenId) (CHR ''.'') in
      if length parts > 1 then (hd parts, Join (tl parts) ''.'') else ('''', hd parts))"

definition CheckTokenID :: "string \<Rightarrow> sdk_error + unit" where
  "CheckTokenID tokenId =
     (let (source, symbol) = GetTokenIDParts tokenId in
      case (if source \<noteq> '''' \<and> source \<noteq> ''i'' \<and> source \<noteq> ''x'' then ValidateMoniker source else Inr ()) of
        Inl e \<Rightarrow> Inl e
      | Inr _ \<Rightarrow>
          if length symbol < MinimumAssetSymbolSize \<or> length symbol > MaximumAssetSymbolSize
             \<or> \<not> IsBeginWithAlpha symbol \<or> \<not> IsAlphaNumeric symbol \<or> Contains symbol Iris
          then Inl (AssetErr CodeInvalidAssetSymbol) else Inr ())"

section \<open>Fungible tokens\<close>

record FungibleToken =
  ft_Id :: string
  ft_Family :: AssetFamily
  ft_Source :: AssetSource
  ft_Gateway :: string
  ft_Symbol :: string
  ft_Name :: string
  ft_Decimal :: "8 word"
  ft_CanonicalSymbol :: string
  ft_MinUnitAlias :: string
  ft_InitialSupply :: int
  ft_MaxSupply :: int
  ft_Mintable :: bool
  ft_Owner :: AccAddress

definition lower_trim :: "string \<Rightarrow> string" where
  "lower_trim str = ToLower (TrimSpace str)"

definition NewBaseToken ::
  "AssetFamily \<Rightarrow> AssetSource \<Rightarrow> string \<Rightarrow> string \<Rightarrow> string \<Rightarrow> 8 word \<Rightarrow> string \<Rightarrow> string \<Rightarrow> int \<Rightarrow> int \<Rightarrow>
     bool \<Rightarrow> AccAddress \<Rightarrow> FungibleToken" where
  "NewBaseToken family source gateway symbol name decimal canonicalSymbol minUnitAlias initialSupply maxSupply
     mintable owner =
     (let maxSupply' = (if maxSupply = 0 then if mintable then uint MaximumAssetMaxSupply else initialSupply
                        else maxSupply)
      in \<lparr>ft_Id = '''', ft_Family = family, ft_Source = source, ft_Gateway = lower_trim gateway,
          ft_Symbol = lower_trim symbol, ft_Name = TrimSpace name, ft_Decimal = decimal,
          ft_CanonicalSymbol = lower_trim canonicalSymbol, ft_MinUnitAlias = lower_trim minUnitAlias,
          ft_InitialSupply = initialSupply, ft_MaxSupply = maxSupply', ft_Mintable = mintable,
          ft_Owner = owner\<rparr>)"

definition GetUniqueID :: "FungibleToken \<Rightarrow> string" where
  "GetUniqueID ft =
     (if ft_Source ft = NATIVE then ToLower (ft_Symbol ft)
      else if ft_Source ft = EXTERNAL then ToLower (''x.'' @ ft_Symbol ft)
      else if ft_Source ft = GATEWAY then ToLower (ft_Gateway ft @ ''.'' @ ft_Symbol ft)
      else '''')"

definition NewFungibleToken ::
  "AssetSource \<Rightarrow> string \<Rightarrow> string \<Rightarrow> string \<Rightarrow> 8 word \<Rightarrow> string \<Rightarrow> string \<Rightarrow> int \<Rightarrow> int \<Rightarrow>
     bool \<Rightarrow> AccAddress \<Rightarrow> FungibleToken" where
  "NewFungibleToken source gateway symbol name decimal canonicalSymbol minUnitAlias initialSupply maxSupply
     mintable owner =
     (let token = NewBaseToken FUNGIBLE source gateway symbol name decimal canonicalSymbol minUnitAlias
        initialSupply maxSupply mintable owner
      in token\<lparr>ft_Id := GetUniqueID token\<rparr>)"

definition GetDenom :: "FungibleToken \<Rightarrow> string" where
  "GetDenom ft = (case GetCoinMinDenom (GetUniqueID ft) of None \<Rightarrow> '''' | Some denom \<Rightarrow> denom)"

definition GetCoinType :: "FungibleToken \<Rightarrow> CoinType" where
  "GetCoinType ft =
     (let units = [NewUnit (GetUniqueID ft) 0, NewUnit (GetDenom ft) (unat (ft_Decimal ft))]
      in \<lparr>ct_Name = GetUniqueID ft, ct_MinUnit = units ! 1, ct_Units = units\<rparr>)"

section \<open>Messages\<close>

record MsgIssueToken =
  mi_Family :: AssetFamily
  mi_Source :: AssetSource
  mi_Gateway :: string
  mi_Symbol :: string
  mi_CanonicalSymbol :: string
  mi_Name :: string
  mi_Decimal :: "8 word"
  mi_MinUnitAlias :: string
  mi_InitialSupply :: uint64
  mi_MaxSupply :: uint64
  mi_Mintable :: bool
  mi_Owner :: AccAddress

text \<open>The check rewrites the message it is given a pointer to; \<open>Inr\<close> carries the rewritten one.\<close>

definition normalise_issue :: "MsgIssueToken \<Rightarrow> MsgIssueToken" where
  "normalise_issue msg =
     msg\<lparr>mi_Gateway := lower_trim (mi_Gateway msg), mi_Symbol := lower_trim (mi_Symbol msg),
         mi_CanonicalSymbol := (if mi_Source msg = NATIVE then '''' else lower_trim (mi_CanonicalSymbol msg)),
         mi_MinUnitAlias := lower_trim (mi_MinUnitAlias msg), mi_Name := TrimSpace (mi_Name msg),
         mi_MaxSupply := (if mi_MaxSupply msg = 0
                          then if mi_Mintable msg then MaximumAssetMaxSupply else mi_InitialSupply msg
                          else mi_MaxSupply msg)\<rparr>"

definition invalid_alias :: "string \<Rightarrow> bool" where
  "invalid_alias alias \<longleftrightarrow>
     length alias < MinimumAssetMinUnitAliasSize \<or> length alias > MaximumAssetMinUnitAliasSize
     \<or> \<not> IsAlphaNumeric alias \<or> \<not> IsBeginWithAlpha alias"

definition ValidateMsgIssueToken :: "MsgIssueToken \<Rightarrow> sdk_error + MsgIssueToken" where
  "ValidateMsgIssueToken msg0 =
     (let msg = normalise_issue msg0 in
      if mi_Source msg = NATIVE \<and> mi_Owner msg = '''' then Inl (AssetErr CodeNilAssetOwner)
      else if mi_Source msg = GATEWAY \<and> (length (mi_Gateway msg) < MinimumGatewayMonikerSize
        \<or> length (mi_Gateway msg) > MaximumGatewayMonikerSize) then Inl (AssetErr CodeInvalidMoniker)
      else if mi_Source msg \<notin> {NATIVE, EXTERNAL, GATEWAY} then Inl (AssetErr CodeInvalidAssetSource)
      else if \<not> IsValidAssetFamily (mi_Family msg) then Inl (AssetErr CodeInvalidAssetFamily)
      else if length (mi_Name msg) = 0 \<or> length (mi_Name msg) > MaximumAssetNameSize
      then Inl (AssetErr CodeInvalidAssetName)
      else if length (mi_Symbol msg) < MinimumAssetSymbolSize \<or> length (mi_Symbol msg) > MaximumAssetSymbolSize
        \<or> \<not> IsBeginWithAlpha (mi_Symbol msg) \<or> \<not> IsAlphaNumeric (mi_Symbol msg)
      then Inl (AssetErr CodeInvalidAssetSymbol)
      else if Contains (ToLower (mi_Symbol msg)) Iris then Inl (AssetErr CodeInvalidAssetSymbol)
      else if length (mi_MinUnitAlias msg) > 0 \<and> invalid_alias (mi_MinUnitAlias msg)
      then Inl (AssetErr CodeInvalidAssetMinUnitAlias)
      else if mi_InitialSupply msg > MaximumAssetInitSupply then Inl (AssetErr CodeInvalidAssetInitSupply)
      else if mi_MaxSupply msg < mi_InitialSupply msg \<or> mi_MaxSupply msg > MaximumAssetMaxSupply
      then Inl (AssetErr CodeInvalidAssetMaxSupply)
      else if mi_Decimal msg > MaximumAssetDecimal then Inl (AssetErr CodeInvalidAssetDecimal)
      else Inr msg)"

definition MsgIssueToken_ValidateBasic :: "MsgIssueToken \<Rightarrow> sdk_error + unit" where
  "MsgIssueToken_ValidateBasic msg =
     (if mi_Source msg = EXTERNAL then Inl (AssetErr CodeInvalidAssetSource)
      else case ValidateMsgIssueToken msg of Inl e \<Rightarrow> Inl e | Inr _ \<Rightarrow> Inr ())"

record MsgCreateGateway =
  mcg_Owner :: AccAddress
  mcg_Moniker :: string
  mcg_Identity :: string
  mcg_Details :: string
  mcg_Website :: string

definition MsgCreateGateway_ValidateBasic :: "MsgCreateGateway \<Rightarrow> sdk_error + unit" where
  "MsgCreateGateway_ValidateBasic msg =
     (if length (mcg_Owner msg) = 0 then Inl (AssetErr CodeInvalidAddress)
      else case ValidateMoniker (mcg_Moniker msg) of Inl e \<Rightarrow> Inl e
      | Inr _ \<Rightarrow> validateGatewayDesc (Some (mcg_Identity msg)) (Some (mcg_Details msg)) (Some (mcg_Website msg)))"

record MsgEditGateway =
  meg_Owner :: AccAddress
  meg_Moniker :: string
  meg_Identity :: string
  meg_Details :: string
  meg_Website :: string

definition updated_field :: "string \<Rightarrow> string option" where
  "updated_field str = (if str \<noteq> DoNotModify then Some str else None)"

definition MsgEditGateway_ValidateBasic :: "MsgEditGateway \<Rightarrow> sdk_error + unit" where
  "MsgEditGateway_ValidateBasic msg =
     (if length (meg_Owner msg) = 0 then Inl (AssetErr CodeInvalidAddress)
      else case ValidateMoniker (meg_Moniker msg) of Inl e \<Rightarrow> Inl e
      | Inr _ \<Rightarrow>
          let identity = updated_field (meg_Identity msg);
              details = updated_field (meg_Details msg);
              website = updated_field (meg_Website msg)
          in if identity = None \<and> details = None \<and> website = None then Inl (AssetErr CodeNoUpdatesProvided)
             else validateGatewayDesc identity details website)"

record MsgTransferGatewayOwner =
  mtg_Owner :: AccAddress
  mtg_Moniker :: string
  mtg_To :: AccAddress

definition MsgTransferGatewayOwner_ValidateBasic :: "MsgTransferGatewayOwner \<Rightarrow> sdk_error + unit" where
  "MsgTransferGatewayOwner_ValidateBasic msg =
     (if length (mtg_Owner msg) = 0 then Inl (AssetErr CodeInvalidAddress)
      else if length (mtg_To msg) = 0 then Inl (AssetErr CodeInvalidAddress)
      else if mtg_To msg = mtg_Owner msg then Inl (AssetErr CodeInvalidToAddress)
      else ValidateMoniker (mtg_Moniker msg))"

record MsgTransferTokenOwner =
  mtt_SrcOwner :: AccAddress
  mtt_DstOwner :: AccAddress
  mtt_TokenId :: string

definition MsgTransferTokenOwner_ValidateBasic :: "MsgTransferTokenOwner \<Rightarrow> sdk_error + unit" where
  "MsgTransferTokenOwner_ValidateBasic msg =
     (if length (mtt_SrcOwner msg) = 0 then Inl (AssetErr CodeInvalidAddress)
      else if length (mtt_DstOwner msg) = 0 then Inl (AssetErr CodeInvalidAddress)
      else if mtt_SrcOwner msg = mtt_DstOwner msg then Inl (AssetErr CodeInvalidToAddress)
      else CheckTokenID (mtt_TokenId msg))"

record MsgEditToken =
  met_TokenId :: string
  met_Owner :: AccAddress
  met_CanonicalSymbol :: string
  met_MinUnitAlias :: string
  met_MaxSupply :: uint64
  met_Mintable :: string
  met_Name :: string

definition MsgEditToken_ValidateBasic :: "MsgEditToken \<Rightarrow> sdk_error + unit" where
  "MsgEditToken_ValidateBasic msg =
     (if met_Owner msg = '''' then Inl (AssetErr CodeNilAssetOwner)
      else if DoNotModify \<noteq> met_Name msg \<and> length (met_Name msg) > MaximumAssetNameSize
      then Inl (AssetErr CodeInvalidAssetName)
      else if met_MaxSupply msg > MaximumAssetMaxSupply then Inl (AssetErr CodeInvalidAssetMaxSupply)
      else case CheckTokenID (met_TokenId msg) of Inl e \<Rightarrow> Inl e
      | Inr _ \<Rightarrow>
          if DoNotModify \<noteq> met_CanonicalSymbol msg
             \<and> (length (met_CanonicalSymbol msg) < MinimumAssetSymbolSize
                \<or> length (met_CanonicalSymbol msg) > MaximumAssetSymbolSize
                \<or> \<not> IsAlphaNumeric (met_CanonicalSymbol msg))
          then Inl (AssetErr CodeInvalidAssetCanonicalSymbol)
          else if DoNotModify \<noteq> met_MinUnitAlias msg \<and> invalid_alias (met_MinUnitAlias msg)
          then Inl (AssetErr CodeInvalidAssetMinUnitAlias)
          else Inr ())"

record MsgMintToken =
  mmt_TokenId :: string
  mmt_Owner :: AccAddress
  mmt_To :: AccAddress
  mmt_Amount :: uint64

definition MsgMintToken_ValidateBasic :: "MsgMintToken \<Rightarrow> sdk_error + unit" where
  "MsgMintToken_ValidateBasic msg =
     (if length (mmt_Owner msg) = 0 then Inl (AssetErr CodeInvalidAddress)
      else if mmt_Amount msg = 0 \<or> mmt_Amount msg > MaximumAssetMaxSupply
      then Inl (AssetErr CodeInvalidAssetMaxSupply)
      else CheckTokenID (mmt_TokenId msg))"

datatype asset_msg =
    AssetIssueToken MsgIssueToken
  | AssetCreateGateway MsgCreateGateway
  | AssetEditGateway MsgEditGateway
  | AssetEditToken MsgEditToken
  | AssetTransferGatewayOwner MsgTransferGatewayOwner
  | AssetMintToken MsgMintToken
  | AssetTransferTokenOwner MsgTransferTokenOwner

fun asset_ValidateBasic :: "asset_msg \<Rightarrow> sdk_error + unit" where
  "asset_ValidateBasic (AssetIssueToken msg) = MsgIssueToken_ValidateBasic msg"
| "asset_ValidateBasic (AssetCreateGateway msg) = MsgCreateGateway_ValidateBasic msg"
| "asset_ValidateBasic (AssetEditGateway msg) = MsgEditGateway_ValidateBasic msg"
| "asset_ValidateBasic (AssetEditToken msg) = MsgEditToken_ValidateBasic msg"
| "asset_ValidateBasic (AssetTransferGatewayOwner msg) = MsgTransferGatewayOwner_ValidateBasic msg"
| "asset_ValidateBasic (AssetMintToken msg) = MsgMintToken_ValidateBasic msg"
| "asset_ValidateBasic (AssetTransferTokenOwner msg) = MsgTransferTokenOwner_ValidateBasic msg"

section \<open>Parameters\<close>

record AssetParams =
  AssetTaxRate :: Dec
  IssueTokenBaseFee :: Coin
  MintTokenFeeRatio :: Dec
  CreateGatewayBaseFee :: Coin
  GatewayAssetFeeRatio :: Dec

definition ratio_ok :: "Dec \<Rightarrow> bool" where
  "ratio_ok v \<longleftrightarrow> \<not> (v > precisionReuse \<or> v < 0)"

definition ValidateAssetParams :: "AssetParams \<Rightarrow> sdk_error + unit" where
  "ValidateAssetParams p =
     (if \<not> ratio_ok (AssetTaxRate p) then Inl (SdkError ''params'' 900)
      else if \<not> ratio_ok (MintTokenFeeRatio p) then Inl (SdkError ''params'' 901)
      else if \<not> ratio_ok (GatewayAssetFeeRatio p) then Inl (SdkError ''params'' 902)
      else if Coin_IsNegative (IssueTokenBaseFee p) then Inl (SdkError ''params'' 903)
      else if Coin_IsNegative (CreateGatewayBaseFee p) then Inl (SdkError ''params'' 904)
      else Inr ())"

definition DefaultAssetParams :: AssetParams where
  "DefaultAssetParams =
     \<lparr>AssetTaxRate = 4 * 10 ^ 9,
      IssueTokenBaseFee = \<lparr>Denom = IrisAtto, Amount = 60000 * 10 ^ 18\<rparr>,
      MintTokenFeeRatio = 10 ^ 9,
      CreateGatewayBaseFee = \<lparr>Denom = IrisAtto, Amount = 120000 * 10 ^ 18\<rparr>,
      GatewayAssetFeeRatio = 10 ^ 9\<rparr>"

end
