(* ===== verification/Stake_Types.thy ===== *)
theory Stake_Types
  imports Decimal Bank
begin

text \<open>
  Component: \<open>src/app/v1/stake/types\<close>: validators and their descriptions (\<open>validator.go\<close>),
  commissions (\<open>commission.go\<close>), the pool (\<open>pool.go\<close>), delegations (\<open>delegation.go\<close>), parameters
  (\<open>params.go\<close>) and messages (\<open>msg.go\<close>); \<open>src/types/stake.go\<close> for the bond status.

  Times are nanoseconds since the epoch, durations nanoseconds. A nil address is the empty byte
  string, a decimal that the decoder may leave nil is an option. The consensus address of a public
  key and the name of its type are computed by tendermint: fields of \<open>stake_externals\<close>.
\<close>

type_synonym ValAddress = bytes
type_synonym ConsAddress = bytes
type_synonym go_time = int

record stake_externals = externals +
  PubKey_Address :: "PubKey \<Rightarrow> ConsAddress"
  TM2PB_PubKey_Type :: "PubKey \<Rightarrow> string"

section \<open>Errors\<close>

definition StakeCodespace :: string where
  "StakeCodespace = ''stake''"

definition CodeInvalidValidator :: nat where
  "CodeInvalidValidator = 101"

definition CodeInvalidDelegation :: nat where
  "CodeInvalidDelegation = 102"

definition CodeInvalidInput :: nat where
  "CodeInvalidInput = 103"

definition ErrStakeValidator :: sdk_error where
  "ErrStakeValidator = SdkError StakeCodespace CodeInvalidValidator"

definition ErrStakeDelegation :: sdk_error where
  "ErrStakeDelegation = SdkError StakeCodespace CodeInvalidDelegation"

definition ErrStakeInput :: sdk_error where
  "ErrStakeInput = SdkError StakeCodespace CodeInvalidInput"

definition ErrNotMature :: sdk_error where
  "ErrNotMature = SdkError StakeCodespace 4"

section \<open>Parameters\<close>

record StakeParams =
  UnbondingTime :: int
  MaxValidators :: nat

definition Week :: int where
  "Week = 7 * 24 * 60 * 60 * 10 ^ 9"

definition Minute :: int where
  "Minute = 60 * 10 ^ 9"

definition DefaultStakeParams :: StakeParams where
  "DefaultStakeParams = \<lparr>UnbondingTime = 3 * Week, MaxValidators = 100\<rparr>"

definition validateUnbondingTime :: "bool \<Rightarrow> int \<Rightarrow> sdk_error + unit" where
  "validateUnbondingTime mainnet v =
     (if mainnet then (if v < 2 * Week then Inl (SdkError ''params'' 500) else Inr ())
      else if v < 2 * Minute then Inl (SdkError ''params'' 500)
      else Inr ())"

definition validateMaxValidators :: "bool \<Rightarrow> nat \<Rightarrow> sdk_error + unit" where
  "validateMaxValidators mainnet v =
     (if mainnet then (if v < 100 \<or> v > 200 then Inl (SdkError ''params'' 501) else Inr ())
      else if v = 0 \<or> v > 200 then Inl (SdkError ''params'' 501)
      else Inr ())"

definition ValidateStakeParams :: "bool \<Rightarrow> StakeParams \<Rightarrow> sdk_error + unit" where
  "ValidateStakeParams mainnet p =
     (case validateUnbondingTime mainnet (UnbondingTime p) of Inl e \<Rightarrow> Inl e
      | Inr _ \<Rightarrow> validateMaxValidators mainnet (MaxValidators p))"

section \<open>Commissions\<close>

record Commission =
  com_Rate :: Dec
  com_MaxRate :: Dec
  com_MaxChangeRate :: Dec
  com_UpdateTime :: go_time

definition OneDec :: Dec where
  "OneDec = precisionReuse"

definition NewCommissionWithTime :: "Dec \<Rightarrow> Dec \<Rightarrow> Dec \<Rightarrow> go_time \<Rightarrow> Commission" where
  "NewCommissionWithTime rate maxRate maxChangeRate updatedAt =
     \<lparr>com_Rate = rate, com_MaxRate = maxRate, com_MaxChangeRate = maxChangeRate, com_UpdateTime = updatedAt\<rparr>"

definition NewCommission :: "Dec \<Rightarrow> Dec \<Rightarrow> Dec \<Rightarrow> Commission" where
  "NewCommission rate maxRate maxChangeRate = NewCommissionWithTime rate maxRate maxChangeRate 0"

definition Commission_Validate :: "Commission \<Rightarrow> sdk_error + unit" where
  "Commission_Validate c =
     (if com_MaxRate c < 0 then Inl ErrStakeValidator
      else if com_MaxRate c > OneDec then Inl ErrStakeValidator
      else if com_Rate c < 0 then Inl ErrStakeValidator
      else if com_Rate c > com_MaxRate c then Inl ErrStakeValidator
      else if com_MaxChangeRate c < 0 then Inl ErrStakeValidator
      else if com_MaxChangeRate c > com_MaxRate c then Inl ErrStakeValidator
      else Inr ())"

definition ValidateNewRate :: "Commission \<Rightarrow> Dec \<Rightarrow> go_time \<Rightarrow> (sdk_error + unit) option" where
  "ValidateNewRate c newRate blockTime =
     (if blockTime - com_UpdateTime c < 24 * 60 * 60 * 10 ^ 9 then Some (Inl ErrStakeValidator)
      else if newRate < 0 then Some (Inl ErrStakeValidator)
      else if newRate > com_MaxRate c then Some (Inl ErrStakeValidator)
      else do {
        change \<leftarrow> Dec_Sub newRate (com_Rate c);
        if \<bar>change\<bar> > com_MaxChangeRate c then Some (Inl ErrStakeValidator) else Some (Inr ())
      })"

section \<open>Descriptions\<close>

record Description =
  des_Moniker :: string
  des_Identity :: string
  des_Website :: string
  des_Details :: string

definition DoNotModifyDesc :: string where
  "DoNotModifyDesc = ''[do-not-modify]''"

definition EnsureLength :: "Description \<Rightarrow> sdk_error + Description" where
  "EnsureLength d =
     (if length (des_Moniker d) > 70 then Inl ErrStakeValidator
      else if length (des_Identity d) > 3000 then Inl ErrStakeValidator
      else if length (des_Website d) > 140 then Inl ErrStakeValidator
      else if length (des_Details d) > 280 then Inl ErrStakeValidator
      else Inr d)"

definition UpdateDescription :: "Description \<Rightarrow> Description \<Rightarrow> sdk_error + Description" where
  "UpdateDescription d d2 =
     EnsureLength
       \<lparr>des_Moniker = (if des_Moniker d2 = DoNotModifyDesc then des_Moniker d else des_Moniker d2),
        des_Identity = (if des_Identity d2 = DoNotModifyDesc then des_Identity d else des_Identity d2),
        des_Website = (if des_Website d2 = DoNotModifyDesc then des_Website d else des_Website d2),
        des_Details = (if des_Details d2 = DoNotModifyDesc then des_Details d else des_Details d2)\<rparr>"

section \<open>The pool\<close>

text \<open>The pool is its one stored field, the bonded tokens; the loose tokens are counted by the bank.\<close>

type_synonym Pool = Dec

definition StakeDenom :: string where
  "StakeDenom = IrisAtto"

definition AttoScaleFactor :: int where
  "AttoScaleFactor = 10 ^ 18"

definition loosenTokenToBonded :: "Pool \<Rightarrow> Dec \<Rightarrow> ('z auth_state_scheme, Pool) op" where
  "loosenTokenToBonded p bondedTokens =
     bind_op (lift_go (Dec_TruncateInt bondedTokens)) (\<lambda>round.
     bind_op (lift_go (do { r \<leftarrow> NewDecFromInt round; Dec_Sub bondedTokens r })) (\<lambda>change.
     if change \<noteq> 0 then panic
     else
       bind_op (lift_go (Dec_Add p bondedTokens)) (\<lambda>p'.
       bind_op (lift_go (NewCoin StakeDenom round)) (\<lambda>balance.
       bind_op (DecreaseTotalLoosenToken [balance]) (\<lambda>_.
       ret p')))))"

definition bondedTokenToLoosen :: "Pool \<Rightarrow> Dec \<Rightarrow> ('z auth_state_scheme, Pool) op" where
  "bondedTokenToLoosen p bondedTokens =
     bind_op (lift_go (Dec_TruncateInt bondedTokens)) (\<lambda>round.
     bind_op (lift_go (do { r \<leftarrow> NewDecFromInt round; Dec_Sub bondedTokens r })) (\<lambda>change.
     if change \<noteq> 0 then panic
     else
       bind_op (lift_go (Dec_Sub p bondedTokens)) (\<lambda>p'.
       bind_op (lift_go (NewCoin StakeDenom round)) (\<lambda>balance.
       bind_op (IncreaseTotalLoosenToken [balance]) (\<lambda>_.
       ret p')))))"

section \<open>Validators\<close>

datatype BondStatus = Unbonded | Unbonding | Bonded

record Validator =
  v_OperatorAddr :: ValAddress
  v_ConsPubKey :: PubKey
  v_Jailed :: bool
  v_Status :: BondStatus
  v_Tokens :: Dec
  v_DelegatorShares :: Dec
  v_Description :: Description
  v_BondHeight :: int
  v_UnbondingHeight :: int
  v_UnbondingMinTime :: go_time
  v_Commission :: Commission

definition NewValidator :: "ValAddress \<Rightarrow> PubKey \<Rightarrow> Description \<Rightarrow> Validator" where
  "NewValidator operator pubKey description =
     \<lparr>v_OperatorAddr = operator, v_ConsPubKey = pubKey, v_Jailed = False, v_Status = Unbonded, v_Tokens = 0,
      v_DelegatorShares = 0, v_Description = description, v_BondHeight = 0, v_UnbondingHeight = 0,
      v_UnbondingMinTime = 0, v_Commission = NewCommission 0 0 0\<rparr>"

definition ConsAddr :: "'e stake_externals_scheme \<Rightarrow> Validator \<Rightarrow> ConsAddress" where
  "ConsAddr E v = PubKey_Address E (v_ConsPubKey v)"

definition BondedTokens :: "Validator \<Rightarrow> Dec" where
  "BondedTokens v = (if v_Status v = Bonded then v_Tokens v else 0)"

definition GetPower :: "Validator \<Rightarrow> Dec option" where
  "GetPower v = Dec_QuoInt (BondedTokens v) AttoScaleFactor"

definition GetPotentialPower :: "Validator \<Rightarrow> Dec option" where
  "GetPotentialPower v = Dec_QuoInt (v_Tokens v) AttoScaleFactor"

definition UpdateStatus :: "Validator \<Rightarrow> Pool \<Rightarrow> BondStatus \<Rightarrow> ('z auth_state_scheme, Validator \<times> Pool) op" where
  "UpdateStatus v pool NewStatus =
     (if v_Status v = NewStatus then ret (v, pool)
      else
        bind_op
          (case v_Status v of
             Unbonded \<Rightarrow> if NewStatus = Bonded then loosenTokenToBonded pool (v_Tokens v) else ret pool
           | Unbonding \<Rightarrow> if NewStatus = Bonded then loosenTokenToBonded pool (v_Tokens v) else ret pool
           | Bonded \<Rightarrow> bondedTokenToLoosen pool (v_Tokens v)) (\<lambda>pool'.
        ret (v\<lparr>v_Status := NewStatus\<rparr>, pool')))"

definition RemoveTokens :: "Validator \<Rightarrow> Pool \<Rightarrow> Dec \<Rightarrow> ('z auth_state_scheme, Validator \<times> Pool) op" where
  "RemoveTokens v pool tokens =
     (if tokens < 0 then panic
      else if v_Tokens v < tokens then panic
      else
        bind_op (lift_go (Dec_Sub (v_Tokens v) tokens)) (\<lambda>left.
        bind_op (if v_Status v = Bonded then bondedTokenToLoosen pool tokens else ret pool) (\<lambda>pool'.
        ret (v\<lparr>v_Tokens := left\<rparr>, pool'))))"

definition SetInitialCommission :: "Validator \<Rightarrow> Commission \<Rightarrow> sdk_error + Validator" where
  "SetInitialCommission v commission =
     (case Commission_Validate commission of Inl e \<Rightarrow> Inl e | Inr _ \<Rightarrow> Inr (v\<lparr>v_Commission := commission\<rparr>))"

definition DelegatorShareExRate :: "Validator \<Rightarrow> Dec option" where
  "DelegatorShareExRate v =
     (if v_DelegatorShares v = 0 then Some OneDec else Dec_Quo (v_Tokens v) (v_DelegatorShares v))"

definition AddTokensFromDel :: "Validator \<Rightarrow> Pool \<Rightarrow> int \<Rightarrow> ('z auth_state_scheme, Validator \<times> Pool \<times> Dec) op" where
  "AddTokensFromDel v pool amount =
     bind_op (lift_go (DelegatorShareExRate v)) (\<lambda>exRate.
     bind_op (lift_go (NewDecFromInt amount)) (\<lambda>amountDec.
     bind_op (if v_Status v = Bonded then loosenTokenToBonded pool amountDec else ret pool) (\<lambda>pool'.
     if exRate = 0 then panic
     else
       bind_op (lift_go (Dec_Add (v_Tokens v) amountDec)) (\<lambda>tokens.
       bind_op (lift_go (Dec_Quo amountDec exRate)) (\<lambda>issuedShares.
       bind_op (lift_go (Dec_Add (v_DelegatorShares v) issuedShares)) (\<lambda>shares.
       ret (v\<lparr>v_Tokens := tokens, v_DelegatorShares := shares\<rparr>, pool', issuedShares)))))))"

definition issued_amount :: "Validator \<Rightarrow> Dec \<Rightarrow> Dec option" where
  "issued_amount v delShares =
     do {
       exRate \<leftarrow> DelegatorShareExRate v;
       amount \<leftarrow> Dec_Mul exRate delShares;
       issuedAmount \<leftarrow> Dec_TruncateDec amount;
       Some (if issuedAmount > v_Tokens v \<or> delShares = v_DelegatorShares v then v_Tokens v else issuedAmount)
     }"

definition RemoveDelShares :: "Validator \<Rightarrow> Pool \<Rightarrow> Dec \<Rightarrow> ('z auth_state_scheme, Validator \<times> Pool \<times> Dec) op" where
  "RemoveDelShares v pool delShares =
     bind_op (lift_go (issued_amount v delShares)) (\<lambda>issuedAmount.
     bind_op (lift_go (Dec_Sub (v_Tokens v) issuedAmount)) (\<lambda>tokens.
     bind_op (lift_go (Dec_Sub (v_DelegatorShares v) delShares)) (\<lambda>shares.
     bind_op (if v_Status v = Bonded then bondedTokenToLoosen pool issuedAmount else ret pool) (\<lambda>pool'.
     ret (v\<lparr>v_Tokens := tokens, v_DelegatorShares := shares\<rparr>, pool', issuedAmount)))))"

section \<open>Delegations\<close>

record Delegation =
  d_DelegatorAddr :: AccAddress
  d_ValidatorAddr :: ValAddress
  d_Shares :: Dec
  d_Height :: int

record UnbondingDelegation =
  ubd_TxHash :: string
  ubd_DelegatorAddr :: AccAddress
  ubd_ValidatorAddr :: ValAddress
  ubd_CreationHeight :: int
  ubd_MinTime :: go_time
  ubd_InitialBalance :: Coin
  ubd_Balance :: Coin

record Redelegation =
  red_DelegatorAddr :: AccAddress
  red_ValidatorSrcAddr :: ValAddress
  red_ValidatorDstAddr :: ValAddress
  red_CreationHeight :: int
  red_MinTime :: go_time
  red_InitialBalance :: Coin
  red_Balance :: Coin
  red_SharesSrc :: Dec
  red_SharesDst :: Dec

section \<open>Messages\<close>

record CommissionMsg =
  cm_Rate :: "Dec option"
  cm_MaxRate :: "Dec option"
  cm_MaxChangeRate :: "Dec option"

record MsgCreateValidator =
  cv_Description :: Description
  cv_Commission :: CommissionMsg
  cv_DelegatorAddr :: AccAddress
  cv_ValidatorAddr :: ValAddress
  cv_PubKey :: PubKey
  cv_Delegation :: Coin

record MsgEditValidator =
  ev_Description :: Description
  ev_ValidatorAddr :: ValAddress
  ev_CommissionRate :: "Dec option"

record MsgDelegate =
  md_DelegatorAddr :: AccAddress
  md_ValidatorAddr :: ValAddress
  md_Delegation :: Coin

record MsgBeginRedelegate =
  mr_DelegatorAddr :: AccAddress
  mr_ValidatorSrcAddr :: ValAddress
  mr_ValidatorDstAddr :: ValAddress
  mr_SharesAmount :: "Dec option"

record MsgBeginUnbonding =
  mu_DelegatorAddr :: AccAddress
  mu_ValidatorAddr :: ValAddress
  mu_SharesAmount :: "Dec option"

datatype stake_msg =
    CreateValidator MsgCreateValidator
  | EditValidator MsgEditValidator
  | DelegateMsg MsgDelegate
  | BeginRedelegate MsgBeginRedelegate
  | BeginUnbond MsgBeginUnbonding

definition zero_Description :: Description where
  "zero_Description = \<lparr>des_Moniker = [], des_Identity = [], des_Website = [], des_Details = []\<rparr>"

definition MsgCreateValidator_ValidateBasic :: "MsgCreateValidator \<Rightarrow> sdk_error + unit" where
  "MsgCreateValidator_ValidateBasic msg =
     (if cv_DelegatorAddr msg = [] then Inl ErrStakeInput
      else if cv_ValidatorAddr msg = [] then Inl ErrStakeInput
      else if \<not> Coin_IsValidIrisAtto (cv_Delegation msg) then Inl ErrStakeDelegation
      else if cv_Description msg = zero_Description then Inl ErrStakeInput
      else if cv_Commission msg = \<lparr>cm_Rate = None, cm_MaxRate = None, cm_MaxChangeRate = None\<rparr> then Inl ErrStakeInput
      else map_sum id (\<lambda>_. ()) (EnsureLength (cv_Description msg)))"

definition MsgEditValidator_ValidateBasic :: "MsgEditValidator \<Rightarrow> sdk_error + unit" where
  "MsgEditValidator_ValidateBasic msg =
     (if ev_ValidatorAddr msg = [] then Inl ErrStakeInput
      else if ev_Description msg = zero_Description then Inl ErrStakeInput
      else map_sum id (\<lambda>_. ()) (EnsureLength (ev_Description msg)))"

definition MsgDelegate_ValidateBasic :: "MsgDelegate \<Rightarrow> sdk_error + unit" where
  "MsgDelegate_ValidateBasic msg =
     (if md_DelegatorAddr msg = [] then Inl ErrStakeInput
      else if md_ValidatorAddr msg = [] then Inl ErrStakeInput
      else if \<not> Coin_IsValidIrisAtto (md_Delegation msg) then Inl ErrStakeDelegation
      else Inr ())"

definition bad_shares :: "Dec option \<Rightarrow> bool" where
  "bad_shares shares = (case shares of None \<Rightarrow> True | Some s \<Rightarrow> s \<le> 0)"

definition MsgBeginRedelegate_ValidateBasic :: "MsgBeginRedelegate \<Rightarrow> sdk_error + unit" where
  "MsgBeginRedelegate_ValidateBasic msg =
     (if mr_DelegatorAddr msg = [] then Inl ErrStakeInput
      else if mr_ValidatorSrcAddr msg = [] then Inl ErrStakeInput
      else if mr_ValidatorDstAddr msg = [] then Inl ErrStakeInput
      else if bad_shares (mr_SharesAmount msg) then Inl ErrStakeDelegation
      else Inr ())"

definition MsgBeginUnbonding_ValidateBasic :: "MsgBeginUnbonding \<Rightarrow> sdk_error + unit" where
  "MsgBeginUnbonding_ValidateBasic msg =
     (if mu_DelegatorAddr msg = [] then Inl ErrStakeInput
      else if mu_ValidatorAddr msg = [] then Inl ErrStakeInput
      else if bad_shares (mu_SharesAmount msg) then Inl ErrStakeDelegation
      else Inr ())"

definition MsgCreateValidator_GetSigners :: "MsgCreateValidator \<Rightarrow> AccAddress list" where
  "MsgCreateValidator_GetSigners msg =
     cv_DelegatorAddr msg # (if cv_DelegatorAddr msg \<noteq> cv_ValidatorAddr msg then [cv_ValidatorAddr msg] else [])"

text \<open>The methods of the interface \<open>sdk.Msg\<close>, dispatched on the message.\<close>

fun stake_ValidateBasic :: "stake_msg \<Rightarrow> sdk_error + unit" where
  "stake_ValidateBasic (CreateValidator m) = MsgCreateValidator_ValidateBasic m"
| "stake_ValidateBasic (EditValidator m) = MsgEditValidator_ValidateBasic m"
| "stake_ValidateBasic (DelegateMsg m) = MsgDelegate_ValidateBasic m"
| "stake_ValidateBasic (BeginRedelegate m) = MsgBeginRedelegate_ValidateBasic m"
| "stake_ValidateBasic (BeginUnbond m) = MsgBeginUnbonding_ValidateBasic m"

fun stake_GetSigners :: "stake_msg \<Rightarrow> AccAddress list" where
  "stake_GetSigners (CreateValidator m) = MsgCreateValidator_GetSigners m"
| "stake_GetSigners (EditValidator m) = [ev_ValidatorAddr m]"
| "stake_GetSigners (DelegateMsg m) = [md_DelegatorAddr m]"
| "stake_GetSigners (BeginRedelegate m) = [mr_DelegatorAddr m]"
| "stake_GetSigners (BeginUnbond m) = [mu_DelegatorAddr m]"

end
