(* ===== verification/Stake.thy ===== *)
theory Stake
  imports Stake_Types "HOL-Library.Product_Lexorder"
begin

text \<open>
  Component: \<open>src/app/v1/stake/keeper\<close>, \<open>handler.go\<close> and \<open>abci.go\<close>: the validator, delegation,
  unbonding and redelegation stores with their indexes and queues, bonding and unbonding of
  validators, slashing, the message handler and the end blocker.

  \<open>stake_state\<close> adds the staking store to the account store: typed maps in place of key prefixes,
  keyed by the addresses that make up the store key (addresses are \<open>AddrLen\<close> bytes, which the key
  functions rely on). Indexes that store no value are finite sets. Queue keys are times; they are
  visited in increasing order. The hooks are the interface \<open>sdk.StakingHooks\<close>: an argument \<open>H\<close>
  of every operation that calls one, \<open>None\<close> when no hooks are set; a hook returns nothing, so it
  is a function on states that may panic. Logs, tags and metrics are left out.
\<close>

section \<open>State\<close>

definition AddrLen :: nat where
  "AddrLen = 20"

record block_ctx =
  ctx_Height :: int
  ctx_Time :: go_time
  ctx_Trigger :: string
  ctx_PubKeyTypes :: "string list option"

record stake_state = auth_state +
  stakePool :: "Pool option"
  lastTotalPower :: "int option"
  lastValidatorPowers :: "(ValAddress, int) fmap"
  validators :: "(ValAddress, Validator) fmap"
  validatorsByConsAddr :: "(ConsAddress, ValAddress) fmap"
  validatorsByPower :: "(bytes, ValAddress) fmap"
  delegations :: "(AccAddress \<times> ValAddress, Delegation) fmap"
  unbondings :: "(AccAddress \<times> ValAddress, UnbondingDelegation) fmap"
  unbondingsByVal :: "(ValAddress \<times> AccAddress) fset"
  redelegations :: "(AccAddress \<times> ValAddress \<times> ValAddress, Redelegation) fmap"
  redelegationsBySrc :: "(ValAddress \<times> AccAddress \<times> ValAddress) fset"
  redelegationsByDst :: "(ValAddress \<times> AccAddress \<times> ValAddress) fset"
  unbondingQueue :: "(go_time, (AccAddress \<times> ValAddress) list) fmap"
  redelegationQueue :: "(go_time, (AccAddress \<times> ValAddress \<times> ValAddress) list) fmap"
  validatorQueue :: "(go_time, ValAddress list) fmap"
  stakeParams :: StakeParams

section \<open>Hooks\<close>

record 's StakingHooks =
  h_ValidatorCreated :: "ValAddress \<Rightarrow> 's \<Rightarrow> 's option"
  h_ValidatorModified :: "ValAddress \<Rightarrow> 's \<Rightarrow> 's option"
  h_ValidatorRemoved :: "ConsAddress \<Rightarrow> ValAddress \<Rightarrow> 's \<Rightarrow> 's option"
  h_ValidatorBonded :: "ConsAddress \<Rightarrow> ValAddress \<Rightarrow> 's \<Rightarrow> 's option"
  h_ValidatorPowerDidChange :: "ConsAddress \<Rightarrow> ValAddress \<Rightarrow> 's \<Rightarrow> 's option"
  h_ValidatorBeginUnbonding :: "ConsAddress \<Rightarrow> ValAddress \<Rightarrow> 's \<Rightarrow> 's option"
  h_DelegationCreated :: "AccAddress \<Rightarrow> ValAddress \<Rightarrow> 's \<Rightarrow> 's option"
  h_DelegationSharesModified :: "AccAddress \<Rightarrow> ValAddress \<Rightarrow> 's \<Rightarrow> 's option"
  h_DelegationRemoved :: "AccAddress \<Rightarrow> ValAddress \<Rightarrow> 's \<Rightarrow> 's option"

definition call_hook :: "('s \<Rightarrow> 's option) \<Rightarrow> ('s, unit) op" where
  "call_hook h s = (case h s of None \<Rightarrow> Panic | Some t \<Rightarrow> Ok () t)"

definition OnValidatorCreated :: "'s StakingHooks option \<Rightarrow> ValAddress \<Rightarrow> ('s, unit) op" where
  "OnValidatorCreated H valAddr = (case H of None \<Rightarrow> ret () | Some h \<Rightarrow> call_hook (h_ValidatorCreated h valAddr))"

definition OnValidatorModified :: "'s StakingHooks option \<Rightarrow> ValAddress \<Rightarrow> ('s, unit) op" where
  "OnValidatorModified H valAddr = (case H of None \<Rightarrow> ret () | Some h \<Rightarrow> call_hook (h_ValidatorModified h valAddr))"

definition OnValidatorRemoved :: "'s StakingHooks option \<Rightarrow> ConsAddress \<Rightarrow> ValAddress \<Rightarrow> ('s, unit) op" where
  "OnValidatorRemoved H consAddr valAddr =
     (case H of None \<Rightarrow> ret () | Some h \<Rightarrow> call_hook (h_ValidatorRemoved h consAddr valAddr))"

definition OnValidatorBonded :: "'s StakingHooks option \<Rightarrow> ConsAddress \<Rightarrow> ValAddress \<Rightarrow> ('s, unit) op" where
  "OnValidatorBonded H consAddr valAddr =
     (case H of None \<Rightarrow> ret () | Some h \<Rightarrow> call_hook (h_ValidatorBonded h consAddr valAddr))"

definition OnValidatorPowerDidChange :: "'s StakingHooks option \<Rightarrow> ConsAddress \<Rightarrow> ValAddress \<Rightarrow> ('s, unit) op" where
  "OnValidatorPowerDidChange H consAddr valAddr =
     (case H of None \<Rightarrow> ret () | Some h \<Rightarrow> call_hook (h_ValidatorPowerDidChange h consAddr valAddr))"

definition OnValidatorBeginUnbonding :: "'s StakingHooks option \<Rightarrow> ConsAddress \<Rightarrow> ValAddress \<Rightarrow> ('s, unit) op" where
  "OnValidatorBeginUnbonding H consAddr valAddr =
     (case H of None \<Rightarrow> ret () | Some h \<Rightarrow> call_hook (h_ValidatorBeginUnbonding h consAddr valAddr))"

definition OnDelegationCreated :: "'s StakingHooks option \<Rightarrow> AccAddress \<Rightarrow> ValAddress \<Rightarrow> ('s, unit) op" where
  "OnDelegationCreated H delAddr valAddr =
     (case H of None \<Rightarrow> ret () | Some h \<Rightarrow> call_hook (h_DelegationCreated h delAddr valAddr))"

definition OnDelegationSharesModified :: "'s StakingHooks option \<Rightarrow> AccAddress \<Rightarrow> ValAddress \<Rightarrow> ('s, unit) op" where
  "OnDelegationSharesModified H delAddr valAddr =
     (case H of None \<Rightarrow> ret () | Some h \<Rightarrow> call_hook (h_DelegationSharesModified h delAddr valAddr))"

definition OnDelegationRemoved :: "'s StakingHooks option \<Rightarrow> AccAddress \<Rightarrow> ValAddress \<Rightarrow> ('s, unit) op" where
  "OnDelegationRemoved H delAddr valAddr =
     (case H of None \<Rightarrow> ret () | Some h \<Rightarrow> call_hook (h_DelegationRemoved h delAddr valAddr))"

section \<open>Pool and powers\<close>

definition GetPool :: "('z stake_state_scheme, Pool) op" where
  "GetPool = bind_op (gets stakePool) lift_go"

definition SetPool :: "Pool \<Rightarrow> ('z stake_state_scheme, unit) op" where
  "SetPool pool = modify (\<lambda>s. s\<lparr>stakePool := Some pool\<rparr>)"

definition SetLastTotalPower :: "int \<Rightarrow> ('z stake_state_scheme, unit) op" where
  "SetLastTotalPower pow = modify (\<lambda>s. s\<lparr>lastTotalPower := Some pow\<rparr>)"

definition SetLastValidatorPower :: "ValAddress \<Rightarrow> int \<Rightarrow> ('z stake_state_scheme, unit) op" where
  "SetLastValidatorPower operator pow =
     modify (\<lambda>s. s\<lparr>lastValidatorPowers := fmupd operator pow (lastValidatorPowers s)\<rparr>)"

definition DeleteLastValidatorPower :: "ValAddress \<Rightarrow> ('z stake_state_scheme, unit) op" where
  "DeleteLastValidatorPower operator =
     modify (\<lambda>s. s\<lparr>lastValidatorPowers := fmdrop operator (lastValidatorPowers s)\<rparr>)"

text \<open>The key of the power index: the rounded power in big-endian order and the inverted operator
  address, copied into a key of fixed length.\<close>

definition invert_bytes :: "bytes \<Rightarrow> bytes" where
  "invert_bytes bz = map (\<lambda>b. char_of (255 - of_char b :: int)) bz"

definition getValidatorPowerRank :: "Validator \<Rightarrow> bytes option" where
  "getValidatorPowerRank validator =
     do {
       potentialPower \<leftarrow> GetPotentialPower validator;
       tendermintPower \<leftarrow> Dec_RoundInt64 potentialPower;
       Some (CHR 0x23 # Uint64ToBigEndian (word_of_int tendermintPower) @
         take AddrLen (invert_bytes (v_OperatorAddr validator) @ replicate AddrLen (CHR 0x00)))
     }"

section \<open>Validators\<close>

definition GetValidator :: "ValAddress \<Rightarrow> 'z stake_state_scheme \<Rightarrow> Validator option" where
  "GetValidator addr s = fmlookup (validators s) addr"

definition mustGetValidator :: "ValAddress \<Rightarrow> ('z stake_state_scheme, Validator) op" where
  "mustGetValidator addr = bind_op (gets (GetValidator addr)) lift_go"

definition GetValidatorByConsAddr :: "ConsAddress \<Rightarrow> 'z stake_state_scheme \<Rightarrow> Validator option" where
  "GetValidatorByConsAddr consAddr s =
     (case fmlookup (validatorsByConsAddr s) consAddr of None \<Rightarrow> None | Some opAddr \<Rightarrow> GetValidator opAddr s)"

definition mustGetValidatorByConsAddr :: "ConsAddress \<Rightarrow> ('z stake_state_scheme, Validator) op" where
  "mustGetValidatorByConsAddr consAddr = bind_op (gets (GetValidatorByConsAddr consAddr)) lift_go"

definition SetValidator :: "Validator \<Rightarrow> ('z stake_state_scheme, unit) op" where
  "SetValidator validator =
     modify (\<lambda>s. s\<lparr>validators := fmupd (v_OperatorAddr validator) validator (validators s)\<rparr>)"

definition SetValidatorByConsAddr :: "'e stake_externals_scheme \<Rightarrow> Validator \<Rightarrow> ('z stake_state_scheme, unit) op" where
  "SetValidatorByConsAddr E validator =
     modify (\<lambda>s. s\<lparr>validatorsByConsAddr := fmupd (ConsAddr E validator) (v_OperatorAddr validator) (validatorsByConsAddr s)\<rparr>)"

definition SetValidatorByPowerIndex :: "Validator \<Rightarrow> ('z stake_state_scheme, unit) op" where
  "SetValidatorByPowerIndex validator =
     (if v_Jailed validator then ret ()
      else bind_op (lift_go (getValidatorPowerRank validator)) (\<lambda>key.
        modify (\<lambda>s. s\<lparr>validatorsByPower := fmupd key (v_OperatorAddr validator) (validatorsByPower s)\<rparr>)))"

definition DeleteValidatorByPowerIndex :: "Validator \<Rightarrow> ('z stake_state_scheme, unit) op" where
  "DeleteValidatorByPowerIndex validator =
     bind_op (lift_go (getValidatorPowerRank validator)) (\<lambda>key.
     modify (\<lambda>s. s\<lparr>validatorsByPower := fmdrop key (validatorsByPower s)\<rparr>))"

definition SetNewValidatorByPowerIndex :: "Validator \<Rightarrow> ('z stake_state_scheme, unit) op" where
  "SetNewValidatorByPowerIndex validator =
     bind_op GetPool (\<lambda>_.
     bind_op (lift_go (getValidatorPowerRank validator)) (\<lambda>key.
     modify (\<lambda>s. s\<lparr>validatorsByPower := fmupd key (v_OperatorAddr validator) (validatorsByPower s)\<rparr>)))"

definition AddValidatorTokensAndShares :: "Validator \<Rightarrow> int \<Rightarrow> ('z stake_state_scheme, Validator \<times> Dec) op" where
  "AddValidatorTokensAndShares validator tokensToAdd =
     bind_op GetPool (\<lambda>pool.
     bind_op (DeleteValidatorByPowerIndex validator) (\<lambda>_.
     bind_op (AddTokensFromDel validator pool tokensToAdd) (\<lambda>(validator, pool, addedShares).
     bind_op (SetValidator validator) (\<lambda>_.
     bind_op (SetPool pool) (\<lambda>_.
     bind_op (SetValidatorByPowerIndex validator) (\<lambda>_.
     ret (validator, addedShares)))))))"

definition RemoveValidatorTokensAndShares :: "Validator \<Rightarrow> Dec \<Rightarrow> ('z stake_state_scheme, Validator \<times> Dec) op" where
  "RemoveValidatorTokensAndShares validator sharesToRemove =
     bind_op GetPool (\<lambda>pool.
     bind_op (DeleteValidatorByPowerIndex validator) (\<lambda>_.
     bind_op (RemoveDelShares validator pool sharesToRemove) (\<lambda>(validator, pool, removedTokens).
     bind_op (SetValidator validator) (\<lambda>_.
     bind_op (SetPool pool) (\<lambda>_.
     bind_op (SetValidatorByPowerIndex validator) (\<lambda>_.
     ret (validator, removedTokens)))))))"

definition RemoveValidatorTokens :: "Validator \<Rightarrow> Dec \<Rightarrow> ('z stake_state_scheme, Validator) op" where
  "RemoveValidatorTokens validator tokensToRemove =
     bind_op GetPool (\<lambda>pool.
     bind_op (DeleteValidatorByPowerIndex validator) (\<lambda>_.
     bind_op (RemoveTokens validator pool tokensToRemove) (\<lambda>(validator, pool).
     bind_op (SetValidator validator) (\<lambda>_.
     bind_op (SetPool pool) (\<lambda>_.
     bind_op (SetValidatorByPowerIndex validator) (\<lambda>_.
     ret validator))))))"

definition UpdateValidatorCommission :: "block_ctx \<Rightarrow> Validator \<Rightarrow> Dec \<Rightarrow> (sdk_error + Commission) option" where
  "UpdateValidatorCommission C validator newRate =
     do {
       r \<leftarrow> ValidateNewRate (v_Commission validator) newRate (ctx_Time C);
       Some (case r of Inl e \<Rightarrow> Inl e
         | Inr _ \<Rightarrow> Inr ((v_Commission validator)\<lparr>com_Rate := newRate, com_UpdateTime := ctx_Time C\<rparr>))
     }"

definition RemoveValidator ::
  "'e stake_externals_scheme \<Rightarrow> 'z stake_state_scheme StakingHooks option \<Rightarrow> ValAddress \<Rightarrow> ('z stake_state_scheme, unit) op" where
  "RemoveValidator E H address =
     bind_op (gets (GetValidator address)) (\<lambda>found. case found of
       None \<Rightarrow> ret ()
     | Some validator \<Rightarrow>
         if v_Status validator \<noteq> Unbonded then panic
         else
           bind_op GetPool (\<lambda>_.
           bind_op (modify (\<lambda>s. s\<lparr>validators := fmdrop address (validators s),
             validatorsByConsAddr := fmdrop (ConsAddr E validator) (validatorsByConsAddr s)\<rparr>)) (\<lambda>_.
           bind_op (DeleteValidatorByPowerIndex validator) (\<lambda>_.
           OnValidatorRemoved H (ConsAddr E validator) (v_OperatorAddr validator)))))"

section \<open>The validator queue\<close>

definition InsertValidatorQueue :: "Validator \<Rightarrow> ('z stake_state_scheme, unit) op" where
  "InsertValidatorQueue val =
     modify (\<lambda>s. s\<lparr>validatorQueue :=
       fmupd (v_UnbondingMinTime val) (fm_get [] (validatorQueue s) (v_UnbondingMinTime val) @ [v_OperatorAddr val]) (validatorQueue s)\<rparr>)"

definition DeleteValidatorQueue :: "Validator \<Rightarrow> ('z stake_state_scheme, unit) op" where
  "DeleteValidatorQueue val =
     bind_op (gets (\<lambda>s. fm_get [] (validatorQueue s) (v_UnbondingMinTime val))) (\<lambda>timeSlice.
     let newTimeSlice = filter (\<lambda>addr. addr \<noteq> v_OperatorAddr val) timeSlice in
     if newTimeSlice = [] then modify (\<lambda>s. s\<lparr>validatorQueue := fmdrop (v_UnbondingMinTime val) (validatorQueue s)\<rparr>)
     else modify (\<lambda>s. s\<lparr>validatorQueue := fmupd (v_UnbondingMinTime val) newTimeSlice (validatorQueue s)\<rparr>))"

section \<open>Validator state changes\<close>

definition jailValidator :: "Validator \<Rightarrow> ('z stake_state_scheme, unit) op" where
  "jailValidator validator =
     (if v_Jailed validator then panic
      else
        bind_op GetPool (\<lambda>_.
        let validator = validator\<lparr>v_Jailed := True\<rparr> in
        bind_op (SetValidator validator) (\<lambda>_.
        DeleteValidatorByPowerIndex validator)))"

definition unjailValidator :: "Validator \<Rightarrow> ('z stake_state_scheme, unit) op" where
  "unjailValidator validator =
     (if \<not> v_Jailed validator then panic
      else
        bind_op GetPool (\<lambda>_.
        let validator = validator\<lparr>v_Jailed := False\<rparr> in
        bind_op (SetValidator validator) (\<lambda>_.
        SetValidatorByPowerIndex validator)))"

definition bondValidator ::
  "'e stake_externals_scheme \<Rightarrow> block_ctx \<Rightarrow> 'z stake_state_scheme StakingHooks option \<Rightarrow> Validator \<Rightarrow>
   ('z stake_state_scheme, Validator) op" where
  "bondValidator E C H validator =
     bind_op GetPool (\<lambda>pool.
     bind_op (DeleteValidatorByPowerIndex validator) (\<lambda>_.
     bind_op (UpdateStatus (validator\<lparr>v_BondHeight := ctx_Height C\<rparr>) pool Bonded) (\<lambda>(validator, pool).
     bind_op (SetPool pool) (\<lambda>_.
     bind_op (SetValidator validator) (\<lambda>_.
     bind_op (SetValidatorByPowerIndex validator) (\<lambda>_.
     bind_op (DeleteValidatorQueue validator) (\<lambda>_.
     bind_op (OnValidatorBonded H (ConsAddr E validator) (v_OperatorAddr validator)) (\<lambda>_.
     ret validator))))))))"

definition beginUnbondingValidator ::
  "'e stake_externals_scheme \<Rightarrow> block_ctx \<Rightarrow> 'z stake_state_scheme StakingHooks option \<Rightarrow> Validator \<Rightarrow>
   ('z stake_state_scheme, Validator) op" where
  "beginUnbondingValidator E C H validator =
     bind_op GetPool (\<lambda>pool.
     bind_op (gets stakeParams) (\<lambda>params.
     bind_op (DeleteValidatorByPowerIndex validator) (\<lambda>_.
     if v_Status validator \<noteq> Bonded then panic
     else
       bind_op (UpdateStatus validator pool Unbonding) (\<lambda>(validator, pool).
       bind_op (SetPool pool) (\<lambda>_.
       let validator = validator\<lparr>v_UnbondingMinTime := ctx_Time C + UnbondingTime params, v_UnbondingHeight := ctx_Height C\<rparr> in
       bind_op (SetValidator validator) (\<lambda>_.
       bind_op (SetValidatorByPowerIndex validator) (\<lambda>_.
       bind_op (InsertValidatorQueue validator) (\<lambda>_.
       bind_op (OnValidatorBeginUnbonding H (ConsAddr E validator) (v_OperatorAddr validator)) (\<lambda>_.
       ret validator)))))))))"

definition completeUnbondingValidator :: "Validator \<Rightarrow> ('z stake_state_scheme, Validator) op" where
  "completeUnbondingValidator validator =
     bind_op GetPool (\<lambda>pool.
     bind_op (UpdateStatus validator pool Unbonded) (\<lambda>(validator, pool).
     bind_op (SetPool pool) (\<lambda>_.
     bind_op (SetValidator validator) (\<lambda>_.
     ret validator))))"

definition bondedToUnbonding ::
  "'e stake_externals_scheme \<Rightarrow> block_ctx \<Rightarrow> 'z stake_state_scheme StakingHooks option \<Rightarrow> Validator \<Rightarrow>
   ('z stake_state_scheme, Validator) op" where
  "bondedToUnbonding E C H validator =
     (if v_Status validator \<noteq> Bonded then panic else beginUnbondingValidator E C H validator)"

definition unbondingToBonded ::
  "'e stake_externals_scheme \<Rightarrow> block_ctx \<Rightarrow> 'z stake_state_scheme StakingHooks option \<Rightarrow> Validator \<Rightarrow>
   ('z stake_state_scheme, Validator) op" where
  "unbondingToBonded E C H validator =
     (if v_Status validator \<noteq> Unbonding then panic else bondValidator E C H validator)"

definition unbondedToBonded ::
  "'e stake_externals_scheme \<Rightarrow> block_ctx \<Rightarrow> 'z stake_state_scheme StakingHooks option \<Rightarrow> Validator \<Rightarrow>
   ('z stake_state_scheme, Validator) op" where
  "unbondedToBonded E C H validator =
     (if v_Status validator \<noteq> Unbonded then panic else bondValidator E C H validator)"

definition unbondingToUnbonded :: "Validator \<Rightarrow> ('z stake_state_scheme, Validator) op" where
  "unbondingToUnbonded validator =
     (if v_Status validator \<noteq> Unbonding then panic else completeUnbondingValidator validator)"

section \<open>Updates of the validator set\<close>

definition bond_if_needed ::
  "'e stake_externals_scheme \<Rightarrow> block_ctx \<Rightarrow> 'z stake_state_scheme StakingHooks option \<Rightarrow> Validator \<Rightarrow>
   ('z stake_state_scheme, Validator) op" where
  "bond_if_needed E C H validator =
     (case v_Status validator of
        Unbonded \<Rightarrow> unbondedToBonded E C H validator
      | Unbonding \<Rightarrow> unbondingToBonded E C H validator
      | Bonded \<Rightarrow> ret validator)"

definition record_power ::
  "'e stake_externals_scheme \<Rightarrow> 'z stake_state_scheme StakingHooks option \<Rightarrow> (ValAddress, int) fmap \<Rightarrow> ValAddress \<Rightarrow> Validator \<Rightarrow>
   int \<Rightarrow> (PubKey \<times> int) list \<Rightarrow> ('z stake_state_scheme, (PubKey \<times> int) list) op" where
  "record_power E H lastVals valAddr validator newPower updates =
     (if fmlookup lastVals valAddr \<noteq> Some newPower
      then
        bind_op (OnValidatorPowerDidChange H (ConsAddr E validator) valAddr) (\<lambda>_.
        bind_op (SetLastValidatorPower valAddr newPower) (\<lambda>_.
        ret (updates @ [(v_ConsPubKey validator, newPower)])))
      else ret updates)"

text \<open>The loop over the power index, highest power first. \<open>n\<close> is how many more validators may
  be bonded; \<open>lastVals\<close> holds the validators of the last set that were not met yet.\<close>

fun apply_updates ::
  "'e stake_externals_scheme \<Rightarrow> block_ctx \<Rightarrow> 'z stake_state_scheme StakingHooks option \<Rightarrow> nat \<Rightarrow> ValAddress list \<Rightarrow>
   (ValAddress, int) fmap \<Rightarrow> int \<Rightarrow> (PubKey \<times> int) list \<Rightarrow>
   ('z stake_state_scheme, (ValAddress, int) fmap \<times> int \<times> (PubKey \<times> int) list) op" where
  "apply_updates E C H 0 addrs lastVals totalPower updates = ret (lastVals, totalPower, updates)"
| "apply_updates E C H (Suc n) [] lastVals totalPower updates = ret (lastVals, totalPower, updates)"
| "apply_updates E C H (Suc n) (valAddr # addrs) lastVals totalPower updates =
     bind_op (mustGetValidator valAddr) (\<lambda>validator.
     if v_Jailed validator then panic
     else
       bind_op (lift_go (do { pow \<leftarrow> GetPotentialPower validator; Dec_RoundInt64 pow })) (\<lambda>potentialPower.
       if potentialPower = 0 then ret (lastVals, totalPower, updates)
       else
         bind_op (bond_if_needed E C H validator) (\<lambda>validator.
         bind_op (lift_go (do { pow \<leftarrow> GetPower validator; Dec_RoundInt64 pow })) (\<lambda>newPower.
         bind_op (record_power E H lastVals valAddr validator newPower updates) (\<lambda>updates.
         bind_op (lift_go (Int_Add totalPower newPower)) (\<lambda>totalPower.
         apply_updates E C H n addrs (fmdrop valAddr lastVals) totalPower updates))))))"

definition unbond_dropped ::
  "'e stake_externals_scheme \<Rightarrow> block_ctx \<Rightarrow> 'z stake_state_scheme StakingHooks option \<Rightarrow> ValAddress \<Rightarrow>
   ('z stake_state_scheme, PubKey) op" where
  "unbond_dropped E C H valAddr =
     bind_op (mustGetValidator valAddr) (\<lambda>validator.
     bind_op (bondedToUnbonding E C H validator) (\<lambda>_.
     bind_op (DeleteLastValidatorPower valAddr) (\<lambda>_.
     ret (v_ConsPubKey validator))))"

fun unbond_all_dropped ::
  "'e stake_externals_scheme \<Rightarrow> block_ctx \<Rightarrow> 'z stake_state_scheme StakingHooks option \<Rightarrow> ValAddress list \<Rightarrow>
   ('z stake_state_scheme, (PubKey \<times> int) list) op" where
  "unbond_all_dropped E C H [] = ret []"
| "unbond_all_dropped E C H (valAddr # addrs) =
     bind_op (unbond_dropped E C H valAddr) (\<lambda>pubKey.
     bind_op (unbond_all_dropped E C H addrs) (\<lambda>updates.
     ret ((pubKey, 0) # updates)))"

definition ApplyAndReturnValidatorSetUpdates ::
  "'e stake_externals_scheme \<Rightarrow> block_ctx \<Rightarrow> 'z stake_state_scheme StakingHooks option \<Rightarrow>
   ('z stake_state_scheme, (PubKey \<times> int) list) op" where
  "ApplyAndReturnValidatorSetUpdates E C H =
     bind_op (gets (\<lambda>s. MaxValidators (stakeParams s))) (\<lambda>maxValidators.
     bind_op (gets lastValidatorPowers) (\<lambda>lastVals.
     bind_op (gets (\<lambda>s. map snd (rev (sorted_list_of_fmap (validatorsByPower s))))) (\<lambda>addrs.
     bind_op (apply_updates E C H maxValidators addrs lastVals 0 []) (\<lambda>(lastVals, totalPower, updates).
     bind_op (unbond_all_dropped E C H (sorted_list_of_fset (fmdom lastVals))) (\<lambda>dropped.
     let updates = updates @ dropped in
     bind_op (if updates \<noteq> [] then SetLastTotalPower totalPower else ret ()) (\<lambda>_.
     ret updates))))))"

definition unbond_mature ::
  "'e stake_externals_scheme \<Rightarrow> 'z stake_state_scheme StakingHooks option \<Rightarrow> ValAddress \<Rightarrow> ('z stake_state_scheme, unit) op" where
  "unbond_mature E H valAddr =
     bind_op (gets (GetValidator valAddr)) (\<lambda>found. case found of
       None \<Rightarrow> ret ()
     | Some val \<Rightarrow>
         if v_Status val \<noteq> Unbonding then panic
         else
           bind_op (unbondingToUnbonded val) (\<lambda>_.
           if v_DelegatorShares val = 0 then RemoveValidator E H (v_OperatorAddr val) else ret ()))"

definition UnbondAllMatureValidatorQueue ::
  "'e stake_externals_scheme \<Rightarrow> block_ctx \<Rightarrow> 'z stake_state_scheme StakingHooks option \<Rightarrow> ('z stake_state_scheme, unit) op" where
  "UnbondAllMatureValidatorQueue E C H =
     bind_op (gets (\<lambda>s. filter (\<lambda>(t, _). t \<le> ctx_Time C) (sorted_list_of_fmap (validatorQueue s)))) (\<lambda>slices.
     for_each slices (\<lambda>(t, timeslice).
       bind_op (for_each timeslice (unbond_mature E H)) (\<lambda>_.
       modify (\<lambda>s. s\<lparr>validatorQueue := fmdrop t (validatorQueue s)\<rparr>))))"

section \<open>Delegations\<close>

definition GetDelegation :: "AccAddress \<Rightarrow> ValAddress \<Rightarrow> 'z stake_state_scheme \<Rightarrow> Delegation option" where
  "GetDelegation delAddr valAddr s = fmlookup (delegations s) (delAddr, valAddr)"

definition GetValidatorDelegations :: "ValAddress \<Rightarrow> 'z stake_state_scheme \<Rightarrow> Delegation list" where
  "GetValidatorDelegations valAddr s =
     filter (\<lambda>d. d_ValidatorAddr d = valAddr) (map snd (sorted_list_of_fmap (delegations s)))"

definition SetDelegation :: "Delegation \<Rightarrow> ('z stake_state_scheme, unit) op" where
  "SetDelegation delegation =
     modify (\<lambda>s. s\<lparr>delegations := fmupd (d_DelegatorAddr delegation, d_ValidatorAddr delegation) delegation (delegations s)\<rparr>)"

definition RemoveDelegation :: "'z stake_state_scheme StakingHooks option \<Rightarrow> Delegation \<Rightarrow> ('z stake_state_scheme, unit) op" where
  "RemoveDelegation H delegation =
     bind_op (OnDelegationRemoved H (d_DelegatorAddr delegation) (d_ValidatorAddr delegation)) (\<lambda>_.
     modify (\<lambda>s. s\<lparr>delegations := fmdrop (d_DelegatorAddr delegation, d_ValidatorAddr delegation) (delegations s)\<rparr>))"

definition GetUnbondingDelegation :: "AccAddress \<Rightarrow> ValAddress \<Rightarrow> 'z stake_state_scheme \<Rightarrow> UnbondingDelegation option" where
  "GetUnbondingDelegation delAddr valAddr s = fmlookup (unbondings s) (delAddr, valAddr)"

definition GetUnbondingDelegationsFromValidator :: "ValAddress \<Rightarrow> 'z stake_state_scheme \<Rightarrow> UnbondingDelegation list option" where
  "GetUnbondingDelegationsFromValidator valAddr s =
     those (map (\<lambda>(val, del). fmlookup (unbondings s) (del, val))
       (filter (\<lambda>(val, _). val = valAddr) (sorted_list_of_fset (unbondingsByVal s))))"

definition SetUnbondingDelegation :: "UnbondingDelegation \<Rightarrow> ('z stake_state_scheme, unit) op" where
  "SetUnbondingDelegation ubd =
     modify (\<lambda>s. s\<lparr>
       unbondings := fmupd (ubd_DelegatorAddr ubd, ubd_ValidatorAddr ubd) ubd (unbondings s),
       unbondingsByVal := finsert (ubd_ValidatorAddr ubd, ubd_DelegatorAddr ubd) (unbondingsByVal s)\<rparr>)"

definition RemoveUnbondingDelegation :: "UnbondingDelegation \<Rightarrow> ('z stake_state_scheme, unit) op" where
  "RemoveUnbondingDelegation ubd =
     modify (\<lambda>s. s\<lparr>
       unbondings := fmdrop (ubd_DelegatorAddr ubd, ubd_ValidatorAddr ubd) (unbondings s),
       unbondingsByVal := unbondingsByVal s |-| {|(ubd_ValidatorAddr ubd, ubd_DelegatorAddr ubd)|}\<rparr>)"

definition InsertUnbondingQueue :: "UnbondingDelegation \<Rightarrow> ('z stake_state_scheme, unit) op" where
  "InsertUnbondingQueue ubd =
     modify (\<lambda>s. s\<lparr>unbondingQueue := fmupd (ubd_MinTime ubd)
       (fm_get [] (unbondingQueue s) (ubd_MinTime ubd) @ [(ubd_DelegatorAddr ubd, ubd_ValidatorAddr ubd)]) (unbondingQueue s)\<rparr>)"

definition DequeueAllMatureUnbondingQueue :: "block_ctx \<Rightarrow> ('z stake_state_scheme, (AccAddress \<times> ValAddress) list) op" where
  "DequeueAllMatureUnbondingQueue C =
     bind_op (gets (\<lambda>s. filter (\<lambda>(t, _). t \<le> ctx_Time C) (sorted_list_of_fmap (unbondingQueue s)))) (\<lambda>slices.
     bind_op (for_each slices (\<lambda>(t, _). modify (\<lambda>s. s\<lparr>unbondingQueue := fmdrop t (unbondingQueue s)\<rparr>))) (\<lambda>_.
     ret (concat (map snd slices))))"

definition GetRedelegation :: "AccAddress \<Rightarrow> ValAddress \<Rightarrow> ValAddress \<Rightarrow> 'z stake_state_scheme \<Rightarrow> Redelegation option" where
  "GetRedelegation delAddr valSrcAddr valDstAddr s = fmlookup (redelegations s) (delAddr, valSrcAddr, valDstAddr)"

definition GetRedelegationsFromValidator :: "ValAddress \<Rightarrow> 'z stake_state_scheme \<Rightarrow> Redelegation list option" where
  "GetRedelegationsFromValidator valAddr s =
     those (map (\<lambda>(src, del, dst). fmlookup (redelegations s) (del, src, dst))
       (filter (\<lambda>(src, _). src = valAddr) (sorted_list_of_fset (redelegationsBySrc s))))"

definition HasReceivingRedelegation :: "AccAddress \<Rightarrow> ValAddress \<Rightarrow> 'z stake_state_scheme \<Rightarrow> bool" where
  "HasReceivingRedelegation delAddr valDstAddr s =
     fBex (redelegationsByDst s) (\<lambda>(dst, del, _). dst = valDstAddr \<and> del = delAddr)"

definition SetRedelegation :: "Redelegation \<Rightarrow> ('z stake_state_scheme, unit) op" where
  "SetRedelegation red =
     modify (\<lambda>s. s\<lparr>
       redelegations := fmupd (red_DelegatorAddr red, red_ValidatorSrcAddr red, red_ValidatorDstAddr red) red (redelegations s),
       redelegationsBySrc := finsert (red_ValidatorSrcAddr red, red_DelegatorAddr red, red_ValidatorDstAddr red) (redelegationsBySrc s),
       redelegationsByDst := finsert (red_ValidatorDstAddr red, red_DelegatorAddr red, red_ValidatorSrcAddr red) (redelegationsByDst s)\<rparr>)"

definition RemoveRedelegation :: "Redelegation \<Rightarrow> ('z stake_state_scheme, unit) op" where
  "RemoveRedelegation red =
     modify (\<lambda>s. s\<lparr>
       redelegations := fmdrop (red_DelegatorAddr red, red_ValidatorSrcAddr red, red_ValidatorDstAddr red) (redelegations s),
       redelegationsBySrc := redelegationsBySrc s |-| {|(red_ValidatorSrcAddr red, red_DelegatorAddr red, red_ValidatorDstAddr red)|},
       redelegationsByDst := redelegationsByDst s |-| {|(red_ValidatorDstAddr red, red_DelegatorAddr red, red_ValidatorSrcAddr red)|}\<rparr>)"

definition InsertRedelegationQueue :: "Redelegation \<Rightarrow> ('z stake_state_scheme, unit) op" where
  "InsertRedelegationQueue red =
     modify (\<lambda>s. s\<lparr>redelegationQueue := fmupd (red_MinTime red)
       (fm_get [] (redelegationQueue s) (red_MinTime red) @
         [(red_DelegatorAddr red, red_ValidatorSrcAddr red, red_ValidatorDstAddr red)]) (redelegationQueue s)\<rparr>)"

definition DequeueAllMatureRedelegationQueue ::
  "block_ctx \<Rightarrow> ('z stake_state_scheme, (AccAddress \<times> ValAddress \<times> ValAddress) list) op" where
  "DequeueAllMatureRedelegationQueue C =
     bind_op (gets (\<lambda>s. filter (\<lambda>(t, _). t \<le> ctx_Time C) (sorted_list_of_fmap (redelegationQueue s)))) (\<lambda>slices.
     bind_op (for_each slices (\<lambda>(t, _). modify (\<lambda>s. s\<lparr>redelegationQueue := fmdrop t (redelegationQueue s)\<rparr>))) (\<lambda>_.
     ret (concat (map snd slices))))"

definition Delegate ::
  "block_ctx \<Rightarrow> 'z stake_state_scheme StakingHooks option \<Rightarrow> AccAddress \<Rightarrow> Coin \<Rightarrow> Validator \<Rightarrow> bool \<Rightarrow>
   ('z stake_state_scheme, Dec) op" where
  "Delegate C H delAddr bondAmt validator subtractAccount =
     bind_op (lift_go (DelegatorShareExRate validator)) (\<lambda>exRate.
     if exRate = 0 then fail ErrStakeDelegation
     else
       bind_op (gets (GetDelegation delAddr (v_OperatorAddr validator))) (\<lambda>found.
       let delegation = (case found of Some d \<Rightarrow> d
         | None \<Rightarrow> \<lparr>d_DelegatorAddr = delAddr, d_ValidatorAddr = v_OperatorAddr validator, d_Shares = 0, d_Height = 0\<rparr>) in
       bind_op (if found \<noteq> None then OnDelegationSharesModified H delAddr (v_OperatorAddr validator)
         else OnDelegationCreated H delAddr (v_OperatorAddr validator)) (\<lambda>_.
       bind_op (if subtractAccount then subtractCoins (d_DelegatorAddr delegation) [bondAmt] else ret []) (\<lambda>_.
       bind_op (AddValidatorTokensAndShares validator (Amount bondAmt)) (\<lambda>(_, newShares).
       bind_op (lift_go (Dec_Add (d_Shares delegation) newShares)) (\<lambda>shares.
       bind_op (SetDelegation (delegation\<lparr>d_Shares := shares, d_Height := ctx_Height C\<rparr>)) (\<lambda>_.
       ret newShares)))))))"

text \<open>The two halves of \<open>unbond\<close>: the delegation shrinks or goes, which jails a validator that
  loses its self-delegation; a validator left without shares goes once it is unbonded.\<close>

definition shrink_delegation ::
  "block_ctx \<Rightarrow> 'z stake_state_scheme StakingHooks option \<Rightarrow> Delegation \<Rightarrow> Dec \<Rightarrow> Validator \<Rightarrow>
   ('z stake_state_scheme, Validator) op" where
  "shrink_delegation C H delegation left validator =
     (if left = 0 then
        bind_op (if d_DelegatorAddr delegation = v_OperatorAddr validator \<and> \<not> v_Jailed validator
          then bind_op (jailValidator validator) (\<lambda>_. mustGetValidator (v_OperatorAddr validator))
          else ret validator) (\<lambda>validator.
        bind_op (RemoveDelegation H (delegation\<lparr>d_Shares := left\<rparr>)) (\<lambda>_.
        ret validator))
      else
        bind_op (SetDelegation (delegation\<lparr>d_Shares := left, d_Height := ctx_Height C\<rparr>)) (\<lambda>_.
        ret validator))"

definition remove_if_empty ::
  "'e stake_externals_scheme \<Rightarrow> 'z stake_state_scheme StakingHooks option \<Rightarrow> Validator \<Rightarrow> ('z stake_state_scheme, unit) op" where
  "remove_if_empty E H validator =
     (if v_DelegatorShares validator = 0 \<and> v_Status validator = Unbonded
      then RemoveValidator E H (v_OperatorAddr validator) else ret ())"

definition unbond ::
  "'e stake_externals_scheme \<Rightarrow> block_ctx \<Rightarrow> 'z stake_state_scheme StakingHooks option \<Rightarrow> AccAddress \<Rightarrow> ValAddress \<Rightarrow> Dec \<Rightarrow>
   ('z stake_state_scheme, Dec) op" where
  "unbond E C H delAddr valAddr shares =
     bind_op (gets (GetDelegation delAddr valAddr)) (\<lambda>found. case found of
       None \<Rightarrow> fail ErrStakeDelegation
     | Some delegation \<Rightarrow>
         bind_op (OnDelegationSharesModified H delAddr valAddr) (\<lambda>_.
         if d_Shares delegation < shares then fail ErrStakeDelegation
         else
           bind_op (gets (GetValidator valAddr)) (\<lambda>found. case found of
             None \<Rightarrow> fail ErrStakeValidator
           | Some validator \<Rightarrow>
               bind_op (lift_go (Dec_Sub (d_Shares delegation) shares)) (\<lambda>left.
               bind_op (shrink_delegation C H delegation left validator) (\<lambda>validator.
               bind_op (RemoveValidatorTokensAndShares validator shares) (\<lambda>(validator, amount).
               bind_op (remove_if_empty E H validator) (\<lambda>_.
               ret amount)))))))"

definition BeginUnbonding ::
  "'e stake_externals_scheme \<Rightarrow> block_ctx \<Rightarrow> 'z stake_state_scheme StakingHooks option \<Rightarrow> AccAddress \<Rightarrow> ValAddress \<Rightarrow> Dec \<Rightarrow>
   ('z stake_state_scheme, UnbondingDelegation) op" where
  "BeginUnbonding E C H delAddr valAddr sharesAmount =
     bind_op (gets (GetUnbondingDelegation delAddr valAddr)) (\<lambda>found.
     if found \<noteq> None then fail ErrStakeDelegation
     else
       bind_op (unbond E C H delAddr valAddr sharesAmount) (\<lambda>returnAmount.
       bind_op (lift_go (do { rounded \<leftarrow> Dec_TruncateInt returnAmount; NewCoin StakeDenom rounded })) (\<lambda>balance.
       bind_op (gets (\<lambda>s. ctx_Time C + UnbondingTime (stakeParams s))) (\<lambda>completionTime.
       let ubd = \<lparr>ubd_TxHash = ctx_Trigger C, ubd_DelegatorAddr = delAddr, ubd_ValidatorAddr = valAddr,
         ubd_CreationHeight = ctx_Height C, ubd_MinTime = completionTime, ubd_InitialBalance = balance, ubd_Balance = balance\<rparr> in
       bind_op (SetUnbondingDelegation ubd) (\<lambda>_.
       bind_op (InsertUnbondingQueue ubd) (\<lambda>_.
       ret ubd))))))"

definition CompleteUnbonding ::
  "'e externals_scheme \<Rightarrow> AccAddress \<Rightarrow> ValAddress \<Rightarrow> ('z stake_state_scheme, unit) op" where
  "CompleteUnbonding E delAddr valAddr =
     bind_op (gets (GetUnbondingDelegation delAddr valAddr)) (\<lambda>found. case found of
       None \<Rightarrow> fail ErrStakeDelegation
     | Some ubd \<Rightarrow>
         bind_op (addCoins E (ubd_DelegatorAddr ubd) [ubd_Balance ubd]) (\<lambda>_.
         RemoveUnbondingDelegation ubd))"

definition BeginRedelegation ::
  "'e stake_externals_scheme \<Rightarrow> block_ctx \<Rightarrow> 'z stake_state_scheme StakingHooks option \<Rightarrow> AccAddress \<Rightarrow> ValAddress \<Rightarrow>
   ValAddress \<Rightarrow> Dec \<Rightarrow> ('z stake_state_scheme, Redelegation) op" where
  "BeginRedelegation E C H delAddr valSrcAddr valDstAddr sharesAmount =
     (if valSrcAddr = valDstAddr then fail ErrStakeDelegation
      else
        bind_op (gets (GetRedelegation delAddr valSrcAddr valDstAddr)) (\<lambda>found.
        if found \<noteq> None then fail ErrStakeDelegation
        else
          bind_op (gets (HasReceivingRedelegation delAddr valSrcAddr)) (\<lambda>receiving.
          if receiving then fail ErrStakeDelegation
          else
            bind_op (unbond E C H delAddr valSrcAddr sharesAmount) (\<lambda>returnAmount.
            bind_op (lift_go (do { rounded \<leftarrow> Dec_TruncateInt returnAmount; NewCoin StakeDenom rounded })) (\<lambda>returnCoin.
            bind_op (gets (GetValidator valDstAddr)) (\<lambda>found. case found of
              None \<Rightarrow> fail ErrStakeDelegation
            | Some dstValidator \<Rightarrow>
                bind_op (Delegate C H delAddr returnCoin dstValidator False) (\<lambda>sharesCreated.
                bind_op (gets (\<lambda>s. ctx_Time C + UnbondingTime (stakeParams s))) (\<lambda>completionTime.
                let red = \<lparr>red_DelegatorAddr = delAddr, red_ValidatorSrcAddr = valSrcAddr, red_ValidatorDstAddr = valDstAddr,
                  red_CreationHeight = ctx_Height C, red_MinTime = completionTime, red_InitialBalance = returnCoin,
                  red_Balance = returnCoin, red_SharesSrc = sharesAmount, red_SharesDst = sharesCreated\<rparr> in
                bind_op (SetRedelegation red) (\<lambda>_.
                bind_op (InsertRedelegationQueue red) (\<lambda>_.
                ret red))))))))))"

definition CompleteRedelegation ::
  "block_ctx \<Rightarrow> AccAddress \<Rightarrow> ValAddress \<Rightarrow> ValAddress \<Rightarrow> ('z stake_state_scheme, unit) op" where
  "CompleteRedelegation C delAddr valSrcAddr valDstAddr =
     bind_op (gets (GetRedelegation delAddr valSrcAddr valDstAddr)) (\<lambda>found. case found of
       None \<Rightarrow> fail ErrStakeDelegation
     | Some red \<Rightarrow> if red_MinTime red > ctx_Time C then fail ErrNotMature else RemoveRedelegation red)"

section \<open>Slashing\<close>

text \<open>What the two functions do once the amount is known: the entry shrinks; the tokens of an
  unbonding delegation are burned; the shares of a redelegation are unbonded and their tokens burned.\<close>

definition reduce_unbonding :: "UnbondingDelegation \<Rightarrow> int \<Rightarrow> ('z stake_state_scheme, unit) op" where
  "reduce_unbonding ubd unbondingSlashAmount =
     (if unbondingSlashAmount \<noteq> 0 then
        bind_op (lift_go (Int_Sub (Amount (ubd_Balance ubd)) unbondingSlashAmount)) (\<lambda>left.
        bind_op (SetUnbondingDelegation (ubd\<lparr>ubd_Balance := (ubd_Balance ubd)\<lparr>Amount := left\<rparr>\<rparr>)) (\<lambda>_.
        bind_op (lift_go (NewCoin StakeDenom unbondingSlashAmount)) (\<lambda>coin.
        DecreaseTotalLoosenToken [coin])))
      else ret ())"

definition slashUnbondingDelegation ::
  "block_ctx \<Rightarrow> UnbondingDelegation \<Rightarrow> int \<Rightarrow> Dec \<Rightarrow> ('z stake_state_scheme, Dec) op" where
  "slashUnbondingDelegation C ubd infractionHeight slashFactor =
     (if ubd_CreationHeight ubd < infractionHeight then ret 0
      else if ubd_MinTime ubd < ctx_Time C then ret 0
      else
        bind_op (lift_go (Dec_MulInt slashFactor (Amount (ubd_InitialBalance ubd)))) (\<lambda>slashAmount.
        bind_op (lift_go (Dec_RoundInt slashAmount)) (\<lambda>rounded.
        bind_op (reduce_unbonding ubd (MinInt rounded (Amount (ubd_Balance ubd)))) (\<lambda>_.
        ret slashAmount))))"

definition reduce_redelegation :: "Redelegation \<Rightarrow> int \<Rightarrow> ('z stake_state_scheme, unit) op" where
  "reduce_redelegation red redelegationSlashAmount =
     (if redelegationSlashAmount \<noteq> 0 then
        bind_op (lift_go (Int_Sub (Amount (red_Balance red)) redelegationSlashAmount)) (\<lambda>left.
        SetRedelegation (red\<lparr>red_Balance := (red_Balance red)\<lparr>Amount := left\<rparr>\<rparr>))
      else ret ())"

definition burn_redelegated ::
  "'e stake_externals_scheme \<Rightarrow> block_ctx \<Rightarrow> 'z stake_state_scheme StakingHooks option \<Rightarrow> Redelegation \<Rightarrow> Dec \<Rightarrow>
   ('z stake_state_scheme, unit) op" where
  "burn_redelegated E C H red sharesToUnbond =
     (if sharesToUnbond = 0 then ret ()
      else
        bind_op (gets (GetDelegation (red_DelegatorAddr red) (red_ValidatorDstAddr red))) (\<lambda>found. case found of
          None \<Rightarrow> ret ()
        | Some delegation \<Rightarrow>
            let sharesToUnbond = (if sharesToUnbond > d_Shares delegation then d_Shares delegation else sharesToUnbond) in
            bind_op (err_panics (unbond E C H (red_DelegatorAddr red) (red_ValidatorDstAddr red) sharesToUnbond)) (\<lambda>tokensToBurn.
            bind_op (lift_go (do { burned \<leftarrow> Dec_TruncateInt tokensToBurn; NewCoin StakeDenom burned })) (\<lambda>coin.
            DecreaseTotalLoosenToken [coin]))))"

definition slashRedelegation ::
  "'e stake_externals_scheme \<Rightarrow> block_ctx \<Rightarrow> 'z stake_state_scheme StakingHooks option \<Rightarrow> Redelegation \<Rightarrow> int \<Rightarrow> Dec \<Rightarrow>
   ('z stake_state_scheme, Dec) op" where
  "slashRedelegation E C H red infractionHeight slashFactor =
     (if red_CreationHeight red < infractionHeight then ret 0
      else if red_MinTime red < ctx_Time C then ret 0
      else
        bind_op (lift_go (Dec_MulInt slashFactor (Amount (red_InitialBalance red)))) (\<lambda>slashAmount.
        bind_op (lift_go (Dec_RoundInt slashAmount)) (\<lambda>rounded.
        bind_op (reduce_redelegation red (MinInt rounded (Amount (red_Balance red)))) (\<lambda>_.
        bind_op (lift_go (Dec_Mul slashFactor (red_SharesDst red))) (\<lambda>sharesToUnbond.
        bind_op (burn_redelegated E C H red sharesToUnbond) (\<lambda>_.
        ret slashAmount))))))"

fun slash_each :: "('x \<Rightarrow> ('s, Dec) op) \<Rightarrow> 'x list \<Rightarrow> Dec \<Rightarrow> ('s, Dec) op" where
  "slash_each slash [] remaining = ret remaining"
| "slash_each slash (x # xs) remaining =
     bind_op (slash x) (\<lambda>amountSlashed.
     if amountSlashed = 0 then slash_each slash xs remaining
     else bind_op (lift_go (Dec_Sub remaining amountSlashed)) (slash_each slash xs))"

text \<open>The slash of an infraction: at the current height the whole amount is left for the bonded
  tokens, for a past one the unbondings and redelegations since then bear their part first.\<close>

definition slash_past ::
  "'e stake_externals_scheme \<Rightarrow> block_ctx \<Rightarrow> 'z stake_state_scheme StakingHooks option \<Rightarrow> ValAddress \<Rightarrow> int \<Rightarrow> Dec \<Rightarrow> Dec \<Rightarrow>
   ('z stake_state_scheme, Dec) op" where
  "slash_past E C H operatorAddress infractionHeight slashFactor slashAmount =
     (if infractionHeight > ctx_Height C then panic
      else if infractionHeight = ctx_Height C then ret slashAmount
      else
        bind_op (bind_op (gets (GetUnbondingDelegationsFromValidator operatorAddress)) lift_go) (\<lambda>ubds.
        bind_op (slash_each (\<lambda>ubd. slashUnbondingDelegation C ubd infractionHeight slashFactor) ubds slashAmount) (\<lambda>remaining.
        bind_op (bind_op (gets (GetRedelegationsFromValidator operatorAddress)) lift_go) (\<lambda>reds.
        slash_each (\<lambda>red. slashRedelegation E C H red infractionHeight slashFactor) reds remaining))))"

definition Slash ::
  "'e stake_externals_scheme \<Rightarrow> block_ctx \<Rightarrow> 'z stake_state_scheme StakingHooks option \<Rightarrow> ConsAddress \<Rightarrow> int \<Rightarrow> int \<Rightarrow> Dec \<Rightarrow>
   ('z stake_state_scheme, unit) op" where
  "Slash E C H consAddr infractionHeight pow slashFactor =
     (if slashFactor < 0 then panic
      else
        bind_op (lift_go (do {
          p \<leftarrow> NewDec pow;
          amount \<leftarrow> Dec_Mul p slashFactor;
          scaled \<leftarrow> Dec_MulInt amount AttoScaleFactor;
          Dec_TruncateDec scaled })) (\<lambda>slashAmount.
        bind_op (gets (GetValidatorByConsAddr consAddr)) (\<lambda>found. case found of
          None \<Rightarrow> ret ()
        | Some validator \<Rightarrow>
            if v_Status validator = Unbonded then panic
            else
              let operatorAddress = v_OperatorAddr validator in
              bind_op (OnValidatorModified H operatorAddress) (\<lambda>_.
              bind_op (slash_past E C H operatorAddress infractionHeight slashFactor slashAmount) (\<lambda>remainingSlashAmount.
              let tokensToBurn = MaxDec (MinDec remainingSlashAmount (v_Tokens validator)) 0 in
              bind_op (RemoveValidatorTokens validator tokensToBurn) (\<lambda>_.
              bind_op (lift_go (do { whole \<leftarrow> Dec_TruncateDec tokensToBurn; Dec_Sub tokensToBurn whole })) (\<lambda>change.
              if change \<noteq> 0 then panic
              else
                bind_op (lift_go (do { burned \<leftarrow> Dec_TruncateInt tokensToBurn; NewCoin StakeDenom burned })) (\<lambda>coin.
                DecreaseTotalLoosenToken [coin]))))))))"

definition Jail :: "ConsAddress \<Rightarrow> ('z stake_state_scheme, unit) op" where
  "Jail consAddr = bind_op (mustGetValidatorByConsAddr consAddr) jailValidator"

definition Unjail :: "ConsAddress \<Rightarrow> ('z stake_state_scheme, unit) op" where
  "Unjail consAddr = bind_op (mustGetValidatorByConsAddr consAddr) unjailValidator"

section \<open>Handler and end blocker\<close>

definition handleMsgCreateValidator ::
  "'e stake_externals_scheme \<Rightarrow> block_ctx \<Rightarrow> 'z stake_state_scheme StakingHooks option \<Rightarrow> MsgCreateValidator \<Rightarrow>
   ('z stake_state_scheme, unit) op" where
  "handleMsgCreateValidator E C H msg =
     bind_op (gets (GetValidator (cv_ValidatorAddr msg))) (\<lambda>found.
     if found \<noteq> None then fail ErrStakeValidator
     else
       bind_op (gets (GetValidatorByConsAddr (PubKey_Address E (cv_PubKey msg)))) (\<lambda>found.
       if found \<noteq> None then fail ErrStakeValidator
       else if (case ctx_PubKeyTypes C of None \<Rightarrow> False | Some types \<Rightarrow> TM2PB_PubKey_Type E (cv_PubKey msg) \<notin> set types)
       then fail ErrStakeValidator
       else
         bind_op (lift_go (cm_Rate (cv_Commission msg))) (\<lambda>rate.
         bind_op (lift_res (SetInitialCommission (NewValidator (cv_ValidatorAddr msg) (cv_PubKey msg) (cv_Description msg))
           (NewCommissionWithTime rate OneDec OneDec (ctx_Time C)))) (\<lambda>validator.
         bind_op (SetValidator validator) (\<lambda>_.
         bind_op (SetValidatorByConsAddr E validator) (\<lambda>_.
         bind_op (SetNewValidatorByPowerIndex validator) (\<lambda>_.
         bind_op (OnValidatorCreated H (v_OperatorAddr validator)) (\<lambda>_.
         bind_op (Delegate C H (cv_DelegatorAddr msg) (cv_Delegation msg) validator True) (\<lambda>_.
         ret ())))))))))"

definition edit_commission ::
  "block_ctx \<Rightarrow> 'z stake_state_scheme StakingHooks option \<Rightarrow> MsgEditValidator \<Rightarrow> Validator \<Rightarrow> ('z stake_state_scheme, Validator) op" where
  "edit_commission C H msg validator =
     (case ev_CommissionRate msg of
        None \<Rightarrow> ret validator
      | Some rate \<Rightarrow>
          bind_op (lift_go (UpdateValidatorCommission C validator rate)) (\<lambda>r.
          bind_op (lift_res r) (\<lambda>commission.
          bind_op (OnValidatorModified H (ev_ValidatorAddr msg)) (\<lambda>_.
          ret (validator\<lparr>v_Commission := commission\<rparr>)))))"

definition handleMsgEditValidator ::
  "block_ctx \<Rightarrow> 'z stake_state_scheme StakingHooks option \<Rightarrow> MsgEditValidator \<Rightarrow> ('z stake_state_scheme, unit) op" where
  "handleMsgEditValidator C H msg =
     bind_op (gets (GetValidator (ev_ValidatorAddr msg))) (\<lambda>found. case found of
       None \<Rightarrow> fail ErrStakeValidator
     | Some validator \<Rightarrow>
         bind_op (lift_res (UpdateDescription (v_Description validator) (ev_Description msg))) (\<lambda>description.
         bind_op (edit_commission C H msg (validator\<lparr>v_Description := description\<rparr>)) SetValidator))"

definition handleMsgDelegate ::
  "block_ctx \<Rightarrow> 'z stake_state_scheme StakingHooks option \<Rightarrow> MsgDelegate \<Rightarrow> ('z stake_state_scheme, unit) op" where
  "handleMsgDelegate C H msg =
     bind_op (gets (GetValidator (md_ValidatorAddr msg))) (\<lambda>found. case found of
       None \<Rightarrow> fail ErrStakeValidator
     | Some validator \<Rightarrow>
         if v_Jailed validator \<and> v_OperatorAddr validator \<noteq> md_DelegatorAddr msg then fail ErrStakeValidator
         else bind_op (Delegate C H (md_DelegatorAddr msg) (md_Delegation msg) validator True) (\<lambda>_. ret ()))"

definition handleMsgBeginUnbonding ::
  "'e stake_externals_scheme \<Rightarrow> block_ctx \<Rightarrow> 'z stake_state_scheme StakingHooks option \<Rightarrow> MsgBeginUnbonding \<Rightarrow>
   ('z stake_state_scheme, unit) op" where
  "handleMsgBeginUnbonding E C H msg =
     bind_op (lift_go (mu_SharesAmount msg)) (\<lambda>sharesAmount.
     bind_op (BeginUnbonding E C H (mu_DelegatorAddr msg) (mu_ValidatorAddr msg) sharesAmount) (\<lambda>_. ret ()))"

definition handleMsgBeginRedelegate ::
  "'e stake_externals_scheme \<Rightarrow> block_ctx \<Rightarrow> 'z stake_state_scheme StakingHooks option \<Rightarrow> MsgBeginRedelegate \<Rightarrow>
   ('z stake_state_scheme, unit) op" where
  "handleMsgBeginRedelegate E C H msg =
     bind_op (lift_go (mr_SharesAmount msg)) (\<lambda>sharesAmount.
     bind_op (BeginRedelegation E C H (mr_DelegatorAddr msg) (mr_ValidatorSrcAddr msg) (mr_ValidatorDstAddr msg) sharesAmount)
       (\<lambda>_. ret ()))"

definition StakeHandler ::
  "'e stake_externals_scheme \<Rightarrow> block_ctx \<Rightarrow> 'z stake_state_scheme StakingHooks option \<Rightarrow> stake_msg \<Rightarrow>
   ('z stake_state_scheme, unit) op" where
  "StakeHandler E C H msg =
     (case msg of
        CreateValidator m \<Rightarrow> handleMsgCreateValidator E C H m
      | EditValidator m \<Rightarrow> handleMsgEditValidator C H m
      | DelegateMsg m \<Rightarrow> handleMsgDelegate C H m
      | BeginRedelegate m \<Rightarrow> handleMsgBeginRedelegate E C H m
      | BeginUnbond m \<Rightarrow> handleMsgBeginUnbonding E C H m)"

definition StakeEndBlocker ::
  "'e stake_externals_scheme \<Rightarrow> block_ctx \<Rightarrow> 'z stake_state_scheme StakingHooks option \<Rightarrow>
   ('z stake_state_scheme, (PubKey \<times> int) list) op" where
  "StakeEndBlocker E C0 H =
     (let C = C0\<lparr>ctx_Trigger := ''stakeEndBlocker''\<rparr> in
      bind_op (ApplyAndReturnValidatorSetUpdates E C H) (\<lambda>validatorUpdates.
      bind_op (UnbondAllMatureValidatorQueue E C H) (\<lambda>_.
      bind_op (DequeueAllMatureUnbondingQueue C) (\<lambda>matureUnbonds.
      bind_op (for_each matureUnbonds (\<lambda>(delAddr, valAddr). ignore_err (CompleteUnbonding E delAddr valAddr))) (\<lambda>_.
      bind_op (DequeueAllMatureRedelegationQueue C) (\<lambda>matureRedelegations.
      bind_op (for_each matureRedelegations
        (\<lambda>(delAddr, valSrcAddr, valDstAddr). ignore_err (CompleteRedelegation C delAddr valSrcAddr valDstAddr))) (\<lambda>_.
      ret validatorUpdates)))))))"

end
