(* ===== verification/Stake_Books.thy ===== *)
theory Stake_Books
  imports Stake
begin

text \<open>
  The books of the staking module: what its operations do to the tokens and shares of validators,
  to delegations and unbonding delegations, to the pool and to the bank's count of loose tokens.
  \<open>src/app/v1/stake/invariants.go\<close> states the balance of these books as runtime checks; here the
  balance is an invariant that every operation keeps.
\<close>

section \<open>Decimals and coins\<close>

lemma Dec_Add_SomeD: "Dec_Add a b = Some c \<Longrightarrow> c = a + b"
  by (auto simp: Dec_Add_def Let_def split: if_splits)

lemma Dec_Sub_SomeD: "Dec_Sub a b = Some c \<Longrightarrow> c = a - b"
  by (auto simp: Dec_Sub_def Let_def split: if_splits)

lemma Dec_ops_range: "Dec_Add a b = Some c \<Longrightarrow> \<not> Dec_overflow c" "Dec_Sub a b = Some c \<Longrightarrow> \<not> Dec_overflow c"
  by (auto simp: Dec_Add_def Dec_Sub_def Let_def split: if_splits)

lemma Dec_TruncateInt_whole:
  assumes "Dec_TruncateInt x = Some r" "Dec_Sub x (r * precisionReuse) = Some c" "c = 0"
  shows "x = r * precisionReuse"
  using Dec_Sub_SomeD [OF assms(2)] assms(3) by simp

lemma GetCoin_single [simp]: "GetCoin [\<lparr>Denom = d, Amount = n\<rparr>] d = Some \<lparr>Denom = d, Amount = n\<rparr>"
  by (simp add: GetCoin.simps)

text \<open>\<open>GetLoosenTokenAmount\<close> of a pool: the bank's count of loose tokens as a decimal.\<close>

definition loose :: "Coins \<Rightarrow> Dec" where
  "loose L = bal L IrisAtto * precisionReuse"

abbreviation loosen :: "'z auth_state_scheme \<Rightarrow> Dec" where
  "loosen s \<equiv> loose (totalLoosenToken s)"

lemma DecreaseTotalLoosenToken_spec:
  assumes "DecreaseTotalLoosenToken [\<lparr>Denom = StakeDenom, Amount = r\<rparr>] s = Ok u t" "0 \<le> r"
  shows "\<exists>L. t = s\<lparr>totalLoosenToken := L\<rparr> \<and> loose L = loosen s - r * precisionReuse"
proof (cases "r = 0")
  case True
  then show ?thesis
    using assms by (intro exI [of _ "totalLoosenToken s"])
      (simp add: DecreaseTotalLoosenToken_def StakeDenom_def Coin_IsPositive_def loose_def op_simps bind_op_eval)
next
  case False
  then obtain L where "SafeSub (totalLoosenToken s) [\<lparr>Denom = IrisAtto, Amount = r\<rparr>] = Some (L, False)" "t = s\<lparr>totalLoosenToken := L\<rparr>"
    using assms by (auto simp: DecreaseTotalLoosenToken_def StakeDenom_def Coin_IsPositive_def op_simps split: if_splits)
  then show ?thesis
    using SafeSub_bal [of "totalLoosenToken s" "[\<lparr>Denom = IrisAtto, Amount = r\<rparr>]" L False IrisAtto]
    by (intro exI [of _ L]) (simp add: loose_def left_diff_distrib)
qed

lemma IncreaseTotalLoosenToken_spec:
  assumes "IncreaseTotalLoosenToken [\<lparr>Denom = StakeDenom, Amount = r\<rparr>] s = Ok u t" "0 \<le> r"
  shows "\<exists>L. t = s\<lparr>totalLoosenToken := L\<rparr> \<and> loose L = loosen s + r * precisionReuse"
proof (cases "r = 0")
  case True
  then show ?thesis
    using assms by (intro exI [of _ "totalLoosenToken s"])
      (simp add: IncreaseTotalLoosenToken_def StakeDenom_def Coin_IsPositive_def loose_def op_simps bind_op_eval)
next
  case False
  then obtain L where "Coins_Add (totalLoosenToken s) [\<lparr>Denom = IrisAtto, Amount = r\<rparr>] = Some L" "t = s\<lparr>totalLoosenToken := L\<rparr>"
    using assms by (auto simp: IncreaseTotalLoosenToken_def StakeDenom_def Coin_IsPositive_def op_simps split: if_splits)
  then show ?thesis
    using Coins_Add_bal [of "totalLoosenToken s" "[\<lparr>Denom = IrisAtto, Amount = r\<rparr>]" L IrisAtto]
    by (intro exI [of _ L]) (simp add: loose_def distrib_right)
qed

lemma loosen_ops_no_Err:
  "DecreaseTotalLoosenToken cs s \<noteq> Err e t" "IncreaseTotalLoosenToken cs s \<noteq> Err e t"
  by (auto simp: DecreaseTotalLoosenToken_def IncreaseTotalLoosenToken_def split: if_splits prod.splits)

text \<open>A whole amount of tokens: the decimal of a natural number.\<close>

definition whole :: "Dec \<Rightarrow> bool" where
  "whole x \<longleftrightarrow> 0 \<le> x \<and> precisionReuse dvd x"

lemma precision_pos: "0 < precisionReuse"
  by (simp add: precisionReuse_val)

lemma whole_mult [simp]: "whole (r * precisionReuse) \<longleftrightarrow> 0 \<le> r"
  using precision_pos by (auto simp: whole_def zero_le_mult_iff)

lemma whole_div: "whole x \<Longrightarrow> x div precisionReuse * precisionReuse = x"
  by (simp add: whole_def)

lemma whole_0 [simp]: "whole 0"
  by (simp add: whole_def)

lemma whole_add: "whole x \<Longrightarrow> whole y \<Longrightarrow> whole (x + y)"
  by (auto simp: whole_def)

lemma whole_diff: "whole x \<Longrightarrow> whole y \<Longrightarrow> y \<le> x \<Longrightarrow> whole (x - y)"
  by (auto simp: whole_def)

lemma loosenTokenToBonded_spec:
  assumes "loosenTokenToBonded p x s = Ok p' t"
  shows "p' = p + x \<and> whole x \<and> (\<exists>L. t = s\<lparr>totalLoosenToken := L\<rparr> \<and> loose L = loosen s - x)"
proof -
  obtain r c where r: "Dec_TruncateInt x = Some r" "Dec_Sub x (r * precisionReuse) = Some c" "c = 0"
    and p': "Dec_Add p x = Some p'" and "0 \<le> r"
    and dec: "DecreaseTotalLoosenToken [\<lparr>Denom = StakeDenom, Amount = r\<rparr>] s = Ok () t"
    using assms by (auto simp: loosenTokenToBonded_def op_simps NewCoin_def split: if_splits)
  have "x = r * precisionReuse"
    using r by (rule Dec_TruncateInt_whole)
  then show ?thesis
    using DecreaseTotalLoosenToken_spec [OF dec \<open>0 \<le> r\<close>] Dec_Add_SomeD [OF p'] \<open>0 \<le> r\<close> precision_pos by auto
qed

lemma bondedTokenToLoosen_spec:
  assumes "bondedTokenToLoosen p x s = Ok p' t"
  shows "p' = p - x \<and> whole x \<and> (\<exists>L. t = s\<lparr>totalLoosenToken := L\<rparr> \<and> loose L = loosen s + x)"
proof -
  obtain r c where r: "Dec_TruncateInt x = Some r" "Dec_Sub x (r * precisionReuse) = Some c" "c = 0"
    and p': "Dec_Sub p x = Some p'" and "0 \<le> r"
    and inc: "IncreaseTotalLoosenToken [\<lparr>Denom = StakeDenom, Amount = r\<rparr>] s = Ok () t"
    using assms by (auto simp: bondedTokenToLoosen_def op_simps NewCoin_def split: if_splits)
  have "x = r * precisionReuse"
    using r by (rule Dec_TruncateInt_whole)
  then show ?thesis
    using IncreaseTotalLoosenToken_spec [OF inc \<open>0 \<le> r\<close>] Dec_Sub_SomeD [OF p'] \<open>0 \<le> r\<close> precision_pos by auto
qed

lemma pool_ops_no_Err: "loosenTokenToBonded p x s \<noteq> Err e t" "bondedTokenToLoosen p x s \<noteq> Err e t"
  by (auto simp: loosenTokenToBonded_def bondedTokenToLoosen_def loosen_ops_no_Err)

section \<open>The books\<close>

text \<open>The part of the state that the balance is about. The slack is the bank's count of loose
  tokens less what the accounts (the burned-coins account apart), the collected fees and the other
  modules (\<open>R0\<close>) hold; it is what unbonding delegations and validators that are not bonded hold.\<close>

record stake_core =
  c_pool :: "Pool option"
  c_vals :: "(ValAddress, Validator) fmap"
  c_dels :: "(AccAddress \<times> ValAddress, Delegation) fmap"
  c_ubds :: "(AccAddress \<times> ValAddress, UnbondingDelegation) fmap"
  c_reds :: "(AccAddress \<times> ValAddress \<times> ValAddress, Redelegation) fmap"
  c_burned :: AccAddress
  c_slack :: Dec

definition slack :: "'e externals_scheme \<Rightarrow> ('z \<Rightarrow> Dec) \<Rightarrow> 'z stake_state_scheme \<Rightarrow> Dec" where
  "slack E R0 s = loosen s - (total_coins IrisAtto s - balance (BurnedCoinsAccAddr E) IrisAtto s +
     bal (collectedFees s) IrisAtto) * precisionReuse - R0 (stake_state.more s)"

definition core :: "'e externals_scheme \<Rightarrow> ('z \<Rightarrow> Dec) \<Rightarrow> 'z stake_state_scheme \<Rightarrow> stake_core" where
  "core E R0 s =
     \<lparr>c_pool = stakePool s, c_vals = validators s, c_dels = delegations s, c_ubds = unbondings s,
      c_reds = redelegations s, c_burned = BurnedCoinsAccAddr E, c_slack = slack E R0 s\<rparr>"

definition loose_tokens :: "Validator \<Rightarrow> Dec" where
  "loose_tokens v = v_Tokens v - BondedTokens v"

definition val_shares :: "stake_core \<Rightarrow> ValAddress \<Rightarrow> Dec" where
  "val_shares c a = (case fmlookup (c_vals c) a of None \<Rightarrow> 0 | Some v \<Rightarrow> v_DelegatorShares v)"

definition del_shares :: "stake_core \<Rightarrow> ValAddress \<Rightarrow> Dec" where
  "del_shares c a = fm_sum (\<lambda>d. if d_ValidatorAddr d = a then d_Shares d else 0) (c_dels c)"

definition ubd_total :: "stake_core \<Rightarrow> Dec" where
  "ubd_total c = fm_sum (\<lambda>u. Amount (ubd_Balance u) * precisionReuse) (c_ubds c)"

definition val_ok :: "ValAddress \<Rightarrow> Validator \<Rightarrow> bool" where
  "val_ok a v \<longleftrightarrow> v_OperatorAddr v = a \<and> whole (v_Tokens v) \<and> 0 \<le> v_DelegatorShares v \<and>
     \<not> Dec_overflow (v_DelegatorShares v) \<and> (v_DelegatorShares v = 0 \<longrightarrow> v_Tokens v = 0)"

definition del_ok :: "AccAddress \<times> ValAddress \<Rightarrow> Delegation \<Rightarrow> bool" where
  "del_ok k d \<longleftrightarrow> k = (d_DelegatorAddr d, d_ValidatorAddr d) \<and> 0 \<le> d_Shares d"

definition ubd_ok :: "AccAddress \<Rightarrow> AccAddress \<times> ValAddress \<Rightarrow> UnbondingDelegation \<Rightarrow> bool" where
  "ubd_ok b k u \<longleftrightarrow> k = (ubd_DelegatorAddr u, ubd_ValidatorAddr u) \<and> ubd_DelegatorAddr u \<noteq> b \<and> Denom (ubd_Balance u) = StakeDenom \<and>
     0 \<le> Amount (ubd_Balance u) \<and> in_range (Amount (ubd_Balance u))"

definition red_ok :: "AccAddress \<times> ValAddress \<times> ValAddress \<Rightarrow> Redelegation \<Rightarrow> bool" where
  "red_ok k r \<longleftrightarrow> k = (red_DelegatorAddr r, red_ValidatorSrcAddr r, red_ValidatorDstAddr r) \<and>
     red_ValidatorSrcAddr r \<noteq> red_ValidatorDstAddr r \<and> 0 \<le> red_SharesDst r"

text \<open>The books balance up to \<open>n\<close> tokens that an operation has in hand and, for each validator,
  \<open>m\<close> shares that no delegation holds yet.\<close>

definition balanced :: "Dec \<Rightarrow> (ValAddress \<Rightarrow> Dec) \<Rightarrow> stake_core \<Rightarrow> bool" where
  "balanced n m c \<longleftrightarrow>
     c_pool c = Some (fm_sum BondedTokens (c_vals c)) \<and>
     fmpred val_ok (c_vals c) \<and> fmpred del_ok (c_dels c) \<and> fmpred (ubd_ok (c_burned c)) (c_ubds c) \<and> fmpred red_ok (c_reds c) \<and>
     (\<forall>a. val_shares c a = del_shares c a + m a) \<and>
     c_slack c = n + ubd_total c + fm_sum loose_tokens (c_vals c)"

text \<open>Recording a validator: its old record gives way to the new one, in the pool and in the slack.\<close>

definition old_val :: "(Validator \<Rightarrow> int) \<Rightarrow> stake_core \<Rightarrow> ValAddress \<Rightarrow> int" where
  "old_val f c a = (case fmlookup (c_vals c) a of None \<Rightarrow> 0 | Some v \<Rightarrow> f v)"

lemma balanced_put_val:
  assumes "balanced n m c" "val_ok a v"
  shows "balanced (n + e - (loose_tokens v - old_val loose_tokens c a))
    (m(a := m a + v_DelegatorShares v - val_shares c a))
    (c\<lparr>c_vals := fmupd a v (c_vals c),
       c_pool := map_option (\<lambda>p. p + BondedTokens v - old_val BondedTokens c a) (c_pool c), c_slack := c_slack c + e\<rparr>)"
  using assms by (auto simp: balanced_def fm_sum_upd old_val_def val_shares_def del_shares_def ubd_total_def split: option.splits)

text \<open>A new record with the same tokens, shares and status changes nothing.\<close>

definition same_stake :: "Validator \<Rightarrow> Validator \<Rightarrow> bool" where
  "same_stake v w \<longleftrightarrow> v_Tokens v = v_Tokens w \<and> v_DelegatorShares v = v_DelegatorShares w \<and>
     (v_Status v = Bonded \<longleftrightarrow> v_Status w = Bonded) \<and> v_OperatorAddr v = v_OperatorAddr w"

lemma balanced_same_stake:
  assumes "balanced n m c" "fmlookup (c_vals c) a = Some w" "same_stake v w"
  shows "balanced n m (c\<lparr>c_vals := fmupd a v (c_vals c)\<rparr>)"
proof -
  have "val_ok a v"
    using assms by (auto simp: balanced_def fmpred_iff val_ok_def same_stake_def)
  moreover have "loose_tokens v = loose_tokens w" "BondedTokens v = BondedTokens w"
    using assms(3) by (auto simp: loose_tokens_def BondedTokens_def same_stake_def)
  moreover have "v_DelegatorShares v = v_DelegatorShares w"
    using assms(3) by (simp add: same_stake_def)
  moreover have "val_shares c a = del_shares c a + m a"
    using assms(1) by (simp add: balanced_def)
  then have "v_DelegatorShares w = del_shares c a + m a"
    using assms(2) by (simp add: val_shares_def)
  ultimately show ?thesis
    using assms(1,2) by (auto simp: balanced_def fm_sum_upd val_shares_def del_shares_def ubd_total_def)
qed

lemma balanced_drop_val:
  assumes "balanced n m c" "fmlookup (c_vals c) a = Some v" "v_DelegatorShares v = 0"
  shows "balanced n m (c\<lparr>c_vals := fmdrop a (c_vals c)\<rparr>)"
proof -
  have "v_Tokens v = 0"
    using assms by (auto simp: balanced_def fmpred_iff val_ok_def)
  then have "BondedTokens v = 0" "loose_tokens v = 0"
    by (simp_all add: BondedTokens_def loose_tokens_def)
  moreover have "val_shares c a = del_shares c a + m a"
    using assms(1) by (simp add: balanced_def)
  then have "del_shares c a + m a = 0"
    using assms(2,3) by (simp add: val_shares_def)
  ultimately show ?thesis
    using assms by (auto simp: balanced_def fm_sum_drop val_shares_def del_shares_def ubd_total_def split: if_splits)
qed

lemma balanced_put_del:
  assumes "balanced n m c" "d_ValidatorAddr d = a" "0 \<le> d_Shares d"
    and "old = (case fmlookup (c_dels c) (d_DelegatorAddr d, a) of None \<Rightarrow> 0 | Some x \<Rightarrow> d_Shares x)"
  shows "balanced n (m(a := m a - (d_Shares d - old))) (c\<lparr>c_dels := fmupd (d_DelegatorAddr d, a) d (c_dels c)\<rparr>)"
  using assms by (auto simp: balanced_def del_ok_def fm_sum_upd val_shares_def del_shares_def ubd_total_def fmpred_iff split: option.splits)

lemma balanced_drop_del:
  assumes "balanced n m c" "fmlookup (c_dels c) (x, a) = Some d"
  shows "balanced n (m(a := m a + d_Shares d)) (c\<lparr>c_dels := fmdrop (x, a) (c_dels c)\<rparr>)"
  using assms by (auto simp: balanced_def del_ok_def fm_sum_drop val_shares_def del_shares_def ubd_total_def fmpred_iff split: option.splits)

lemma balanced_put_ubd:
  assumes "balanced n m c" "ubd_ok (c_burned c) k u"
    and "old = (case fmlookup (c_ubds c) k of None \<Rightarrow> 0 | Some x \<Rightarrow> Amount (ubd_Balance x))"
  shows "balanced (n - (Amount (ubd_Balance u) - old) * precisionReuse) m (c\<lparr>c_ubds := fmupd k u (c_ubds c)\<rparr>)"
  using assms by (auto simp: balanced_def fm_sum_upd val_shares_def del_shares_def ubd_total_def left_diff_distrib split: option.splits)

lemma balanced_drop_ubd:
  assumes "balanced n m c" "fmlookup (c_ubds c) k = Some u"
  shows "balanced (n + Amount (ubd_Balance u) * precisionReuse) m (c\<lparr>c_ubds := fmdrop k (c_ubds c)\<rparr>)"
  using assms by (auto simp: balanced_def fm_sum_drop val_shares_def del_shares_def ubd_total_def split: option.splits)

lemma balanced_reds:
  "balanced n m c \<Longrightarrow> red_ok k r \<Longrightarrow> balanced n m (c\<lparr>c_reds := fmupd k r (c_reds c)\<rparr>)"
  "balanced n m c \<Longrightarrow> balanced n m (c\<lparr>c_reds := fmdrop k (c_reds c)\<rparr>)"
  by (auto simp: balanced_def val_shares_def del_shares_def ubd_total_def)

lemma balanced_slack: "balanced n m c \<Longrightarrow> balanced (n + e) m (c\<lparr>c_slack := c_slack c + e\<rparr>)"
  by (auto simp: balanced_def val_shares_def del_shares_def ubd_total_def)

section \<open>What the operations do to the books\<close>

lemma core_frame [simp]:
  "core E R0 (s\<lparr>lastTotalPower := x1\<rparr>) = core E R0 s"
  "core E R0 (s\<lparr>lastValidatorPowers := x2\<rparr>) = core E R0 s"
  "core E R0 (s\<lparr>validatorsByConsAddr := x3\<rparr>) = core E R0 s"
  "core E R0 (s\<lparr>validatorsByPower := x4\<rparr>) = core E R0 s"
  "core E R0 (s\<lparr>unbondingsByVal := x5\<rparr>) = core E R0 s"
  "core E R0 (s\<lparr>redelegationsBySrc := x6\<rparr>) = core E R0 s"
  "core E R0 (s\<lparr>redelegationsByDst := x7\<rparr>) = core E R0 s"
  "core E R0 (s\<lparr>unbondingQueue := x8\<rparr>) = core E R0 s"
  "core E R0 (s\<lparr>redelegationQueue := x9\<rparr>) = core E R0 s"
  "core E R0 (s\<lparr>validatorQueue := x10\<rparr>) = core E R0 s"
  by (simp_all add: core_def slack_def loose_def total_coins_def balance_def GetAccount_def)

lemma core_update [simp]:
  "core E R0 (s\<lparr>stakePool := x1\<rparr>) = (core E R0 s)\<lparr>c_pool := x1\<rparr>"
  "core E R0 (s\<lparr>validators := x2\<rparr>) = (core E R0 s)\<lparr>c_vals := x2\<rparr>"
  "core E R0 (s\<lparr>delegations := x3\<rparr>) = (core E R0 s)\<lparr>c_dels := x3\<rparr>"
  "core E R0 (s\<lparr>unbondings := x4\<rparr>) = (core E R0 s)\<lparr>c_ubds := x4\<rparr>"
  "core E R0 (s\<lparr>redelegations := x5\<rparr>) = (core E R0 s)\<lparr>c_reds := x5\<rparr>"
  "core E R0 (s\<lparr>totalLoosenToken := L\<rparr>) = (core E R0 s)\<lparr>c_slack := slack E R0 s + (loose L - loosen s)\<rparr>"
  by (simp_all add: core_def slack_def loose_def total_coins_def balance_def GetAccount_def algebra_simps)

lemma core_sel [simp]:
  "c_pool (core E R0 s) = stakePool s" "c_vals (core E R0 s) = validators s" "c_dels (core E R0 s) = delegations s"
  "c_ubds (core E R0 s) = unbondings s" "c_reds (core E R0 s) = redelegations s" "c_slack (core E R0 s) = slack E R0 s"
  "c_burned (core E R0 s) = BurnedCoinsAccAddr E"
  by (simp_all add: core_def)

lemma accounts_ok_frame [simp]:
  "accounts_ok (s\<lparr>stakePool := x1\<rparr>) = accounts_ok s" "accounts_ok (s\<lparr>validators := x2\<rparr>) = accounts_ok s"
  "accounts_ok (s\<lparr>delegations := x3\<rparr>) = accounts_ok s" "accounts_ok (s\<lparr>unbondings := x4\<rparr>) = accounts_ok s"
  "accounts_ok (s\<lparr>redelegations := x5\<rparr>) = accounts_ok s" "accounts_ok (s\<lparr>lastTotalPower := x6\<rparr>) = accounts_ok s"
  "accounts_ok (s\<lparr>lastValidatorPowers := x7\<rparr>) = accounts_ok s" "accounts_ok (s\<lparr>validatorsByConsAddr := x8\<rparr>) = accounts_ok s"
  "accounts_ok (s\<lparr>validatorsByPower := x9\<rparr>) = accounts_ok s" "accounts_ok (s\<lparr>unbondingsByVal := x10\<rparr>) = accounts_ok s"
  "accounts_ok (s\<lparr>redelegationsBySrc := x11\<rparr>) = accounts_ok s" "accounts_ok (s\<lparr>redelegationsByDst := x12\<rparr>) = accounts_ok s"
  "accounts_ok (s\<lparr>unbondingQueue := x13\<rparr>) = accounts_ok s" "accounts_ok (s\<lparr>redelegationQueue := x14\<rparr>) = accounts_ok s"
  "accounts_ok (s\<lparr>validatorQueue := x15\<rparr>) = accounts_ok s"
  by (simp_all add: accounts_ok_def)

text \<open>The power index: every entry is the key of a validator that is stored and not jailed.\<close>

definition index_ok :: "'z stake_state_scheme \<Rightarrow> bool" where
  "index_ok s \<longleftrightarrow> fmpred (\<lambda>k a. \<exists>v. fmlookup (validators s) a = Some v \<and> getValidatorPowerRank v = Some k \<and> \<not> v_Jailed v)
     (validatorsByPower s)"

lemma index_ok_frame:
  "validators t = validators s \<Longrightarrow> validatorsByPower t = validatorsByPower s \<Longrightarrow> index_ok t = index_ok s"
  by (simp add: index_ok_def)

text \<open>The state invariant: well-formed accounts, a correct power index and books that balance up to
  \<open>n\<close> and \<open>m\<close>. The hooks of other modules may move the slack by amounts of \<open>D\<close>.\<close>

definition books ::
  "'e externals_scheme \<Rightarrow> ('z \<Rightarrow> Dec) \<Rightarrow> Dec set \<Rightarrow> Dec \<Rightarrow> (ValAddress \<Rightarrow> Dec) \<Rightarrow> 'z stake_state_scheme \<Rightarrow> bool" where
  "books E R0 D n m s \<longleftrightarrow> accounts_ok s \<and> index_ok s \<and> (\<exists>d\<in>D. balanced (n + d) m (core E R0 s))"

lemma books_val:
  "books E R0 D n m s \<Longrightarrow> GetValidator a s = Some v \<Longrightarrow> val_ok a v"
  by (auto simp: books_def balanced_def GetValidator_def fmpred_iff)

lemma books_pool: "books E R0 D n m s \<Longrightarrow> stakePool s = Some (fm_sum BondedTokens (validators s))"
  by (auto simp: books_def balanced_def)

text \<open>Every change of the core that shifts the balance by \<open>e\<close> lifts to the state.\<close>

lemma books_lift:
  assumes "books E R0 D n m s" "accounts_ok t" "index_ok t"
    and "\<And>d. balanced (n + d) m (core E R0 s) \<Longrightarrow> balanced (n + d + e) m' (core E R0 t)"
  shows "books E R0 D (n + e) m' t"
proof -
  obtain d where "d \<in> D" "balanced (n + d) m (core E R0 s)"
    using assms(1) by (auto simp: books_def)
  then have "balanced (n + e + d) m' (core E R0 t)"
    using assms(4) [of d] by (simp add: algebra_simps)
  then show ?thesis
    using assms(2,3) \<open>d \<in> D\<close> by (auto simp: books_def)
qed

text \<open>Leaving the index and entering it again.\<close>

definition enter_index :: "Validator \<Rightarrow> (bytes, ValAddress) fmap \<Rightarrow> (bytes, ValAddress) fmap" where
  "enter_index v x = (if v_Jailed v then x else fmupd (the (getValidatorPowerRank v)) (v_OperatorAddr v) x)"

lemma DeleteValidatorByPowerIndex_Ok:
  "DeleteValidatorByPowerIndex v s = Ok u t \<longleftrightarrow>
     (\<exists>k. getValidatorPowerRank v = Some k \<and> t = s\<lparr>validatorsByPower := fmdrop k (validatorsByPower s)\<rparr>)"
  by (auto simp: DeleteValidatorByPowerIndex_def op_simps)

lemma SetValidatorByPowerIndex_Ok:
  "SetValidatorByPowerIndex v s = Ok u t \<longleftrightarrow>
     (v_Jailed v \<or> getValidatorPowerRank v \<noteq> None) \<and> t = s\<lparr>validatorsByPower := enter_index v (validatorsByPower s)\<rparr>"
  by (auto simp: SetValidatorByPowerIndex_def enter_index_def op_simps)

lemma index_okD:
  assumes "index_ok s" "fmlookup (validatorsByPower s) k = Some a"
  shows "\<exists>v. fmlookup (validators s) a = Some v \<and> getValidatorPowerRank v = Some k \<and> \<not> v_Jailed v"
  using assms by (simp add: index_ok_def fmpred_iff)

lemma index_okI:
  assumes "\<And>k a. fmlookup (validatorsByPower s) k = Some a \<Longrightarrow>
    \<exists>v. fmlookup (validators s) a = Some v \<and> getValidatorPowerRank v = Some k \<and> \<not> v_Jailed v"
  shows "index_ok s"
  using assms by (simp add: index_ok_def fmpred_iff)

text \<open>Once the key of a validator is dropped, no entry names the validator, and its record may change.\<close>

lemma index_leave:
  assumes "index_ok s" "fmlookup (validators s) a = Some v" "getValidatorPowerRank v = Some k"
    and "\<And>b. b \<noteq> a \<Longrightarrow> fmlookup (validators t) b = fmlookup (validators s) b"
    and "validatorsByPower t = fmdrop k (validatorsByPower s)"
  shows "index_ok t" "a |\<notin>| fmran (validatorsByPower t)"
proof -
  have ne: "b \<noteq> a" if "fmlookup (validatorsByPower t) k' = Some b" for k' b
    using index_okD [OF assms(1), of k' b] that assms(2,3,5) by (auto split: if_splits)
  show "index_ok t"
    using index_okD [OF assms(1)] ne assms(4,5) by (intro index_okI) (simp split: if_splits)
  show "a |\<notin>| fmran (validatorsByPower t)"
    using ne by (auto elim!: fmranE)
qed

lemma index_enter:
  assumes "index_ok s" "a |\<notin>| fmran (validatorsByPower s)"
    and "v_OperatorAddr v = a" "v_Jailed v \<or> getValidatorPowerRank v \<noteq> None"
    and "validators t = fmupd a v (validators s)" "validatorsByPower t = enter_index v (validatorsByPower s)"
  shows "index_ok t"
proof (rule index_okI)
  fix k b assume b: "fmlookup (validatorsByPower t) k = Some b"
  show "\<exists>v. fmlookup (validators t) b = Some v \<and> getValidatorPowerRank v = Some k \<and> \<not> v_Jailed v"
  proof (cases "fmlookup (validatorsByPower s) k = Some b")
    case True
    then have "b \<noteq> a"
      using assms(2) by (auto intro: fmranI)
    with True show ?thesis
      using index_okD [OF assms(1) True] assms(5) by simp
  next
    case False
    then show ?thesis
      using b assms(3-6) by (auto simp: enter_index_def split: if_splits)
  qed
qed

lemma index_reenter:
  assumes "index_ok s" "fmlookup (validators s) a = Some v" "getValidatorPowerRank v = Some k"
    and "v_OperatorAddr v' = a" "v_Jailed v' \<or> getValidatorPowerRank v' \<noteq> None"
    and "validators t = fmupd a v' (validators s)" "validatorsByPower t = enter_index v' (fmdrop k (validatorsByPower s))"
  shows "index_ok t"
proof -
  note left = index_leave [OF assms(1-3), of "s\<lparr>validatorsByPower := fmdrop k (validatorsByPower s)\<rparr>"]
  show ?thesis
    by (rule index_enter [OF left _ assms(5)]) (use assms in simp_all)
qed

lemma index_same_rank:
  assumes "index_ok s" "fmlookup (validators s) a = Some v"
    and "getValidatorPowerRank v' = getValidatorPowerRank v" "v_Jailed v' = v_Jailed v"
    and "validators t = fmupd a v' (validators s)" "validatorsByPower t = validatorsByPower s"
  shows "index_ok t"
  using index_okD [OF assms(1)] assms(2-6) by (intro index_okI) fastforce

lemma GetPool_Ok [simp]: "GetPool s = Ok p t \<longleftrightarrow> stakePool s = Some p \<and> t = s"
  by (auto simp: GetPool_def op_simps)

lemma stake_ops_no_Err [simp]:
  "GetPool s \<noteq> Err e t" "DeleteValidatorByPowerIndex v s \<noteq> Err e t" "SetValidatorByPowerIndex v s \<noteq> Err e t"
  "SetValidator v s \<noteq> Err e t" "SetPool p s \<noteq> Err e t" "AddTokensFromDel v p n s \<noteq> Err e t"
  "RemoveDelShares v p x s \<noteq> Err e t" "RemoveTokens v p x s \<noteq> Err e t" "UpdateStatus v p st s \<noteq> Err e t"
  by (auto simp: GetPool_def DeleteValidatorByPowerIndex_def SetValidatorByPowerIndex_def SetValidator_def SetPool_def
      AddTokensFromDel_def RemoveDelShares_def RemoveTokens_def UpdateStatus_def pool_ops_no_Err op_simps
      split: if_splits BondStatus.splits)

lemma chop_ge0:
  assumes "0 \<le> d"
  shows "0 \<le> chopPrecisionAndRound d"
proof (rule ccontr)
  assume "\<not> 0 \<le> chopPrecisionAndRound d"
  then show False
    using chop_error [of d] assms by (simp add: precisionReuse_val abs_if split: if_splits)
qed

lemma Dec_Quo_ge0: "Dec_Quo d d2 = Some q \<Longrightarrow> 0 \<le> d \<Longrightarrow> 0 < d2 \<Longrightarrow> 0 \<le> q"
  using Dec_Quo_value [of d d2 q] precision_pos by (auto simp: sdiv_smod_nonneg intro!: chop_ge0 pos_imp_zdiv_nonneg_iff [THEN iffD2])

lemma Dec_Quo_One: "Dec_Quo (n * precisionReuse) OneDec = Some q \<Longrightarrow> 0 \<le> n \<Longrightarrow> q = n * precisionReuse"
  using Dec_Quo_value [of "n * precisionReuse" OneDec q] precision_pos chop_whole [of "n * precisionReuse"]
  by (simp add: OneDec_def sdiv_smod_nonneg)

lemma exRate_ge0: "DelegatorShareExRate v = Some r \<Longrightarrow> val_ok a v \<Longrightarrow> 0 \<le> r"
  using Dec_Quo_ge0 [of "v_Tokens v" "v_DelegatorShares v" r] precision_pos
  by (auto simp: DelegatorShareExRate_def val_ok_def whole_def OneDec_def split: if_splits)

lemma AddTokensFromDel_spec:
  assumes "AddTokensFromDel v p n s = Ok (v', p', x) t" "val_ok a v" "0 \<le> n"
  shows "v' = v\<lparr>v_Tokens := v_Tokens v + n * precisionReuse, v_DelegatorShares := v_DelegatorShares v + x\<rparr>" "0 \<le> x"
    "p' = p + BondedTokens v' - BondedTokens v" "val_ok a v'"
    "\<exists>L. t = s\<lparr>totalLoosenToken := L\<rparr> \<and> loose L = loosen s - (if v_Status v = Bonded then n * precisionReuse else 0)"
proof -
  obtain r tk sh where r: "DelegatorShareExRate v = Some r" "r \<noteq> 0"
    and pool: "(if v_Status v = Bonded then loosenTokenToBonded p (n * precisionReuse) else ret p) s = Ok p' t"
    and tk: "Dec_Add (v_Tokens v) (n * precisionReuse) = Some tk" and x: "Dec_Quo (n * precisionReuse) r = Some x"
    and sh: "Dec_Add (v_DelegatorShares v) x = Some sh" and v': "v' = v\<lparr>v_Tokens := tk, v_DelegatorShares := sh\<rparr>"
    using assms(1) by (auto simp: AddTokensFromDel_def op_simps split: if_splits)
  show eq: "v' = v\<lparr>v_Tokens := v_Tokens v + n * precisionReuse, v_DelegatorShares := v_DelegatorShares v + x\<rparr>"
    using Dec_Add_SomeD [OF tk] Dec_Add_SomeD [OF sh] v' by simp
  have "0 < r"
    using exRate_ge0 [OF r(1) assms(2)] r(2) by simp
  then show x0: "0 \<le> x"
    using Dec_Quo_ge0 [OF x] assms(3) precision_pos by simp
  have "n = 0" if "v_DelegatorShares v = 0" "x = 0"
    using that r(1) x Dec_Quo_One [of n x] assms(3) precision_pos by (simp add: DelegatorShareExRate_def)
  then show "val_ok a v'"
    using assms(2,3) x0 Dec_ops_range(1) [OF sh] Dec_Add_SomeD [OF sh] by (auto simp: eq val_ok_def intro!: whole_add)
  show "p' = p + BondedTokens v' - BondedTokens v"
    "\<exists>L. t = s\<lparr>totalLoosenToken := L\<rparr> \<and> loose L = loosen s - (if v_Status v = Bonded then n * precisionReuse else 0)"
    using pool loosenTokenToBonded_spec [of p "n * precisionReuse" s p' t] precision_pos
    by (auto simp: eq BondedTokens_def op_simps loose_def intro: exI [of _ "totalLoosenToken s"] split: if_splits)
qed

lemma issued_amount_spec:
  assumes "issued_amount v x = Some amt" "val_ok a v" "0 \<le> x"
  shows "whole amt" "amt \<le> v_Tokens v" "x = v_DelegatorShares v \<Longrightarrow> amt = v_Tokens v"
proof -
  obtain r y z where r: "DelegatorShareExRate v = Some r" and y: "Dec_Mul r x = Some y" and z: "Dec_TruncateDec y = Some z"
    and amt: "amt = (if z > v_Tokens v \<or> x = v_DelegatorShares v then v_Tokens v else z)"
    using assms(1) by (auto simp: issued_amount_def bind_eq_Some_conv)
  have "0 \<le> y"
    using y exRate_ge0 [OF r assms(2)] assms(3) chop_ge0 [of "r * x"] by (auto simp: Dec_Mul_def Let_def split: if_splits)
  then have "whole z"
    using z precision_pos
    by (auto simp: Dec_TruncateDec_def chopPrecisionAndTruncate_def sdiv_smod_nonneg bind_eq_Some_conv pos_imp_zdiv_nonneg_iff)
  then show "whole amt"
    using amt assms(2) by (simp add: val_ok_def)
  show "amt \<le> v_Tokens v" "x = v_DelegatorShares v \<Longrightarrow> amt = v_Tokens v"
    using amt by simp_all
qed

lemma RemoveDelShares_spec:
  assumes "RemoveDelShares v p x s = Ok (v', p', amt) t" "val_ok a v" "0 \<le> x" "x \<le> v_DelegatorShares v"
  shows "v' = v\<lparr>v_Tokens := v_Tokens v - amt, v_DelegatorShares := v_DelegatorShares v - x\<rparr>" "whole amt" "amt \<le> v_Tokens v"
    "p' = p + BondedTokens v' - BondedTokens v" "val_ok a v'"
    "\<exists>L. t = s\<lparr>totalLoosenToken := L\<rparr> \<and> loose L = loosen s + (if v_Status v = Bonded then amt else 0)"
proof -
  obtain tk sh where amt: "issued_amount v x = Some amt" and tk: "Dec_Sub (v_Tokens v) amt = Some tk"
    and sh: "Dec_Sub (v_DelegatorShares v) x = Some sh" and v': "v' = v\<lparr>v_Tokens := tk, v_DelegatorShares := sh\<rparr>"
    and pool: "(if v_Status v = Bonded then bondedTokenToLoosen p amt else ret p) s = Ok p' t"
    using assms(1) by (auto simp: RemoveDelShares_def op_simps split: if_splits)
  show eq: "v' = v\<lparr>v_Tokens := v_Tokens v - amt, v_DelegatorShares := v_DelegatorShares v - x\<rparr>"
    using Dec_Sub_SomeD [OF tk] Dec_Sub_SomeD [OF sh] v' by simp
  note spec = issued_amount_spec [OF amt assms(2,3)]
  show "whole amt" "amt \<le> v_Tokens v"
    using spec by simp_all
  then show "val_ok a v'"
    using assms(2,4) spec(3) Dec_ops_range(2) [OF sh] Dec_Sub_SomeD [OF sh] by (auto simp: eq val_ok_def intro!: whole_diff)
  show "p' = p + BondedTokens v' - BondedTokens v"
    "\<exists>L. t = s\<lparr>totalLoosenToken := L\<rparr> \<and> loose L = loosen s + (if v_Status v = Bonded then amt else 0)"
    using pool bondedTokenToLoosen_spec [of p amt s p' t]
    by (auto simp: eq BondedTokens_def op_simps loose_def intro: exI [of _ "totalLoosenToken s"] split: if_splits)
qed

lemma RemoveTokens_spec:
  assumes "RemoveTokens v p x s = Ok (v', p') t" "val_ok a v" "whole x"
  shows "v' = v\<lparr>v_Tokens := v_Tokens v - x\<rparr>" "x \<le> v_Tokens v" "p' = p + BondedTokens v' - BondedTokens v" "val_ok a v'"
    "\<exists>L. t = s\<lparr>totalLoosenToken := L\<rparr> \<and> loose L = loosen s + (if v_Status v = Bonded then x else 0)"
proof -
  obtain left where left: "Dec_Sub (v_Tokens v) x = Some left" "v' = v\<lparr>v_Tokens := left\<rparr>" and le: "x \<le> v_Tokens v"
    and pool: "(if v_Status v = Bonded then bondedTokenToLoosen p x else ret p) s = Ok p' t"
    using assms(1) by (auto simp: RemoveTokens_def op_simps split: if_splits)
  show eq: "v' = v\<lparr>v_Tokens := v_Tokens v - x\<rparr>" "x \<le> v_Tokens v"
    using Dec_Sub_SomeD [OF left(1)] left(2) le by simp_all
  have "v_DelegatorShares v = 0 \<Longrightarrow> x = 0"
    using assms(2,3) le by (simp add: val_ok_def whole_def)
  then show "val_ok a v'"
    using assms(2,3) le by (auto simp: eq val_ok_def whole_def)
  show "p' = p + BondedTokens v' - BondedTokens v"
    "\<exists>L. t = s\<lparr>totalLoosenToken := L\<rparr> \<and> loose L = loosen s + (if v_Status v = Bonded then x else 0)"
    using pool bondedTokenToLoosen_spec [of p x s p' t]
    by (auto simp: eq BondedTokens_def op_simps loose_def intro: exI [of _ "totalLoosenToken s"] split: if_splits)
qed

lemma UpdateStatus_spec:
  assumes "UpdateStatus v p st s = Ok (v', p') t" "val_ok a v"
  shows "v' = v\<lparr>v_Status := st\<rparr>" "p' = p + BondedTokens v' - BondedTokens v" "val_ok a v'"
    "\<exists>L. t = s\<lparr>totalLoosenToken := L\<rparr> \<and> loose L = loosen s + (loose_tokens v' - loose_tokens v)"
proof -
  have w: "v_Tokens v div precisionReuse * precisionReuse = v_Tokens v"
    using assms(2) by (simp add: val_ok_def whole_div)
  show v': "v' = v\<lparr>v_Status := st\<rparr>"
    using assms(1) by (auto simp: UpdateStatus_def op_simps split: if_splits BondStatus.splits)
  then show "val_ok a v'"
    using assms(2) by (simp add: val_ok_def)
  show "p' = p + BondedTokens v' - BondedTokens v"
    "\<exists>L. t = s\<lparr>totalLoosenToken := L\<rparr> \<and> loose L = loosen s + (loose_tokens v' - loose_tokens v)"
    using assms(1) loosenTokenToBonded_spec [of p "v_Tokens v" s p' t] bondedTokenToLoosen_spec [of p "v_Tokens v" s p' t]
    by (auto simp: v' UpdateStatus_def BondedTokens_def loose_tokens_def op_simps loose_def
        intro: exI [of _ "totalLoosenToken s"] split: if_splits BondStatus.splits)
qed

text \<open>What an operation on one validator leaves alone.\<close>

definition only_val :: "ValAddress \<Rightarrow> 'z stake_state_scheme \<Rightarrow> 'z stake_state_scheme \<Rightarrow> bool" where
  "only_val a s t \<longleftrightarrow> (\<forall>b. b \<noteq> a \<longrightarrow> GetValidator b t = GetValidator b s) \<and>
     unbondings t = unbondings s \<and> redelegations t = redelegations s"

lemma only_val_trans: "only_val a s t \<Longrightarrow> only_val a t u \<Longrightarrow> only_val a s u"
  by (simp add: only_val_def)

text \<open>Storing a changed validator together with the pool: the three keeper functions that move
  tokens and shares, and the changes of status, have this shape.\<close>

lemma books_put_val:
  assumes "books E R0 D n m s" "GetValidator a s = Some v" "val_ok a v'"
    and "t = s\<lparr>totalLoosenToken := L, validators := fmupd a v' (validators s), stakePool := Some p', validatorsByPower := x\<rparr>"
    and "stakePool s = Some p" "p' = p + BondedTokens v' - BondedTokens v" "loose L = loosen s + e" "index_ok t"
  shows "books E R0 D (n + (e - (loose_tokens v' - loose_tokens v))) (m(a := m a + v_DelegatorShares v' - v_DelegatorShares v)) t"
    "GetValidator a t = Some v'" "only_val a s t" "delegations t = delegations s"
proof -
  have core: "core E R0 t = (core E R0 s)\<lparr>c_vals := fmupd a v' (validators s), c_pool := Some p', c_slack := slack E R0 s + e\<rparr>"
    using assms(4,7) by (simp add: core_def slack_def total_coins_def balance_def GetAccount_def)
  have "balanced (n + d + (e - (loose_tokens v' - loose_tokens v))) (m(a := m a + v_DelegatorShares v' - v_DelegatorShares v)) (core E R0 t)"
    if "balanced (n + d) m (core E R0 s)" for d
    using balanced_put_val [OF that assms(3), of e] assms(2,5)
    by (simp add: core assms(6) old_val_def val_shares_def GetValidator_def algebra_simps)
  then show "books E R0 D (n + (e - (loose_tokens v' - loose_tokens v))) (m(a := m a + v_DelegatorShares v' - v_DelegatorShares v)) t"
    using assms(1,4,8) by (intro books_lift) (auto simp: books_def)
qed (simp_all add: assms(4) GetValidator_def only_val_def)

text \<open>The keeper functions drop the key of the validator, change it, and store it with its new key.\<close>

lemma books_change_val:
  assumes "books E R0 D n m s" "GetValidator a s = Some v" "val_ok a v'" "stakePool s = Some p"
    and "getValidatorPowerRank v = Some r" "v_Jailed v' \<or> getValidatorPowerRank v' \<noteq> None"
    and "p' = p + BondedTokens v' - BondedTokens v"
    and "\<exists>L. s1 = s\<lparr>validatorsByPower := fmdrop r (validatorsByPower s), totalLoosenToken := L\<rparr> \<and> loose L = loosen s + e"
    and "t = s1\<lparr>validators := fmupd (v_OperatorAddr v') v' (validators s1), stakePool := Some p',
      validatorsByPower := enter_index v' (validatorsByPower s1)\<rparr>"
  shows "books E R0 D (n + (e - (loose_tokens v' - loose_tokens v))) (m(a := m a + v_DelegatorShares v' - v_DelegatorShares v)) t"
    "GetValidator a t = Some v'" "only_val a s t" "delegations t = delegations s"
proof -
  obtain L where L: "s1 = s\<lparr>validatorsByPower := fmdrop r (validatorsByPower s), totalLoosenToken := L\<rparr>" "loose L = loosen s + e"
    using assms(8) by (elim exE conjE)
  have a: "v_OperatorAddr v' = a"
    using assms(3) by (simp add: val_ok_def)
  have t: "t = s\<lparr>totalLoosenToken := L, validators := fmupd a v' (validators s), stakePool := Some p',
      validatorsByPower := enter_index v' (fmdrop r (validatorsByPower s))\<rparr>"
    using assms(9) L(1) a by simp
  have "index_ok t"
    using assms(1,2,5,6) a by (intro index_reenter [of s a v r v' t]) (simp_all add: books_def GetValidator_def t)
  note put = books_put_val [OF assms(1-3) t assms(4,7) L(2) this]
  show "books E R0 D (n + (e - (loose_tokens v' - loose_tokens v))) (m(a := m a + v_DelegatorShares v' - v_DelegatorShares v)) t"
    "GetValidator a t = Some v'" "only_val a s t" "delegations t = delegations s"
    by (rule put)+
qed

lemmas index_ops_Ok = DeleteValidatorByPowerIndex_Ok SetValidatorByPowerIndex_Ok SetValidator_def SetPool_def

lemma AddValidatorTokensAndShares_books:
  assumes "AddValidatorTokensAndShares v k s = Ok (v', x) t" "books E R0 D n m s" "GetValidator a s = Some v" "0 \<le> k"
  shows "books E R0 D (n - k * precisionReuse) (m(a := m a + x)) t" "GetValidator a t = Some v'" "0 \<le> x"
    "only_val a s t" "delegations t = delegations s"
proof -
  have v: "val_ok a v"
    using assms(2,3) by (rule books_val)
  obtain p r p' s1 where p: "stakePool s = Some p" and r: "getValidatorPowerRank v = Some r"
    and add: "AddTokensFromDel v p k (s\<lparr>validatorsByPower := fmdrop r (validatorsByPower s)\<rparr>) = Ok (v', p', x) s1"
    and r': "v_Jailed v' \<or> getValidatorPowerRank v' \<noteq> None"
    and t: "t = s1\<lparr>validators := fmupd (v_OperatorAddr v') v' (validators s1), stakePool := Some p',
      validatorsByPower := enter_index v' (validatorsByPower s1)\<rparr>"
    using assms(1) by (auto simp: AddValidatorTokensAndShares_def index_ops_Ok op_simps)
  note spec = AddTokensFromDel_spec [OF add v assms(4)]
  let ?e = "- (if v_Status v = Bonded then k * precisionReuse else 0)"
  have L: "\<exists>L. s1 = s\<lparr>validatorsByPower := fmdrop r (validatorsByPower s), totalLoosenToken := L\<rparr> \<and> loose L = loosen s + ?e"
    using spec(5) by simp
  note put = books_change_val [OF assms(2,3) spec(4) p r r' spec(3) L t]
  have "?e - (loose_tokens v' - loose_tokens v) = - (k * precisionReuse)" "m a + v_DelegatorShares v' - v_DelegatorShares v = m a + x"
    by (simp_all add: spec(1) loose_tokens_def BondedTokens_def)
  with put(1) show "books E R0 D (n - k * precisionReuse) (m(a := m a + x)) t"
    by (metis add_uminus_conv_diff)
  show "GetValidator a t = Some v'" "only_val a s t" "delegations t = delegations s" "0 \<le> x"
    using put(2-4) spec(2) by simp_all
qed

lemma RemoveValidatorTokensAndShares_books:
  assumes "RemoveValidatorTokensAndShares v x s = Ok (v', amt) t" "books E R0 D n m s" "GetValidator a s = Some v"
    and "0 \<le> x" "x \<le> v_DelegatorShares v"
  shows "books E R0 D (n + amt) (m(a := m a - x)) t" "GetValidator a t = Some v'" "whole amt" "only_val a s t"
    "delegations t = delegations s" "v_OperatorAddr v' = a"
proof -
  have v: "val_ok a v"
    using assms(2,3) by (rule books_val)
  obtain p r p' s1 where p: "stakePool s = Some p" and r: "getValidatorPowerRank v = Some r"
    and rem: "RemoveDelShares v p x (s\<lparr>validatorsByPower := fmdrop r (validatorsByPower s)\<rparr>) = Ok (v', p', amt) s1"
    and r': "v_Jailed v' \<or> getValidatorPowerRank v' \<noteq> None"
    and t: "t = s1\<lparr>validators := fmupd (v_OperatorAddr v') v' (validators s1), stakePool := Some p',
      validatorsByPower := enter_index v' (validatorsByPower s1)\<rparr>"
    using assms(1) by (auto simp: RemoveValidatorTokensAndShares_def index_ops_Ok op_simps)
  note spec = RemoveDelShares_spec [OF rem v assms(4,5)]
  let ?e = "if v_Status v = Bonded then amt else 0"
  have L: "\<exists>L. s1 = s\<lparr>validatorsByPower := fmdrop r (validatorsByPower s), totalLoosenToken := L\<rparr> \<and> loose L = loosen s + ?e"
    using spec(6) by simp
  note put = books_change_val [OF assms(2,3) spec(5) p r r' spec(4) L t]
  have "?e - (loose_tokens v' - loose_tokens v) = amt" "m a + v_DelegatorShares v' - v_DelegatorShares v = m a - x"
    by (simp_all add: spec(1) loose_tokens_def BondedTokens_def)
  with put(1) show "books E R0 D (n + amt) (m(a := m a - x)) t"
    by metis
  show "GetValidator a t = Some v'" "only_val a s t" "delegations t = delegations s" "whole amt" "v_OperatorAddr v' = a"
    using put(2-4) spec(2,5) by (simp_all add: val_ok_def)
qed

lemma RemoveValidatorTokens_books:
  assumes "RemoveValidatorTokens v x s = Ok v' t" "books E R0 D n m s" "GetValidator a s = Some v" "whole x"
  shows "books E R0 D (n + x) m t"
proof -
  have v: "val_ok a v"
    using assms(2,3) by (rule books_val)
  obtain p r p' s1 where p: "stakePool s = Some p" and r: "getValidatorPowerRank v = Some r"
    and rem: "RemoveTokens v p x (s\<lparr>validatorsByPower := fmdrop r (validatorsByPower s)\<rparr>) = Ok (v', p') s1"
    and r': "v_Jailed v' \<or> getValidatorPowerRank v' \<noteq> None"
    and t: "t = s1\<lparr>validators := fmupd (v_OperatorAddr v') v' (validators s1), stakePool := Some p',
      validatorsByPower := enter_index v' (validatorsByPower s1)\<rparr>"
    using assms(1) by (auto simp: RemoveValidatorTokens_def index_ops_Ok op_simps)
  note spec = RemoveTokens_spec [OF rem v assms(4)]
  let ?e = "if v_Status v = Bonded then x else 0"
  have L: "\<exists>L. s1 = s\<lparr>validatorsByPower := fmdrop r (validatorsByPower s), totalLoosenToken := L\<rparr> \<and> loose L = loosen s + ?e"
    using spec(5) by simp
  note put = books_change_val [OF assms(2,3) spec(4) p r r' spec(3) L t]
  have "?e - (loose_tokens v' - loose_tokens v) = x" "m(a := m a + v_DelegatorShares v' - v_DelegatorShares v) = m"
    by (simp_all add: spec(1) loose_tokens_def BondedTokens_def)
  with put(1) show ?thesis
    by metis
qed

text \<open>Storing a validator whose stake did not change, and the two changes of the jailed flag.\<close>

lemma books_same_stake:
  assumes "books E R0 D n m s" "GetValidator a s = Some v" "same_stake v' v" "index_ok t"
    and "t = s\<lparr>validators := fmupd a v' (validators s), validatorsByPower := x\<rparr>"
  shows "books E R0 D n m t" "GetValidator a t = Some v'" "only_val a s t" "delegations t = delegations s"
proof -
  have "balanced (n + d + 0) m (core E R0 t)" if "balanced (n + d) m (core E R0 s)" for d
    using balanced_same_stake [OF that _ assms(3), of a] assms(2,5) by (simp add: GetValidator_def)
  then show "books E R0 D n m t"
    using books_lift [OF assms(1) _ assms(4), of 0 m] assms(1,5) by (simp add: books_def)
qed (simp_all add: assms(5) GetValidator_def only_val_def)

lemma rank_cong:
  "v_Tokens v = v_Tokens w \<Longrightarrow> v_OperatorAddr v = v_OperatorAddr w \<Longrightarrow> getValidatorPowerRank v = getValidatorPowerRank w"
  by (simp add: getValidatorPowerRank_def GetPotentialPower_def)

lemma jailValidator_books:
  assumes "jailValidator v s = Ok u t" "books E R0 D n m s" "GetValidator a s = Some v"
  shows "books E R0 D n m t" "GetValidator a t = Some (v\<lparr>v_Jailed := True\<rparr>)" "only_val a s t" "delegations t = delegations s"
proof -
  let ?v = "v\<lparr>v_Jailed := True\<rparr>"
  have a: "v_OperatorAddr v = a"
    using books_val [OF assms(2,3)] by (simp add: val_ok_def)
  obtain k where k: "getValidatorPowerRank ?v = Some k"
    and t: "t = s\<lparr>validators := fmupd a ?v (validators s), validatorsByPower := fmdrop k (validatorsByPower s)\<rparr>"
    using assms(1) a by (auto simp: jailValidator_def index_ops_Ok op_simps Let_def split: if_splits)
  have "getValidatorPowerRank v = Some k"
    using k rank_cong [of ?v v] by simp
  then have "index_ok t"
    using assms(2,3) by (intro index_leave(1) [of s a v k t]) (simp_all add: books_def GetValidator_def t)
  then show "books E R0 D n m t" "GetValidator a t = Some (v\<lparr>v_Jailed := True\<rparr>)" "only_val a s t" "delegations t = delegations s"
    using books_same_stake [OF assms(2,3) _ _ t] by (simp_all add: same_stake_def)
qed

lemma index_jailed:
  "index_ok s \<Longrightarrow> fmlookup (validators s) a = Some v \<Longrightarrow> v_Jailed v \<Longrightarrow> a |\<notin>| fmran (validatorsByPower s)"
  by (auto elim!: fmranE dest!: index_okD)

lemma unjailValidator_books:
  assumes "unjailValidator v s = Ok u t" "books E R0 D n m s" "GetValidator a s = Some v"
  shows "books E R0 D n m t"
proof -
  let ?v = "v\<lparr>v_Jailed := False\<rparr>"
  have a: "v_OperatorAddr v = a"
    using books_val [OF assms(2,3)] by (simp add: val_ok_def)
  have jailed: "v_Jailed v" and k: "getValidatorPowerRank ?v \<noteq> None"
    and t: "t = s\<lparr>validators := fmupd a ?v (validators s), validatorsByPower := enter_index ?v (validatorsByPower s)\<rparr>"
    using assms(1) a by (auto simp: unjailValidator_def index_ops_Ok op_simps Let_def split: if_splits)
  then have "index_ok t"
    using assms(2,3) a index_jailed [of s a v] by (intro index_enter [of s a ?v t]) (simp_all add: books_def GetValidator_def)
  then show ?thesis
    using books_same_stake(1) [OF assms(2,3) _ _ t] by (simp add: same_stake_def)
qed

text \<open>Coins that leave an account are in hand; coins that enter one were.\<close>

definition stake_stores :: "'z stake_state_scheme \<Rightarrow> _" where
  "stake_stores s =
     ((stakePool s, lastTotalPower s, lastValidatorPowers s, validators s, validatorsByConsAddr s, validatorsByPower s),
      (delegations s, unbondings s, unbondingsByVal s, redelegations s, redelegationsBySrc s, redelegationsByDst s),
      unbondingQueue s, redelegationQueue s, validatorQueue s, stakeParams s)"

lemma same_stores:
  assumes "stake_stores t = stake_stores s"
  shows "stakePool t = stakePool s" "validators t = validators s" "validatorsByPower t = validatorsByPower s"
    "delegations t = delegations s" "unbondings t = unbondings s" "redelegations t = redelegations s" "stakeParams t = stakeParams s"
    "GetValidator a t = GetValidator a s" "GetDelegation x a t = GetDelegation x a s" "only_val a s t"
  using assms by (simp_all add: stake_stores_def GetValidator_def GetDelegation_def only_val_def)

lemma books_stores:
  assumes "books E R0 D n m s" "accounts_ok t" "stake_stores t = stake_stores s" "slack E R0 t = slack E R0 s + e"
  shows "books E R0 D (n + e) m t"
proof (rule books_lift [OF assms(1,2)])
  show "index_ok t"
    using assms(1) same_stores [OF assms(3)] index_ok_frame [of t s] by (simp add: books_def)
  have "core E R0 t = (core E R0 s)\<lparr>c_slack := slack E R0 s + e\<rparr>"
    using same_stores [OF assms(3)] assms(4) by (simp add: core_def)
  then show "balanced (n + d + e) m (core E R0 t)" if "balanced (n + d) m (core E R0 s)" for d
    using balanced_slack [OF that, of e] by simp
qed

lemma same_more_stores:
  fixes s t :: "'z stake_state_scheme"
  assumes "auth_state.more t = auth_state.more s"
  shows "stake_stores t = stake_stores s" "stake_state.more t = stake_state.more s"
  using assms by (cases s; cases t; simp add: stake_stores_def)+

lemma books_moved:
  fixes s t :: "'z stake_state_scheme"
  assumes "books E R0 D n m s" "accounts_ok t" "ledger t = (ledger s)(x := f)" "x \<noteq> BurnedCoinsAccAddr E"
    and "rest_of t = rest_of s" "supply_of t = supply_of s" "total_coins IrisAtto t = total_coins IrisAtto s - k"
  shows "books E R0 D (n + k * precisionReuse) m t" "stake_stores t = stake_stores s"
proof -
  have more: "auth_state.more t = auth_state.more s"
    using assms(5) by (simp add: rest_of_def)
  then show stores: "stake_stores t = stake_stores s"
    by (rule same_more_stores)
  have "ledger t (BurnedCoinsAccAddr E) IrisAtto = ledger s (BurnedCoinsAccAddr E) IrisAtto"
    using assms(4) by (simp add: assms(3))
  then have "slack E R0 t = slack E R0 s + k * precisionReuse"
    using assms(5,6) same_more_stores(2) [OF more] by (simp add: assms(7) ledger_def slack_def rest_of_def supply_of_def algebra_simps)
  then show "books E R0 D (n + k * precisionReuse) m t"
    by (rule books_stores [OF assms(1,2) stores])
qed

lemma subtractCoins_books:
  assumes "subtractCoins x cs s = Ok r t" "books E R0 D n m s" "x \<noteq> BurnedCoinsAccAddr E"
  shows "books E R0 D (n + bal cs IrisAtto * precisionReuse) m t \<and> stake_stores t = stake_stores s"
proof -
  have "accounts_ok s"
    using assms(2) by (simp add: books_def)
  then show ?thesis
  proof (cases rule: subtractCoins_cases [of s x cs])
    case (ok new t')
    with assms(1) have "t' = t"
      by simp
    with ok show ?thesis
      using books_moved [OF assms(2) _ _ assms(3), of t "\<lambda>d. ledger s x d - bal cs d" "bal cs IrisAtto"] by (simp add: debit_def)
  qed (use assms(1) in simp_all)
qed

lemma addCoins_books:
  assumes "addCoins E x cs s = Ok r t" "books E R0 D n m s" "x \<noteq> BurnedCoinsAccAddr E" "ranged cs"
  shows "books E R0 D (n - bal cs IrisAtto * precisionReuse) m t \<and> stake_stores t = stake_stores s"
proof -
  have "accounts_ok s"
    using assms(2) by (simp add: books_def)
  then show ?thesis
  proof (cases rule: addCoins_cases [of s E x cs])
    case (ok new amt' t')
    with assms(1) have "t' = t"
      by simp
    with ok show ?thesis
      using books_moved [OF assms(2) _ _ assms(3), of t "\<lambda>d. ledger s x d + bal cs d" "- bal cs IrisAtto"] assms(3,4)
      by (simp add: credit_def)
  qed (use assms(1) in simp_all)
qed

text \<open>Queues, powers and the other indexes are invisible.\<close>

lemma books_frame [simp]:
  "books E R0 D n m (s\<lparr>lastTotalPower := x1\<rparr>) = books E R0 D n m s"
  "books E R0 D n m (s\<lparr>lastValidatorPowers := x2\<rparr>) = books E R0 D n m s"
  "books E R0 D n m (s\<lparr>validatorsByConsAddr := x3\<rparr>) = books E R0 D n m s"
  "books E R0 D n m (s\<lparr>unbondingsByVal := x4\<rparr>) = books E R0 D n m s"
  "books E R0 D n m (s\<lparr>redelegationsBySrc := x5\<rparr>) = books E R0 D n m s"
  "books E R0 D n m (s\<lparr>redelegationsByDst := x6\<rparr>) = books E R0 D n m s"
  "books E R0 D n m (s\<lparr>unbondingQueue := x7\<rparr>) = books E R0 D n m s"
  "books E R0 D n m (s\<lparr>redelegationQueue := x8\<rparr>) = books E R0 D n m s"
  "books E R0 D n m (s\<lparr>validatorQueue := x9\<rparr>) = books E R0 D n m s"
  by (simp_all add: books_def index_ok_def)

lemma truncate_whole:
  assumes "Dec_TruncateInt x = Some r" "whole x"
  shows "r * precisionReuse = x" "in_range r" "0 \<le> r"
proof -
  have r: "r = x div precisionReuse" "in_range r"
    using assms by (auto simp: Dec_TruncateInt_def chopPrecisionAndTruncate_def whole_def sdiv_smod_nonneg precision_pos)
  then show "r * precisionReuse = x" "in_range r" "0 \<le> r"
    using assms(2) precision_pos by (simp_all add: whole_div) (simp add: whole_def pos_imp_zdiv_nonneg_iff)
qed

lemma books_put_ubd:
  assumes "books E R0 D n m s" "ubd_ok (BurnedCoinsAccAddr E) k u"
    and "old = (case fmlookup (unbondings s) k of None \<Rightarrow> 0 | Some x \<Rightarrow> Amount (ubd_Balance x))"
  shows "books E R0 D (n - (Amount (ubd_Balance u) - old) * precisionReuse) m (s\<lparr>unbondings := fmupd k u (unbondings s)\<rparr>)"
proof -
  let ?t = "s\<lparr>unbondings := fmupd k u (unbondings s)\<rparr>" and ?e = "- ((Amount (ubd_Balance u) - old) * precisionReuse)"
  have "balanced (n + d + ?e) m (core E R0 ?t)" if "balanced (n + d) m (core E R0 s)" for d
    using balanced_put_ubd [OF that, of k u old] assms(2,3) by simp
  moreover have "accounts_ok ?t" "index_ok ?t"
    using assms(1) index_ok_frame [of ?t s] by (simp_all add: books_def)
  ultimately show ?thesis
    using books_lift [OF assms(1), of ?t ?e m] by simp
qed

lemma books_drop_ubd:
  assumes "books E R0 D n m s" "fmlookup (unbondings s) k = Some u"
  shows "books E R0 D (n + Amount (ubd_Balance u) * precisionReuse) m (s\<lparr>unbondings := fmdrop k (unbondings s)\<rparr>)"
proof -
  let ?t = "s\<lparr>unbondings := fmdrop k (unbondings s)\<rparr>"
  have "balanced (n + d + Amount (ubd_Balance u) * precisionReuse) m (core E R0 ?t)" if "balanced (n + d) m (core E R0 s)" for d
    using balanced_drop_ubd [OF that, of k u] assms(2) by simp
  moreover have "accounts_ok ?t" "index_ok ?t"
    using assms(1) index_ok_frame [of ?t s] by (simp_all add: books_def)
  ultimately show ?thesis
    using books_lift [OF assms(1), of ?t _ m] by simp
qed

lemma books_reds:
  assumes "books E R0 D n m s"
  shows "red_ok k r \<Longrightarrow> books E R0 D n m (s\<lparr>redelegations := fmupd k r (redelegations s)\<rparr>)"
    "books E R0 D n m (s\<lparr>redelegations := fmdrop k (redelegations s)\<rparr>)"
proof -
  have "books E R0 D n m (s\<lparr>redelegations := x\<rparr>)"
    if "\<And>d. balanced (n + d) m (core E R0 s) \<Longrightarrow> balanced (n + d) m ((core E R0 s)\<lparr>c_reds := x\<rparr>)" for x
    using books_lift [OF assms, of "s\<lparr>redelegations := x\<rparr>" 0 m] that assms index_ok_frame [of "s\<lparr>redelegations := x\<rparr>" s]
    by (simp add: books_def)
  then show "red_ok k r \<Longrightarrow> books E R0 D n m (s\<lparr>redelegations := fmupd k r (redelegations s)\<rparr>)"
    "books E R0 D n m (s\<lparr>redelegations := fmdrop k (redelegations s)\<rparr>)"
    using balanced_reds [of _ m "core E R0 s"] by simp_all
qed

lemma DecreaseTotalLoosenToken_books:
  assumes "DecreaseTotalLoosenToken [\<lparr>Denom = StakeDenom, Amount = r\<rparr>] s = Ok u t" "0 \<le> r" "books E R0 D n m s"
  shows "books E R0 D (n - r * precisionReuse) m t" "stake_stores t = stake_stores s"
proof -
  obtain L where L: "t = s\<lparr>totalLoosenToken := L\<rparr>" "loose L = loosen s - r * precisionReuse"
    using DecreaseTotalLoosenToken_spec [OF assms(1,2)] by (elim exE conjE)
  then show stores: "stake_stores t = stake_stores s"
    by (simp add: stake_stores_def)
  have "slack E R0 t = slack E R0 s + - (r * precisionReuse)"
    by (simp add: L slack_def total_coins_def balance_def GetAccount_def)
  moreover have "accounts_ok t"
    using assms(3) by (simp add: L books_def accounts_ok_def)
  ultimately show "books E R0 D (n - r * precisionReuse) m t"
    using books_stores [OF assms(3) _ stores, of "- (r * precisionReuse)"] by simp
qed

end
