(* ===== verification/Stake_Ledger.thy ===== *)
theory Stake_Ledger
  imports Stake_Books
begin

text \<open>
  The staking operations keep the books: delegation, unbonding, redelegation, slashing, the message
  handler and the end blocker. They call the hooks of other modules, so the proofs rest on a contract
  for hooks, \<open>staking_hooks\<close>.
\<close>

lemma those_map_Some: "those (map f xs) = Some ys \<longleftrightarrow> list_all2 (\<lambda>x y. f x = Some y) xs ys"
  by (induction xs arbitrary: ys) (auto simp: list_all2_Cons1 split: option.splits)

lemma those_map_in: "those (map f xs) = Some ys \<Longrightarrow> y \<in> set ys \<Longrightarrow> \<exists>x\<in>set xs. f x = Some y"
  by (induction xs arbitrary: ys) (auto split: option.splits)

section \<open>The contract of the hooks\<close>

definition hook_call :: "'s StakingHooks option \<Rightarrow> 's \<Rightarrow> 's \<Rightarrow> bool" where
  "hook_call H s t \<longleftrightarrow>
     (\<exists>a. OnValidatorCreated H a s = Ok () t) \<or> (\<exists>a. OnValidatorModified H a s = Ok () t) \<or>
     (\<exists>c a. OnValidatorRemoved H c a s = Ok () t) \<or> (\<exists>c a. OnValidatorBonded H c a s = Ok () t) \<or>
     (\<exists>c a. OnValidatorPowerDidChange H c a s = Ok () t) \<or> (\<exists>c a. OnValidatorBeginUnbonding H c a s = Ok () t) \<or>
     (\<exists>x a. OnDelegationCreated H x a s = Ok () t) \<or> (\<exists>x a. OnDelegationSharesModified H x a s = Ok () t) \<or>
     (\<exists>x a. OnDelegationRemoved H x a s = Ok () t)"

lemma hook_callI:
  "OnValidatorCreated H a s = Ok u t \<Longrightarrow> hook_call H s t" "OnValidatorModified H a s = Ok u t \<Longrightarrow> hook_call H s t"
  "OnValidatorRemoved H c a s = Ok u t \<Longrightarrow> hook_call H s t" "OnValidatorBonded H c a s = Ok u t \<Longrightarrow> hook_call H s t"
  "OnValidatorPowerDidChange H c a s = Ok u t \<Longrightarrow> hook_call H s t" "OnValidatorBeginUnbonding H c a s = Ok u t \<Longrightarrow> hook_call H s t"
  "OnDelegationCreated H x a s = Ok u t \<Longrightarrow> hook_call H s t" "OnDelegationSharesModified H x a s = Ok u t \<Longrightarrow> hook_call H s t"
  "OnDelegationRemoved H x a s = Ok u t \<Longrightarrow> hook_call H s t"
  by (auto simp: hook_call_def)

text \<open>A change outside the staking stores shifts the drift by the change of the slack.\<close>

lemma books_drift:
  assumes "books E R0 D n m s" "accounts_ok t" "stake_stores t = stake_stores s" "slack E R0 t - slack E R0 s \<in> D"
    and drift_add: "\<And>x y. x \<in> D \<Longrightarrow> y \<in> D \<Longrightarrow> x + y \<in> D"
  shows "books E R0 D n m t"
proof -
  obtain d where d: "d \<in> D" "balanced (n + d) m (core E R0 s)"
    using assms(1) by (auto simp: books_def)
  let ?e = "slack E R0 t - slack E R0 s"
  have "books E R0 {d} n m s"
    using assms(1) d(2) by (simp add: books_def)
  then have "books E R0 {d} (n + ?e) m t"
    using assms(2,3) by (intro books_stores) simp_all
  then have "books E R0 {d + ?e} n m t"
    by (simp add: books_def algebra_simps)
  moreover have "d + ?e \<in> D"
    using drift_add d(1) assms(4) by blast
  ultimately show ?thesis
    by (auto simp: books_def)
qed

text \<open>A hook writes no staking store, keeps the accounts well formed, and moves the slack by an amount of \<open>D\<close>.\<close>

locale staking_hooks =
  fixes E :: "'e stake_externals_scheme" and H :: "'z stake_state_scheme StakingHooks option"
    and R0 :: "'z \<Rightarrow> Dec" and D :: "Dec set"
  assumes no_drift: "0 \<in> D" and drift_add: "x \<in> D \<Longrightarrow> y \<in> D \<Longrightarrow> x + y \<in> D"
    and hook_law: "hook_call H s t \<Longrightarrow> accounts_ok s \<Longrightarrow>
      accounts_ok t \<and> stake_stores t = stake_stores s \<and> slack E R0 t - slack E R0 s \<in> D"
begin

lemma hook_books:
  assumes "hook_call H s t" "books E R0 D n m s"
  shows "books E R0 D n m t" "stake_stores t = stake_stores s"
proof -
  have "accounts_ok s"
    using assms(2) by (simp add: books_def)
  note law = hook_law [OF assms(1) this]
  then show "books E R0 D n m t" "stake_stores t = stake_stores s"
    using books_drift [OF assms(2)] drift_add by simp_all
qed

lemma SetDelegation_books:
  assumes "books E R0 D n m s" "d_ValidatorAddr d = a" "0 \<le> d_Shares d"
    and "old = (case fmlookup (delegations s) (d_DelegatorAddr d, a) of None \<Rightarrow> 0 | Some x \<Rightarrow> d_Shares x)"
  shows "books E R0 D n (m(a := m a - (d_Shares d - old))) (s\<lparr>delegations := fmupd (d_DelegatorAddr d, a) d (delegations s)\<rparr>)"
proof -
  let ?t = "s\<lparr>delegations := fmupd (d_DelegatorAddr d, a) d (delegations s)\<rparr>"
  have "balanced (n + x + 0) (m(a := m a - (d_Shares d - old))) (core E R0 ?t)" if "balanced (n + x) m (core E R0 s)" for x
    using balanced_put_del [OF that assms(2,3), of old] assms(4) by simp
  moreover have "accounts_ok ?t" "index_ok ?t"
    using assms(1) index_ok_frame [of ?t s] by (simp_all add: books_def)
  ultimately show ?thesis
    using books_lift [OF assms(1), of ?t 0 "m(a := m a - (d_Shares d - old))"] by simp
qed

lemma Delegate_books:
  assumes "Delegate C H x amt v sub s = Ok shares t" "books E R0 D n m s" "GetValidator a s = Some v" "0 \<le> Amount amt"
    and "sub \<Longrightarrow> Denom amt = StakeDenom \<and> x \<noteq> BurnedCoinsAccAddr E"
  shows "books E R0 D (if sub then n else n - Amount amt * precisionReuse) m t" "0 \<le> shares" "only_val a s t"
proof -
  have a: "v_OperatorAddr v = a"
    using books_val [OF assms(2,3)] by (simp add: val_ok_def)
  let ?new = "\<lparr>d_DelegatorAddr = x, d_ValidatorAddr = a, d_Shares = 0, d_Height = 0\<rparr>"
  define d where "d = (case GetDelegation x a s of None \<Rightarrow> ?new | Some d \<Rightarrow> d)"
  obtain s1 s2 s3 r v' sh where hook: "hook_call H s s1"
    and pay: "(if sub then subtractCoins (d_DelegatorAddr d) [amt] else ret []) s1 = Ok r s2"
    and add: "AddValidatorTokensAndShares v (Amount amt) s2 = Ok (v', shares) s3"
    and sh: "Dec_Add (d_Shares d) shares = Some sh" and
    t: "t = s3\<lparr>delegations := fmupd (d_DelegatorAddr d, d_ValidatorAddr d) (d\<lparr>d_Shares := sh, d_Height := ctx_Height C\<rparr>) (delegations s3)\<rparr>"
    using assms(1) a
    by (auto simp: Delegate_def Let_def op_simps SetDelegation_def d_def dest: hook_callI split: if_splits option.splits)
  have d: "d_DelegatorAddr d = x" "d_ValidatorAddr d = a" "0 \<le> d_Shares d"
    using assms(2) by (auto simp: d_def books_def balanced_def GetDelegation_def fmpred_iff del_ok_def split: option.split)
  note h = hook_books [OF hook assms(2)]
  let ?n = "if sub then n + Amount amt * precisionReuse else n"
  have paid: "books E R0 D ?n m s2 \<and> stake_stores s2 = stake_stores s1"
    using pay subtractCoins_books [OF _ h(1), of x "[amt]" r s2] assms(5) d(1) h(1) by (auto simp: StakeDenom_def op_simps split: if_splits)
  then have b2: "books E R0 D ?n m s2" and stores: "stake_stores s2 = stake_stores s"
    using h(2) by simp_all
  have v2: "GetValidator a s2 = Some v"
    using assms(3) same_stores [OF stores] by simp
  note added = AddValidatorTokensAndShares_books [OF add b2 v2 assms(4)]
  let ?d = "d\<lparr>d_Shares := sh, d_Height := ctx_Height C\<rparr>"
  have sh': "sh = d_Shares d + shares" "0 \<le> sh"
    using Dec_Add_SomeD [OF sh] d(3) added(3) by simp_all
  have old: "d_Shares d = (case fmlookup (delegations s3) (d_DelegatorAddr ?d, a) of None \<Rightarrow> 0 | Some x \<Rightarrow> d_Shares x)"
    using same_stores [OF stores] d(1) added(5) by (simp add: d_def GetDelegation_def split: option.split)
  show "books E R0 D (if sub then n else n - Amount amt * precisionReuse) m t"
    using SetDelegation_books [OF added(1) _ _ old] d sh' by (cases sub) (simp_all add: t)
  show "0 \<le> shares" "only_val a s t"
    using added(3,4) only_val_trans [OF same_stores(10) [OF stores] added(4)] by (simp_all add: t only_val_def GetValidator_def)
qed

lemma RemoveValidator_books:
  assumes "RemoveValidator E H a s = Ok u t" "books E R0 D n m s"
    and "\<And>v. GetValidator a s = Some v \<Longrightarrow> v_DelegatorShares v = 0"
  shows "books E R0 D n m t \<and> only_val a s t"
proof (cases "GetValidator a s")
  case None
  then show ?thesis
    using assms(1,2) by (simp add: RemoveValidator_def op_simps only_val_def)
next
  case (Some v)
  then obtain k s1 where k: "getValidatorPowerRank v = Some k" and hook: "hook_call H s1 t"
    and s1: "s1 = s\<lparr>validators := fmdrop a (validators s), validatorsByConsAddr := fmdrop (ConsAddr E v) (validatorsByConsAddr s),
      validatorsByPower := fmdrop k (validatorsByPower s)\<rparr>"
    using assms(1) by (auto simp: RemoveValidator_def op_simps index_ops_Ok dest: hook_callI split: if_splits)
  have idx: "index_ok s1"
    using assms(2) Some k by (intro index_leave(1) [of s a v k s1]) (simp_all add: books_def GetValidator_def s1)
  have "balanced (n + d + 0) m (core E R0 s1)" if "balanced (n + d) m (core E R0 s)" for d
    using balanced_drop_val [OF that, of a v] Some assms(3) by (simp add: s1 GetValidator_def)
  then have "books E R0 D n m s1"
    using books_lift [OF assms(2) _ idx, of 0 m] assms(2) by (simp add: books_def s1)
  note h = hook_books [OF hook this]
  have "only_val a s s1"
    by (simp add: only_val_def s1 GetValidator_def)
  then show ?thesis
    using h(1) only_val_trans [OF _ same_stores(10) [OF h(2)]] by blast
qed

lemma RemoveDelegation_books:
  assumes "RemoveDelegation H d s = Ok u t" "books E R0 D n m s" "d_DelegatorAddr d = x" "d_ValidatorAddr d = a"
    and "GetDelegation x a s = Some d0"
  shows "books E R0 D n (m(a := m a + d_Shares d0)) t" "only_val a s t" "GetValidator a t = GetValidator a s"
proof -
  obtain s1 where hook: "hook_call H s s1" and t: "t = s1\<lparr>delegations := fmdrop (x, a) (delegations s1)\<rparr>"
    using assms(1,3,4) by (auto simp: RemoveDelegation_def op_simps dest: hook_callI)
  note h = hook_books [OF hook assms(2)]
  have "balanced (n + e + 0) (m(a := m a + d_Shares d0)) (core E R0 t)" if "balanced (n + e) m (core E R0 s1)" for e
    using balanced_drop_del [OF that, of x a d0] assms(5) same_stores [OF h(2)] by (simp add: t GetDelegation_def)
  moreover have "accounts_ok t" "index_ok t"
    using h(1) index_ok_frame [of t s1] by (simp_all add: books_def t)
  ultimately show "books E R0 D n (m(a := m a + d_Shares d0)) t"
    using books_lift [OF h(1), of t 0 "m(a := m a + d_Shares d0)"] by simp
  show "only_val a s t" "GetValidator a t = GetValidator a s"
    using same_stores [OF h(2)] by (simp_all add: t only_val_def GetValidator_def)
qed

lemma books_del:
  "books E R0 D n m s \<Longrightarrow> GetDelegation x a s = Some d \<Longrightarrow> d_DelegatorAddr d = x \<and> d_ValidatorAddr d = a \<and> 0 \<le> d_Shares d"
  by (auto simp: books_def balanced_def GetDelegation_def fmpred_iff del_ok_def)

lemma books_ubd:
  "books E R0 D n m s \<Longrightarrow> fmlookup (unbondings s) k = Some u \<Longrightarrow> ubd_ok (BurnedCoinsAccAddr E) k u"
  by (cases k) (auto simp: books_def balanced_def fmpred_iff)

lemma books_red:
  "books E R0 D n m s \<Longrightarrow> fmlookup (redelegations s) k = Some r \<Longrightarrow> red_ok k r"
  by (cases k) (auto simp: books_def balanced_def fmpred_iff)

lemma books_shares_le:
  assumes "books E R0 D n m s" "GetValidator a s = Some v"
  shows "m a \<le> v_DelegatorShares v"
proof -
  have "\<exists>d. balanced (n + d) m (core E R0 s)"
    using assms(1) by (auto simp: books_def)
  then have eq: "val_shares (core E R0 s) a = del_shares (core E R0 s) a + m a" and ok: "fmpred del_ok (delegations s)"
    by (auto simp: balanced_def)
  have "0 \<le> del_shares (core E R0 s) a"
    using ok by (auto simp: del_shares_def fmpred_iff del_ok_def intro!: fm_sum_nonneg)
  then show ?thesis
    using eq assms(2) by (simp add: val_shares_def GetValidator_def)
qed

text \<open>Taking shares out of a delegation: a self-delegation that ends jails the validator.\<close>

lemma shrink_delegation_books:
  assumes "shrink_delegation C H d left v s = Ok v' t"
    and "books E R0 D n m s" "GetDelegation x a s = Some d" "GetValidator a s = Some v" "left = d_Shares d - shares" "0 \<le> left"
  shows "books E R0 D n (m(a := m a + shares)) t \<and> GetValidator a t = Some v' \<and> only_val a s t"
proof -
  note d = books_del [OF assms(2,3)]
  have a: "v_OperatorAddr v = a"
    using books_val [OF assms(2,4)] by (simp add: val_ok_def)
  show ?thesis
  proof (cases "left = 0")
    case True
    obtain s1 where s1: "books E R0 D n m s1" "GetValidator a s1 = Some v'" "only_val a s s1" "delegations s1 = delegations s"
      and rem: "RemoveDelegation H (d\<lparr>d_Shares := left\<rparr>) s1 = Ok () t"
    proof (cases "d_DelegatorAddr d = v_OperatorAddr v \<and> \<not> v_Jailed v")
      case c: True
      then obtain s1 where jail: "jailValidator v s = Ok () s1" and v': "GetValidator a s1 = Some v'"
        and rem: "RemoveDelegation H (d\<lparr>d_Shares := left\<rparr>) s1 = Ok () t"
        using assms(1) True a by (auto simp: shrink_delegation_def op_simps mustGetValidator_def)
      show thesis
        using jailValidator_books [OF jail assms(2,4)] by (intro that [OF _ v' _ _ rem])
    next
      case False
      then have "RemoveDelegation H (d\<lparr>d_Shares := left\<rparr>) s = Ok () t" "v' = v"
        using assms(1) True by (auto simp: shrink_delegation_def op_simps)
      then show thesis
        using assms(2,4) by (intro that [of s]) (simp_all add: only_val_def)
    qed
    then have "GetDelegation x a s1 = Some d"
      using assms(3) by (simp add: GetDelegation_def)
    then show ?thesis
      using RemoveDelegation_books [OF rem, of n m x a d] s1 d True assms(5) only_val_trans [of a s s1 t] by simp
  next
    case False
    then have t: "t = s\<lparr>delegations := fmupd (x, a) (d\<lparr>d_Shares := left, d_Height := ctx_Height C\<rparr>) (delegations s)\<rparr>" "v' = v"
      using assms(1) d by (auto simp: shrink_delegation_def op_simps SetDelegation_def)
    let ?d = "d\<lparr>d_Shares := left, d_Height := ctx_Height C\<rparr>"
    have old: "d_Shares d = (case fmlookup (delegations s) (d_DelegatorAddr ?d, a) of None \<Rightarrow> 0 | Some x \<Rightarrow> d_Shares x)"
      using d assms(3) by (simp add: GetDelegation_def)
    have "books E R0 D n (m(a := m a - (left - d_Shares d))) t"
      using SetDelegation_books [OF assms(2) _ _ old] d assms(6) by (simp add: t)
    moreover have "m a - (left - d_Shares d) = m a + shares"
      by (simp add: assms(5))
    ultimately show ?thesis
      using assms(4) by (simp add: t only_val_def GetValidator_def)
  qed
qed

lemma unbond_books:
  assumes "unbond E C H x a shares s = Ok amt t" "books E R0 D n m s" "0 \<le> shares" "0 \<le> m a"
  shows "books E R0 D (n + amt) m t" "whole amt" "only_val a s t"
proof -
  obtain d v left v1 v2 s1 s2 s3 where d: "GetDelegation x a s = Some d" and hook: "hook_call H s s1"
    and le: "shares \<le> d_Shares d" and v: "GetValidator a s1 = Some v" and left: "Dec_Sub (d_Shares d) shares = Some left"
    and shrink: "shrink_delegation C H d left v s1 = Ok v1 s2"
    and rem: "RemoveValidatorTokensAndShares v1 shares s2 = Ok (v2, amt) s3"
    and fin: "remove_if_empty E H v2 s3 = Ok () t"
    using assms(1) by (auto simp: unbond_def op_simps dest!: hook_callI split: option.splits if_splits)
  note h = hook_books [OF hook assms(2)]
  have d1: "GetDelegation x a s1 = Some d"
    using d same_stores [OF h(2)] by simp
  have s2: "books E R0 D n (m(a := m a + shares)) s2" "GetValidator a s2 = Some v1" "only_val a s1 s2"
    using shrink_delegation_books [OF shrink h(1) d1 v Dec_Sub_SomeD [OF left]] le Dec_Sub_SomeD [OF left] by simp_all
  have "shares \<le> v_DelegatorShares v1"
    using books_shares_le [OF s2(1,2)] assms(4) by simp
  note r = RemoveValidatorTokensAndShares_books [OF rem s2(1,2) assms(3) this]
  have s3: "books E R0 D (n + amt) m s3"
    using r(1) by simp
  have "books E R0 D (n + amt) m t \<and> only_val a s3 t"
    using fin RemoveValidator_books [OF _ s3, of a "()" t] r(2,6) s3
    by (auto simp: remove_if_empty_def op_simps only_val_def split: if_splits)
  then show "books E R0 D (n + amt) m t" "only_val a s t"
    using only_val_trans [OF only_val_trans [OF only_val_trans [OF same_stores(10) [OF h(2)] s2(3)] r(4)]] by simp_all
  show "whole amt"
    by (rule r(3))
qed

lemma BeginUnbonding_books:
  assumes "BeginUnbonding E C H x a shares s = Ok ubd t" "books E R0 D n (\<lambda>_. 0) s" "0 \<le> shares" "x \<noteq> BurnedCoinsAccAddr E"
  shows "books E R0 D n (\<lambda>_. 0) t"
proof -
  obtain amt s1 r time where new: "fmlookup (unbondings s) (x, a) = None" and un: "unbond E C H x a shares s = Ok amt s1"
    and r: "Dec_TruncateInt amt = Some r"
    and ubd: "ubd = \<lparr>ubd_TxHash = ctx_Trigger C, ubd_DelegatorAddr = x, ubd_ValidatorAddr = a, ubd_CreationHeight = ctx_Height C,
        ubd_MinTime = time, ubd_InitialBalance = \<lparr>Denom = StakeDenom, Amount = r\<rparr>, ubd_Balance = \<lparr>Denom = StakeDenom, Amount = r\<rparr>\<rparr>"
    and t: "t = s1\<lparr>unbondings := fmupd (x, a) ubd (unbondings s1), unbondingsByVal := finsert (a, x) (unbondingsByVal s1),
        unbondingQueue := fmupd time (fm_get [] (unbondingQueue s1) time @ [(x, a)]) (unbondingQueue s1)\<rparr>"
    using assms(1) by (auto simp: BeginUnbonding_def GetUnbondingDelegation_def Let_def op_simps NewCoin_def
        SetUnbondingDelegation_def InsertUnbondingQueue_def bind_eq_Some_conv split: if_splits)
  note u = unbond_books [OF un assms(2,3)]
  note tr = truncate_whole [OF r u(2)]
  have "books E R0 D (n + amt - (Amount (ubd_Balance ubd) - 0) * precisionReuse) (\<lambda>_. 0) (s1\<lparr>unbondings := fmupd (x, a) ubd (unbondings s1)\<rparr>)"
    using u(1,3) new tr(2,3) assms(4) by (intro books_put_ubd) (simp_all add: ubd ubd_ok_def only_val_def)
  then show ?thesis
    using tr(1) by (simp add: t ubd)
qed

lemma CompleteUnbonding_books:
  assumes "ignore_err (CompleteUnbonding E x a) s = Ok u t" "books E R0 D n m s"
  shows "books E R0 D n m t"
proof (cases "fmlookup (unbondings s) (x, a)")
  case None
  then show ?thesis
    using assms by (auto simp: CompleteUnbonding_def GetUnbondingDelegation_def op_simps)
next
  case (Some ubd)
  then have ok: "ubd_ok (BurnedCoinsAccAddr E) (x, a) ubd"
    using assms(2) by (auto simp: books_def balanced_def fmpred_iff)
  have "accounts_ok s"
    using assms(2) by (simp add: books_def)
  then have no_err: "addCoins E x [ubd_Balance ubd] s \<noteq> Err e t" for e
    by (cases rule: addCoins_cases [of s E x "[ubd_Balance ubd]"]) simp_all
  obtain r s1 where add: "addCoins E x [ubd_Balance ubd] s = Ok r s1"
    and t: "t = s1\<lparr>unbondings := fmdrop (x, a) (unbondings s1), unbondingsByVal := unbondingsByVal s1 |-| {|(a, x)|}\<rparr>"
    using assms(1) Some ok no_err by (auto simp: CompleteUnbonding_def GetUnbondingDelegation_def ubd_ok_def op_simps RemoveUnbondingDelegation_def)
  have b: "books E R0 D (n - Amount (ubd_Balance ubd) * precisionReuse) m s1" "stake_stores s1 = stake_stores s"
    using addCoins_books [OF add assms(2)] ok by (simp_all add: ubd_ok_def ranged_def StakeDenom_def)
  then show ?thesis
    using books_drop_ubd [OF b(1), of "(x, a)" ubd] Some same_stores(5) [OF b(2)] by (simp add: t)
qed

lemma BeginRedelegation_books:
  assumes "BeginRedelegation E C H x a b shares s = Ok red t" "books E R0 D n (\<lambda>_. 0) s" "0 \<le> shares"
  shows "books E R0 D n (\<lambda>_. 0) t"
proof -
  obtain amt s1 r v s2 sh time where ne: "a \<noteq> b" and un: "unbond E C H x a shares s = Ok amt s1"
    and r: "Dec_TruncateInt amt = Some r" and v: "GetValidator b s1 = Some v"
    and del: "Delegate C H x \<lparr>Denom = StakeDenom, Amount = r\<rparr> v False s1 = Ok sh s2"
    and red: "red = \<lparr>red_DelegatorAddr = x, red_ValidatorSrcAddr = a, red_ValidatorDstAddr = b, red_CreationHeight = ctx_Height C,
        red_MinTime = time, red_InitialBalance = \<lparr>Denom = StakeDenom, Amount = r\<rparr>, red_Balance = \<lparr>Denom = StakeDenom, Amount = r\<rparr>,
        red_SharesSrc = shares, red_SharesDst = sh\<rparr>"
    and t: "t = s2\<lparr>redelegations := fmupd (x, a, b) red (redelegations s2), redelegationsBySrc := finsert (a, x, b) (redelegationsBySrc s2),
        redelegationsByDst := finsert (b, x, a) (redelegationsByDst s2),
        redelegationQueue := fmupd time (fm_get [] (redelegationQueue s2) time @ [(x, a, b)]) (redelegationQueue s2)\<rparr>"
    using assms(1) by (auto simp: BeginRedelegation_def Let_def op_simps NewCoin_def SetRedelegation_def InsertRedelegationQueue_def
        bind_eq_Some_conv split: if_splits option.splits)
  note u = unbond_books [OF un assms(2,3)]
  note tr = truncate_whole [OF r u(2)]
  have "books E R0 D (n + amt - r * precisionReuse) (\<lambda>_. 0) s2" "0 \<le> sh"
    using Delegate_books [OF del u(1) v] tr(3) by simp_all
  then show ?thesis
    using books_reds(1) [of E R0 D n "\<lambda>_. 0" s2 "(x, a, b)" red] tr(1) ne by (simp add: t red red_ok_def)
qed

lemma CompleteRedelegation_books:
  assumes "ignore_err (CompleteRedelegation C x a b) s = Ok u t" "books E R0 D n m s"
  shows "books E R0 D n m t"
proof (cases "fmlookup (redelegations s) (x, a, b)")
  case None
  then show ?thesis
    using assms by (auto simp: CompleteRedelegation_def GetRedelegation_def op_simps)
next
  case (Some red)
  then show ?thesis
    using assms books_reds(2) [OF assms(2)]
    by (auto simp: CompleteRedelegation_def GetRedelegation_def op_simps RemoveRedelegation_def split: if_splits)
qed

lemma reduce_unbonding_books:
  assumes "reduce_unbonding ubd x s = Ok () t" "books E R0 D n m s" "fmlookup (unbondings s) k = Some ubd" "x \<le> Amount (ubd_Balance ubd)"
  shows "books E R0 D n m t \<and> validators t = validators s \<and> (\<forall>k'. k' \<noteq> k \<longrightarrow> fmlookup (unbondings t) k' = fmlookup (unbondings s) k')"
proof (cases "x = 0")
  case True
  then show ?thesis
    using assms(1,2) by (simp add: reduce_unbonding_def op_simps)
next
  case False
  have ok: "ubd_ok (BurnedCoinsAccAddr E) k ubd"
    using assms(2,3) by (rule books_ubd)
  then have key: "(ubd_DelegatorAddr ubd, ubd_ValidatorAddr ubd) = k"
    by (simp add: ubd_ok_def)
  obtain left s1 where left: "left = Amount (ubd_Balance ubd) - x" "in_range left" and x: "0 \<le> x"
    and s1: "s1 = s\<lparr>unbondings := fmupd k (ubd\<lparr>ubd_Balance := (ubd_Balance ubd)\<lparr>Amount := left\<rparr>\<rparr>) (unbondings s),
        unbondingsByVal := finsert (ubd_ValidatorAddr ubd, ubd_DelegatorAddr ubd) (unbondingsByVal s)\<rparr>"
    and dec: "DecreaseTotalLoosenToken [\<lparr>Denom = StakeDenom, Amount = x\<rparr>] s1 = Ok () t"
    using assms(1) False key by (auto simp: reduce_unbonding_def op_simps SetUnbondingDelegation_def NewCoin_def split: if_splits)
  let ?u = "ubd\<lparr>ubd_Balance := (ubd_Balance ubd)\<lparr>Amount := left\<rparr>\<rparr>"
  have "books E R0 D (n - (Amount (ubd_Balance ?u) - Amount (ubd_Balance ubd)) * precisionReuse) m
      (s\<lparr>unbondings := fmupd k ?u (unbondings s)\<rparr>)"
    using ok left assms(3,4) by (intro books_put_ubd [OF assms(2)]) (simp_all add: ubd_ok_def)
  then have "books E R0 D (n + x * precisionReuse) m s1"
    by (simp add: s1 left(1))
  note burned = DecreaseTotalLoosenToken_books [OF dec x this]
  then show ?thesis
    using same_stores [OF burned(2)] by (simp add: s1)
qed

lemma slashUnbondingDelegation_books:
  assumes "slashUnbondingDelegation C ubd h f s = Ok amt t" "books E R0 D n m s" "fmlookup (unbondings s) k = Some ubd"
  shows "books E R0 D n m t \<and> validators t = validators s \<and> (\<forall>k'. k' \<noteq> k \<longrightarrow> fmlookup (unbondings t) k' = fmlookup (unbondings s) k')"
proof (cases "t = s")
  case True
  then show ?thesis using assms(2) by simp
next
  case False
  then obtain r where "reduce_unbonding ubd (MinInt r (Amount (ubd_Balance ubd))) s = Ok () t"
    using assms(1) by (auto simp: slashUnbondingDelegation_def op_simps split: if_splits)
  then show ?thesis
    using assms(2,3) by (rule reduce_unbonding_books) (simp add: MinInt_def)
qed

lemma slash_ubds_books:
  assumes "slash_each (\<lambda>ubd. slashUnbondingDelegation C ubd h f) ubds x s = Ok y t" "books E R0 D n m s"
    and "list_all2 (\<lambda>k u. fmlookup (unbondings s) k = Some u) ks ubds" "distinct ks"
  shows "books E R0 D n m t \<and> validators t = validators s"
  using assms
proof (induction ubds arbitrary: ks x s)
  case Nil
  then show ?case by (simp add: op_simps)
next
  case (Cons u ubds)
  obtain k ks' where ks: "ks = k # ks'" "fmlookup (unbondings s) k = Some u" "distinct ks'" "k \<notin> set ks'"
    and rest: "list_all2 (\<lambda>k u. fmlookup (unbondings s) k = Some u) ks' ubds"
    using Cons.prems(3,4) by (auto simp: list_all2_Cons2)
  obtain z s1 x' where z: "slashUnbondingDelegation C u h f s = Ok z s1"
    and more: "slash_each (\<lambda>ubd. slashUnbondingDelegation C ubd h f) ubds x' s1 = Ok y t"
    using Cons.prems(1) by (auto simp: op_simps split: if_splits)
  note one = slashUnbondingDelegation_books [OF z Cons.prems(2) ks(2)]
  have "list_all2 (\<lambda>k u. fmlookup (unbondings s1) k = Some u) ks' ubds"
    using rest
  proof (rule list.rel_mono_strong)
    fix k' u' assume "k' \<in> set ks'" "fmlookup (unbondings s) k' = Some u'"
    moreover from this have "k' \<noteq> k"
      using ks(4) by metis
    ultimately show "fmlookup (unbondings s1) k' = Some u'"
      using one by (metis (no_types, lifting))
  qed
  then show ?case
    using Cons.IH [OF more _ _ ks(3)] one by simp
qed

lemma reduce_redelegation_books:
  assumes "reduce_redelegation red x s = Ok () t" "books E R0 D n m s" "red_ok k red"
  shows "books E R0 D n m t \<and> validators t = validators s"
proof -
  have put: "books E R0 D n m (s\<lparr>redelegations := fmupd k (red\<lparr>red_Balance := c\<rparr>) (redelegations s)\<rparr>)" for c
    using assms(3) by (intro books_reds(1) [OF assms(2)]) (simp add: red_ok_def)
  have key: "k = (red_DelegatorAddr red, red_ValidatorSrcAddr red, red_ValidatorDstAddr red)"
    using assms(3) by (simp add: red_ok_def)
  then show ?thesis
    using assms(1,2) put by (auto simp: reduce_redelegation_def op_simps SetRedelegation_def split: if_splits)
qed

lemma burn_redelegated_books:
  assumes "burn_redelegated E C H red x s = Ok () t" "books E R0 D n (\<lambda>_. 0) s" "0 \<le> x"
  shows "books E R0 D n (\<lambda>_. 0) t \<and> only_val (red_ValidatorDstAddr red) s t"
proof (cases "t = s")
  case True
  then show ?thesis using assms(2) by (simp add: only_val_def)
next
  case False
  let ?del = "red_DelegatorAddr red" and ?dst = "red_ValidatorDstAddr red"
  obtain d tok s1 r where d: "GetDelegation ?del ?dst s = Some d"
    and un: "unbond E C H ?del ?dst (if x > d_Shares d then d_Shares d else x) s = Ok tok s1"
    and r: "Dec_TruncateInt tok = Some r" and dec: "DecreaseTotalLoosenToken [\<lparr>Denom = StakeDenom, Amount = r\<rparr>] s1 = Ok () t"
    using assms(1) False
    by (auto simp: burn_redelegated_def Let_def op_simps NewCoin_def bind_eq_Some_conv split: if_splits option.splits)
  have "0 \<le> (if x > d_Shares d then d_Shares d else x)"
    using books_del [OF assms(2) d] assms(3) by simp
  note u = unbond_books [OF un assms(2) this]
  note tr = truncate_whole [OF r u(2)]
  have "books E R0 D (n + r * precisionReuse) (\<lambda>_. 0) s1"
    using u(1) tr(1) by simp
  note burned = DecreaseTotalLoosenToken_books [OF dec tr(3) this]
  show ?thesis
    using burned(1) only_val_trans [OF _ same_stores(10) [OF burned(2)]] u(3) by simp
qed

lemma slashRedelegation_books:
  assumes "slashRedelegation E C H red h f s = Ok amt t" "books E R0 D n (\<lambda>_. 0) s" "red_ok k red" "0 \<le> f"
  shows "books E R0 D n (\<lambda>_. 0) t \<and> GetValidator (red_ValidatorSrcAddr red) t = GetValidator (red_ValidatorSrcAddr red) s"
proof (cases "t = s")
  case True
  then show ?thesis using assms(2) by simp
next
  case False
  then obtain r x s1 where red: "reduce_redelegation red r s = Ok () s1" and x: "Dec_Mul f (red_SharesDst red) = Some x"
    and burn: "burn_redelegated E C H red x s1 = Ok () t"
    using assms(1) by (auto simp: slashRedelegation_def op_simps split: if_splits)
  note s1 = reduce_redelegation_books [OF red assms(2,3)]
  have "0 \<le> x"
    using x assms(3,4) chop_ge0 [of "f * red_SharesDst red"] by (auto simp: Dec_Mul_def Let_def red_ok_def split: if_splits)
  then have "books E R0 D n (\<lambda>_. 0) t \<and> only_val (red_ValidatorDstAddr red) s1 t"
    using burn_redelegated_books [OF burn] s1 by blast
  then show ?thesis
    using s1 assms(3) by (simp add: only_val_def GetValidator_def red_ok_def)
qed

lemma slash_reds_books:
  assumes "slash_each (\<lambda>red. slashRedelegation E C H red h f) reds x s = Ok y t" "books E R0 D n (\<lambda>_. 0) s" "0 \<le> f"
    and "\<forall>red\<in>set reds. red_ValidatorSrcAddr red = a \<and> (\<exists>k. red_ok k red)"
  shows "books E R0 D n (\<lambda>_. 0) t \<and> GetValidator a t = GetValidator a s"
  using assms
proof (induction reds arbitrary: x s)
  case Nil
  then show ?case by (simp add: op_simps)
next
  case (Cons red reds)
  obtain z s1 x' where z: "slashRedelegation E C H red h f s = Ok z s1"
    and more: "slash_each (\<lambda>red. slashRedelegation E C H red h f) reds x' s1 = Ok y t"
    using Cons.prems(1) by (auto simp: op_simps split: if_splits)
  obtain k where k: "red_ValidatorSrcAddr red = a" "red_ok k red"
    using Cons.prems(4) by auto
  note one = slashRedelegation_books [OF z Cons.prems(2) k(2) assms(3)]
  show ?case
    using Cons.IH [OF more _ assms(3)] one k(1) Cons.prems(4) by simp
qed

lemma ubds_of_validator:
  assumes "GetUnbondingDelegationsFromValidator a s = Some ubds"
  shows "\<exists>ks. list_all2 (\<lambda>k u. fmlookup (unbondings s) k = Some u) ks ubds \<and> distinct ks"
proof -
  let ?ks = "filter (\<lambda>(val, _). val = a) (sorted_list_of_fset (unbondingsByVal s))"
  have "list_all2 (\<lambda>k u. fmlookup (unbondings s) k = Some u) (map prod.swap ?ks) ubds"
    using assms by (simp add: GetUnbondingDelegationsFromValidator_def those_map_Some list_all2_map1 case_prod_unfold prod.swap_def)
  moreover have "distinct (map prod.swap ?ks)"
    by (simp add: distinct_map sorted_list_of_fset.rep_eq)
  ultimately show ?thesis by blast
qed

lemma reds_of_validator:
  assumes "GetRedelegationsFromValidator a s = Some reds" "books E R0 D n m s"
  shows "\<forall>red\<in>set reds. red_ValidatorSrcAddr red = a \<and> (\<exists>k. red_ok k red)"
proof
  fix red assume "red \<in> set reds"
  then obtain x where "x \<in> set (filter (\<lambda>(src, _). src = a) (sorted_list_of_fset (redelegationsBySrc s)))"
      "(case x of (src, del, dst) \<Rightarrow> fmlookup (redelegations s) (del, src, dst)) = Some red"
    using assms(1) those_map_in unfolding GetRedelegationsFromValidator_def by fast
  then obtain del dst where k: "fmlookup (redelegations s) (del, a, dst) = Some red"
    by (auto split: prod.splits)
  then show "red_ValidatorSrcAddr red = a \<and> (\<exists>k. red_ok k red)"
    using books_red [OF assms(2) k] by (auto simp: red_ok_def)
qed

lemma slash_past_books:
  assumes "slash_past E C H a h f amt s = Ok rem t" "books E R0 D n (\<lambda>_. 0) s" "0 \<le> f"
  shows "books E R0 D n (\<lambda>_. 0) t \<and> GetValidator a t = GetValidator a s"
proof (cases "h = ctx_Height C")
  case True
  then show ?thesis
    using assms(1,2) by (simp add: slash_past_def op_simps)
next
  case False
  then obtain ubds x s1 reds where ubds: "GetUnbondingDelegationsFromValidator a s = Some ubds"
    and one: "slash_each (\<lambda>ubd. slashUnbondingDelegation C ubd h f) ubds amt s = Ok x s1"
    and reds: "GetRedelegationsFromValidator a s1 = Some reds"
    and two: "slash_each (\<lambda>red. slashRedelegation E C H red h f) reds x s1 = Ok rem t"
    using assms(1) by (auto simp: slash_past_def op_simps split: if_splits)
  obtain ks where "list_all2 (\<lambda>k u. fmlookup (unbondings s) k = Some u) ks ubds" "distinct ks"
    using ubds_of_validator [OF ubds] by (elim exE conjE)
  then have s1: "books E R0 D n (\<lambda>_. 0) s1" "validators s1 = validators s"
    using slash_ubds_books [OF one assms(2)] by simp_all
  then show ?thesis
    using slash_reds_books [OF two s1(1) assms(3) reds_of_validator [OF reds s1(1)]] by (simp add: GetValidator_def)
qed

lemma Slash_books:
  assumes "Slash E C H consAddr h pow f s = Ok u t" "books E R0 D n (\<lambda>_. 0) s"
  shows "books E R0 D n (\<lambda>_. 0) t"
proof (cases "GetValidatorByConsAddr consAddr s")
  case None
  then show ?thesis
    using assms by (auto simp: Slash_def op_simps split: if_splits)
next
  case (Some v)
  let ?a = "v_OperatorAddr v"
  obtain amt s1 rem s2 r v' s3 w where f: "0 \<le> f" and hook: "hook_call H s s1"
    and past: "slash_past E C H ?a h f amt s1 = Ok rem s2"
    and x: "r = MaxDec (MinDec rem (v_Tokens v)) 0" and tok: "RemoveValidatorTokens v r s2 = Ok v' s3"
    and w: "Dec_TruncateDec r = Some w" "Dec_Sub r w = Some 0"
    and burn: "bind_op (lift_go (do { burned \<leftarrow> Dec_TruncateInt r; NewCoin StakeDenom burned })) (\<lambda>coin. DecreaseTotalLoosenToken [coin]) s3 = Ok () t"
    using assms(1) Some by (auto simp: Slash_def Let_def op_simps bind_eq_Some_conv dest!: hook_callI split: if_splits)
  obtain a where "GetValidator a s = Some v"
    using Some by (auto simp: GetValidatorByConsAddr_def split: option.splits)
  then have v: "GetValidator ?a s = Some v"
    using books_val [OF assms(2)] by (auto simp: val_ok_def)
  note h = hook_books [OF hook assms(2)]
  note p = slash_past_books [OF past h(1) f]
  have v2: "GetValidator ?a s2 = Some v"
    using p v same_stores(8) [OF h(2)] by simp
  have r0: "0 \<le> r"
    using x by (simp add: MaxDec_def)
  have "r = chopPrecisionAndTruncate r * precisionReuse"
    using w Dec_Sub_SomeD [OF w(2)] by (auto simp: Dec_TruncateDec_def bind_eq_Some_conv)
  then have "whole r"
    using r0 by (metis dvd_triv_right whole_def)
  then have s3: "books E R0 D (n + r) (\<lambda>_. 0) s3"
    using RemoveValidatorTokens_books [OF tok _ v2] p by blast
  obtain y where y: "Dec_TruncateInt r = Some y" and dec: "DecreaseTotalLoosenToken [\<lparr>Denom = StakeDenom, Amount = y\<rparr>] s3 = Ok () t"
    using burn by (auto simp: bind_eq_Some_conv NewCoin_def split: if_splits)
  note tr = truncate_whole [OF y \<open>whole r\<close>]
  show ?thesis
    using DecreaseTotalLoosenToken_books(1) [OF dec tr(3) s3] tr(1) by simp
qed

lemma Jail_books: "Jail consAddr s = Ok u t \<Longrightarrow> books E R0 D n m s \<Longrightarrow> books E R0 D n m t"
  by (auto simp: Jail_def mustGetValidatorByConsAddr_def GetValidatorByConsAddr_def op_simps
      split: option.splits intro: jailValidator_books(1))

lemma Unjail_books: "Unjail consAddr s = Ok u t \<Longrightarrow> books E R0 D n m s \<Longrightarrow> books E R0 D n m t"
  by (auto simp: Unjail_def mustGetValidatorByConsAddr_def GetValidatorByConsAddr_def op_simps
      split: option.splits intro: unjailValidator_books)

text \<open>Changes of status: the tokens move between the pool and the loose tokens.\<close>

lemma validatorQueue_books:
  "DeleteValidatorQueue v s = Ok u t \<Longrightarrow> books E R0 D n m s \<Longrightarrow> books E R0 D n m t"
  "InsertValidatorQueue v s = Ok u t \<Longrightarrow> books E R0 D n m s \<Longrightarrow> books E R0 D n m t"
  by (auto simp: DeleteValidatorQueue_def InsertValidatorQueue_def Let_def op_simps split: if_splits)

lemma bondValidator_books:
  assumes "bondValidator E C H v s = Ok v' t" "books E R0 D n m s" "GetValidator a s = Some v"
  shows "books E R0 D n m t"
proof -
  have v: "val_ok a v"
    using assms(2,3) by (rule books_val)
  let ?v = "v\<lparr>v_BondHeight := ctx_Height C\<rparr>"
  have vb: "val_ok a ?v"
    using v by (simp add: val_ok_def)
  obtain p k p' s1 s2 where p: "stakePool s = Some p" and k: "getValidatorPowerRank v = Some k"
    and up: "UpdateStatus ?v p Bonded (s\<lparr>validatorsByPower := fmdrop k (validatorsByPower s)\<rparr>) = Ok (v', p') s1"
    and k': "v_Jailed v' \<or> getValidatorPowerRank v' \<noteq> None"
    and q: "DeleteValidatorQueue v' (s1\<lparr>stakePool := Some p', validators := fmupd (v_OperatorAddr v') v' (validators s1),
      validatorsByPower := enter_index v' (validatorsByPower s1)\<rparr>) = Ok () s2"
    and hook: "hook_call H s2 t"
    using assms(1) by (auto simp: bondValidator_def index_ops_Ok op_simps dest!: hook_callI)
  note spec = UpdateStatus_spec [OF up vb]
  have same: "loose_tokens ?v = loose_tokens v"
    by (simp add: loose_tokens_def BondedTokens_def)
  have L: "\<exists>L. s1 = s\<lparr>validatorsByPower := fmdrop k (validatorsByPower s), totalLoosenToken := L\<rparr> \<and>
      loose L = loosen s + (loose_tokens v' - loose_tokens v)"
    using spec(4) same by simp
  have p': "p' = p + BondedTokens v' - BondedTokens v" and sh: "v_DelegatorShares v' = v_DelegatorShares v"
    using spec(1,2) by (simp_all add: BondedTokens_def)
  let ?t = "s1\<lparr>stakePool := Some p', validators := fmupd (v_OperatorAddr v') v' (validators s1),
      validatorsByPower := enter_index v' (validatorsByPower s1)\<rparr>"
  have t': "?t = s1\<lparr>validators := fmupd (v_OperatorAddr v') v' (validators s1), stakePool := Some p',
      validatorsByPower := enter_index v' (validatorsByPower s1)\<rparr>"
    by simp
  have "books E R0 D n m ?t"
    using books_change_val(1) [OF assms(2,3) spec(3) p k k' p' L t'] by (simp add: sh)
  then have "books E R0 D n m s2"
    by (rule validatorQueue_books(1) [OF q])
  then show ?thesis
    by (rule hook_books(1) [OF hook])
qed

lemma beginUnbondingValidator_books:
  assumes "beginUnbondingValidator E C H v s = Ok v' t" "books E R0 D n m s" "GetValidator a s = Some v"
  shows "books E R0 D n m t"
proof -
  have v: "val_ok a v"
    using assms(2,3) by (rule books_val)
  obtain p k p' s1 s2 vu where p: "stakePool s = Some p" and k: "getValidatorPowerRank v = Some k"
    and up: "UpdateStatus v p Unbonding (s\<lparr>validatorsByPower := fmdrop k (validatorsByPower s)\<rparr>) = Ok (vu, p') s1"
    and v': "v' = vu\<lparr>v_UnbondingMinTime := ctx_Time C + UnbondingTime (stakeParams s), v_UnbondingHeight := ctx_Height C\<rparr>"
    and k': "v_Jailed v' \<or> getValidatorPowerRank v' \<noteq> None"
    and s2: "InsertValidatorQueue v' (s1\<lparr>stakePool := Some p', validators := fmupd (v_OperatorAddr v') v' (validators s1),
      validatorsByPower := enter_index v' (validatorsByPower s1)\<rparr>) = Ok () s2"
    and hook: "hook_call H s2 t"
    using assms(1) by (auto simp: beginUnbondingValidator_def Let_def index_ops_Ok op_simps dest!: hook_callI split: if_splits)
  note spec = UpdateStatus_spec [OF up v]
  have same: "loose_tokens v' = loose_tokens vu"
    by (simp add: v' loose_tokens_def BondedTokens_def)
  have L: "\<exists>L. s1 = s\<lparr>validatorsByPower := fmdrop k (validatorsByPower s), totalLoosenToken := L\<rparr> \<and>
      loose L = loosen s + (loose_tokens v' - loose_tokens v)"
    using spec(4) same by simp
  have p': "p' = p + BondedTokens v' - BondedTokens v" and sh: "v_DelegatorShares v' = v_DelegatorShares v" and ok: "val_ok a v'"
    using spec(1,2,3) by (simp_all add: v' BondedTokens_def val_ok_def)
  let ?t = "s1\<lparr>stakePool := Some p', validators := fmupd (v_OperatorAddr v') v' (validators s1),
      validatorsByPower := enter_index v' (validatorsByPower s1)\<rparr>"
  have t': "?t = s1\<lparr>validators := fmupd (v_OperatorAddr v') v' (validators s1), stakePool := Some p',
      validatorsByPower := enter_index v' (validatorsByPower s1)\<rparr>"
    by simp
  have "books E R0 D n m ?t"
    using books_change_val(1) [OF assms(2,3) ok p k k' p' L t'] by (simp add: sh)
  then have "books E R0 D n m s2"
    by (rule validatorQueue_books(2) [OF s2])
  then show ?thesis
    by (rule hook_books(1) [OF hook])
qed

lemma completeUnbondingValidator_books:
  assumes "completeUnbondingValidator v s = Ok v' t" "books E R0 D n m s" "GetValidator a s = Some v"
  shows "books E R0 D n m t" "GetValidator a t = Some v'" "v_DelegatorShares v' = v_DelegatorShares v"
proof -
  have v: "val_ok a v"
    using assms(2,3) by (rule books_val)
  obtain p p' s1 where p: "stakePool s = Some p" and up: "UpdateStatus v p Unbonded s = Ok (v', p') s1"
    and t: "t = s1\<lparr>stakePool := Some p', validators := fmupd (v_OperatorAddr v') v' (validators s1)\<rparr>"
    using assms(1) by (auto simp: completeUnbondingValidator_def SetPool_def SetValidator_def op_simps)
  note spec = UpdateStatus_spec [OF up v]
  obtain L where L: "s1 = s\<lparr>totalLoosenToken := L\<rparr>" "loose L = loosen s + (loose_tokens v' - loose_tokens v)"
    using spec(4) by (elim exE conjE)
  have a: "v_OperatorAddr v' = a" "getValidatorPowerRank v' = getValidatorPowerRank v"
    using spec(1,3) rank_cong [of v' v] by (simp_all add: val_ok_def)
  have t': "t = s\<lparr>totalLoosenToken := L, validators := fmupd a v' (validators s), stakePool := Some p',
      validatorsByPower := validatorsByPower s\<rparr>"
    using a by (simp add: t L(1))
  have "index_ok t"
    using assms(2,3) a spec(1) by (intro index_same_rank [of s a v v' t]) (simp_all add: books_def t' GetValidator_def)
  note put = books_put_val [OF assms(2,3) spec(3) t' p spec(2) L(2) this]
  show "v_DelegatorShares v' = v_DelegatorShares v"
    by (simp add: spec(1))
  then show "books E R0 D n m t" "GetValidator a t = Some v'"
    using put(1,2) by simp_all
qed

lemma bond_if_needed_books:
  assumes "bond_if_needed E C H v s = Ok v' t" "books E R0 D n m s" "GetValidator a s = Some v"
  shows "books E R0 D n m t"
  using assms bondValidator_books [OF _ assms(2,3)]
  by (auto simp: bond_if_needed_def unbondedToBonded_def unbondingToBonded_def op_simps split: BondStatus.splits if_splits)

lemma record_power_books:
  assumes "record_power E H lastVals a v pow ups s = Ok ups' t" "books E R0 D n m s"
  shows "books E R0 D n m t"
  using assms hook_books(1)
  by (auto simp: record_power_def op_simps SetLastValidatorPower_def dest!: hook_callI split: if_splits)

lemma mustGetValidator_Ok [simp]: "mustGetValidator a s = Ok v t \<longleftrightarrow> GetValidator a s = Some v \<and> t = s"
  by (auto simp: mustGetValidator_def op_simps)

lemma apply_updates_books:
  assumes "apply_updates E C H k addrs lastVals pow ups s = Ok r t" "books E R0 D n m s"
  shows "books E R0 D n m t"
  using assms
proof (induction k arbitrary: addrs lastVals pow ups s)
  case 0
  then show ?case by (simp add: op_simps)
next
  case (Suc k)
  show ?case
  proof (cases addrs)
    case Nil
    then show ?thesis using Suc.prems by (simp add: op_simps)
  next
    case (Cons a addrs')
    then obtain v where v: "GetValidator a s = Some v"
      using Suc.prems(1) by (auto simp: op_simps)
    consider "t = s" | v' s1 ups' s2 pow' pow'' where "bond_if_needed E C H v s = Ok v' s1"
        "record_power E H lastVals a v' pow' ups s1 = Ok ups' s2" "apply_updates E C H k addrs' (fmdrop a lastVals) pow'' ups' s2 = Ok r t"
      using Suc.prems(1) Cons v by (auto simp: op_simps split: if_splits)
    then show ?thesis
    proof cases
      case 1
      then show ?thesis using Suc.prems(2) by simp
    next
      case 2
      show ?thesis
        by (rule Suc.IH [OF 2(3)], rule record_power_books [OF 2(2)], rule bond_if_needed_books [OF 2(1) Suc.prems(2) v])
    qed
  qed
qed

lemma unbond_all_dropped_books:
  "unbond_all_dropped E C H addrs s = Ok ups t \<Longrightarrow> books E R0 D n m s \<Longrightarrow> books E R0 D n m t"
proof (induction addrs arbitrary: s ups)
  case (Cons a addrs)
  then obtain v v' s1 ups' where "GetValidator a s = Some v" "beginUnbondingValidator E C H v s = Ok v' s1"
    "unbond_all_dropped E C H addrs (s1\<lparr>lastValidatorPowers := fmdrop a (lastValidatorPowers s1)\<rparr>) = Ok ups' t"
    by (auto simp: op_simps unbond_dropped_def bondedToUnbonding_def DeleteLastValidatorPower_def split: if_splits)
  then show ?case
    using Cons.IH beginUnbondingValidator_books [OF _ Cons.prems(2)] by fastforce
qed (simp add: op_simps)

lemma unbond_mature_books:
  assumes "unbond_mature E H a s = Ok u t" "books E R0 D n m s"
  shows "books E R0 D n m t"
proof (cases "GetValidator a s")
  case None
  then show ?thesis using assms by (simp add: unbond_mature_def op_simps)
next
  case (Some v)
  have a: "v_OperatorAddr v = a"
    using books_val [OF assms(2) Some] by (simp add: val_ok_def)
  obtain v' s1 where un: "completeUnbondingValidator v s = Ok v' s1"
    and fin: "(if v_DelegatorShares v = 0 then RemoveValidator E H a else ret ()) s1 = Ok () t"
    using assms(1) Some a by (auto simp: unbond_mature_def unbondingToUnbonded_def op_simps split: if_splits)
  note c = completeUnbondingValidator_books [OF un assms(2) Some]
  show ?thesis
    using fin RemoveValidator_books [OF _ c(1), of a "()" t] c by (auto simp: op_simps split: if_splits)
qed

lemma for_each_books:
  assumes "for_each xs f s = Ok u t" "books E R0 D n m s"
    and "\<And>x s u t. x \<in> set xs \<Longrightarrow> f x s = Ok u t \<Longrightarrow> books E R0 D n m s \<Longrightarrow> books E R0 D n m t"
  shows "books E R0 D n m t"
  using assms
proof (induction xs arbitrary: s)
  case (Cons x xs)
  then obtain s1 where s1: "f x s = Ok () s1" "for_each xs f s1 = Ok u t"
    by auto
  show ?case
    by (rule Cons.IH [OF s1(2) Cons.prems(3) [OF _ s1(1) Cons.prems(2)]]) (use Cons.prems(3) in auto)
qed (simp add: op_simps)

lemma UnbondAllMatureValidatorQueue_books:
  assumes "UnbondAllMatureValidatorQueue E C H s = Ok u t" "books E R0 D n m s"
  shows "books E R0 D n m t"
proof -
  obtain slices where each: "for_each slices (\<lambda>(t, timeslice). bind_op (for_each timeslice (unbond_mature E H)) (\<lambda>_.
      modify (\<lambda>s. s\<lparr>validatorQueue := fmdrop t (validatorQueue s)\<rparr>))) s = Ok () t"
    using assms(1) by (auto simp: UnbondAllMatureValidatorQueue_def op_simps)
  show ?thesis
    using each assms(2)
  proof (rule for_each_books)
    fix x :: "go_time \<times> ValAddress list" and s u t
    assume "(case x of (t, timeslice) \<Rightarrow> bind_op (for_each timeslice (unbond_mature E H)) (\<lambda>_.
        modify (\<lambda>s. s\<lparr>validatorQueue := fmdrop t (validatorQueue s)\<rparr>))) s = Ok u t" and b: "books E R0 D n m s"
    then obtain s1 where s1: "for_each (snd x) (unbond_mature E H) s = Ok () s1"
      and t: "t = s1\<lparr>validatorQueue := fmdrop (fst x) (validatorQueue s1)\<rparr>"
      by (auto split: prod.splits)
    have "books E R0 D n m s1"
      by (rule for_each_books [OF s1 b unbond_mature_books])
    then show "books E R0 D n m t"
      by (simp add: t)
  qed
qed

lemma dequeue_books:
  "DequeueAllMatureUnbondingQueue C s = Ok us t \<Longrightarrow> books E R0 D n m s \<Longrightarrow> books E R0 D n m t"
  "DequeueAllMatureRedelegationQueue C s = Ok rs t \<Longrightarrow> books E R0 D n m s \<Longrightarrow> books E R0 D n m t"
  by (auto simp: DequeueAllMatureUnbondingQueue_def DequeueAllMatureRedelegationQueue_def op_simps elim!: for_each_books)

lemma StakeEndBlocker_books:
  assumes "StakeEndBlocker E C0 H s = Ok ups t" "books E R0 D n m s"
  shows "books E R0 D n m t"
proof -
  let ?C = "C0\<lparr>ctx_Trigger := ''stakeEndBlocker''\<rparr>"
  obtain s1 s2 us s3 s4 rs s5 where s1: "ApplyAndReturnValidatorSetUpdates E ?C H s = Ok ups s1"
    and s2: "UnbondAllMatureValidatorQueue E ?C H s1 = Ok () s2" and s3: "DequeueAllMatureUnbondingQueue ?C s2 = Ok us s3"
    and s4: "for_each us (\<lambda>(x, a). ignore_err (CompleteUnbonding E x a)) s3 = Ok () s4"
    and s5: "DequeueAllMatureRedelegationQueue ?C s4 = Ok rs s5"
    and t: "for_each rs (\<lambda>(x, a, b). ignore_err (CompleteRedelegation ?C x a b)) s5 = Ok () t"
    using assms(1) by (auto simp: StakeEndBlocker_def Let_def op_simps)
  obtain k addrs lastVals r1 r2 r3 s0 ds s0' where up: "apply_updates E ?C H k addrs lastVals 0 [] s = Ok (r1, r2, r3) s0"
    and dr: "unbond_all_dropped E ?C H (sorted_list_of_fset (fmdom r1)) s0 = Ok ds s0'"
    and tp: "(if r3 @ ds \<noteq> [] then SetLastTotalPower r2 else ret ()) s0' = Ok () s1"
    using s1 by (auto simp: ApplyAndReturnValidatorSetUpdates_def Let_def op_simps simp del: if_split)
  have "books E R0 D n m s0'"
    by (rule unbond_all_dropped_books [OF dr apply_updates_books [OF up assms(2)]])
  then have "books E R0 D n m s1"
    using tp by (auto simp: SetLastTotalPower_def op_simps split: if_splits)
  then have b3: "books E R0 D n m s3"
    by (rule dequeue_books(1) [OF s3 UnbondAllMatureValidatorQueue_books [OF s2]])
  have "books E R0 D n m s4"
    by (rule for_each_books [OF s4 b3]) (auto simp del: ignore_err_Ok intro: CompleteUnbonding_books split: prod.splits)
  then have b5: "books E R0 D n m s5"
    by (rule dequeue_books(2) [OF s5])
  show ?thesis
    by (rule for_each_books [OF t b5]) (auto simp del: ignore_err_Ok intro: CompleteRedelegation_books split: prod.splits)
qed

lemma new_validator_books:
  assumes "books E R0 D n m s" "GetValidator a s = None" "v_OperatorAddr v = a" "v_Tokens v = 0" "v_DelegatorShares v = 0"
    and "\<not> v_Jailed v" "getValidatorPowerRank v = Some k"
    and "t = s\<lparr>validators := fmupd a v (validators s), validatorsByConsAddr := c, validatorsByPower := fmupd k a (validatorsByPower s)\<rparr>"
  shows "books E R0 D n m t"
proof -
  have "a |\<notin>| fmran (validatorsByPower s)"
    using assms(1,2) by (auto simp: books_def GetValidator_def elim!: fmranE dest!: index_okD)
  then have idx: "index_ok t"
    using assms by (intro index_enter [of s a v t]) (simp_all add: books_def enter_index_def)
  have "val_ok a v" "loose_tokens v = 0" "BondedTokens v = 0"
    using assms(3-5) by (simp_all add: val_ok_def Dec_overflow_def loose_tokens_def BondedTokens_def)
  then have "balanced (n + d + 0) m (core E R0 t)" if "balanced (n + d) m (core E R0 s)" for d
    using balanced_put_val [OF that, of a v 0] assms(2,5) books_pool [OF assms(1)]
    by (simp add: assms(8) old_val_def val_shares_def GetValidator_def core_def) (simp add: slack_def total_coins_def balance_def GetAccount_def)
  then show ?thesis
    using books_lift [OF assms(1) _ idx, of 0 m] assms(1) by (simp add: books_def assms(8))
qed

lemma NewValidator_sel [simp]:
  "v_OperatorAddr (NewValidator a pk des) = a" "v_Tokens (NewValidator a pk des) = 0"
  "v_DelegatorShares (NewValidator a pk des) = 0" "v_Jailed (NewValidator a pk des) = False"
  by (simp_all add: NewValidator_def)

lemma SetInitialCommission_InrD: "SetInitialCommission v com = Inr v' \<Longrightarrow> v' = v\<lparr>v_Commission := com\<rparr>"
  by (auto simp: SetInitialCommission_def split: sum.splits)

lemma handleMsgCreateValidator_books:
  assumes "handleMsgCreateValidator E C H msg s = Ok u t" "books E R0 D n m s" "MsgCreateValidator_ValidateBasic msg = Inr ()"
    and "cv_DelegatorAddr msg \<noteq> BurnedCoinsAccAddr E"
  shows "books E R0 D n m t"
proof -
  let ?a = "cv_ValidatorAddr msg"
  obtain com v k s1 s2 sh where new: "GetValidator ?a s = None"
    and v: "v = NewValidator ?a (cv_PubKey msg) (cv_Description msg)\<lparr>v_Commission := com\<rparr>" and k: "getValidatorPowerRank v = Some k"
    and s1: "s1 = s\<lparr>validators := fmupd ?a v (validators s), validatorsByConsAddr := fmupd (ConsAddr E v) ?a (validatorsByConsAddr s),
      validatorsByPower := fmupd k ?a (validatorsByPower s)\<rparr>"
    and hook: "hook_call H s1 s2" and del: "Delegate C H (cv_DelegatorAddr msg) (cv_Delegation msg) v True s2 = Ok sh t"
    using assms(1) by (auto simp: handleMsgCreateValidator_def SetValidator_def
        SetValidatorByConsAddr_def SetNewValidatorByPowerIndex_def op_simps dest!: hook_callI SetInitialCommission_InrD split: if_splits)
  have b1: "books E R0 D n m s1"
    using k by (intro new_validator_books [OF assms(2) new _ _ _ _ _ s1]) (simp_all add: v)
  note h = hook_books [OF hook b1]
  have v2: "GetValidator ?a s2 = Some v"
    using same_stores(8) [OF h(2)] by (simp add: s1 GetValidator_def)
  show ?thesis
    using Delegate_books(1) [OF del h(1) v2] assms(3,4)
    by (auto simp: MsgCreateValidator_ValidateBasic_def Coin_IsValidIrisAtto_def Coin_IsPositive_def StakeDenom_def split: if_splits)
qed

lemma handleMsgEditValidator_books:
  assumes "handleMsgEditValidator C H msg s = Ok u t" "books E R0 D n m s"
  shows "books E R0 D n m t"
proof -
  let ?a = "ev_ValidatorAddr msg"
  obtain v des v' s1 where v: "GetValidator ?a s = Some v"
    and set: "edit_commission C H msg (v\<lparr>v_Description := des\<rparr>) s = Ok v' s1"
    and t: "t = s1\<lparr>validators := fmupd (v_OperatorAddr v') v' (validators s1)\<rparr>"
    using assms(1) by (auto simp: handleMsgEditValidator_def Let_def SetValidator_def op_simps split: option.splits)
  have s1: "s1 = s \<or> hook_call H s s1"
    and v': "v' = v\<lparr>v_Description := des\<rparr> \<or> (\<exists>com. v' = v\<lparr>v_Description := des, v_Commission := com\<rparr>)"
    using set by (auto simp: edit_commission_def op_simps dest: hook_callI split: option.splits)
  have b1: "books E R0 D n m s1" "GetValidator ?a s1 = Some v"
    using s1 hook_books [of s s1] assms(2) v same_stores(8) [of s1 s ?a] by auto
  have eq: "same_stake v' v" "v_OperatorAddr v' = ?a" "getValidatorPowerRank v' = getValidatorPowerRank v" "v_Jailed v' = v_Jailed v"
    using v' books_val [OF assms(2) v] rank_cong [of v' v] by (auto simp: same_stake_def val_ok_def)
  have "index_ok t"
    using b1 eq by (intro index_same_rank [of s1 ?a v v' t]) (simp_all add: books_def t GetValidator_def)
  then show ?thesis
    using books_same_stake(1) [OF b1 eq(1), of t "validatorsByPower s1"] eq(2) by (simp add: t)
qed

lemma StakeHandler_books:
  assumes "StakeHandler E C H msg s = Ok u t" "books E R0 D n (\<lambda>_. 0) s" "stake_ValidateBasic msg = Inr ()"
    and "BurnedCoinsAccAddr E \<notin> set (stake_GetSigners msg)"
  shows "books E R0 D n (\<lambda>_. 0) t"
proof (cases msg)
  case (CreateValidator m)
  then show ?thesis
    using assms handleMsgCreateValidator_books by (auto simp: StakeHandler_def MsgCreateValidator_GetSigners_def)
next
  case (EditValidator m)
  then show ?thesis
    using assms handleMsgEditValidator_books by (auto simp: StakeHandler_def)
next
  case (DelegateMsg m)
  then obtain v sh where v: "GetValidator (md_ValidatorAddr m) s = Some v"
    and del: "Delegate C H (md_DelegatorAddr m) (md_Delegation m) v True s = Ok sh t"
    using assms(1) by (auto simp: StakeHandler_def handleMsgDelegate_def op_simps split: option.splits if_splits)
  then show ?thesis
    using Delegate_books(1) [OF del assms(2) v] assms(3,4) DelegateMsg
    by (auto simp: MsgDelegate_ValidateBasic_def Coin_IsValidIrisAtto_def Coin_IsPositive_def StakeDenom_def split: if_splits)
next
  case (BeginRedelegate m)
  then obtain sh red where "mr_SharesAmount m = Some sh" "0 \<le> sh"
    "BeginRedelegation E C H (mr_DelegatorAddr m) (mr_ValidatorSrcAddr m) (mr_ValidatorDstAddr m) sh s = Ok red t"
    using assms(1,3) by (auto simp: StakeHandler_def handleMsgBeginRedelegate_def MsgBeginRedelegate_ValidateBasic_def bad_shares_def
        op_simps split: if_splits)
  then show ?thesis
    using assms(2) by (auto intro: BeginRedelegation_books)
next
  case (BeginUnbond m)
  then obtain sh ubd where "mu_SharesAmount m = Some sh" "0 \<le> sh"
    "BeginUnbonding E C H (mu_DelegatorAddr m) (mu_ValidatorAddr m) sh s = Ok ubd t"
    using assms(1,3) by (auto simp: StakeHandler_def handleMsgBeginUnbonding_def MsgBeginUnbonding_ValidateBasic_def bad_shares_def
        op_simps split: if_splits)
  then show ?thesis
    using assms(2,4) BeginUnbond by (auto intro: BeginUnbonding_books)
qed

end

end
