(* ===== verification/Stake_Invariants.thy ===== *)
theory Stake_Invariants
  imports Stake_Ledger
begin

text \<open>
  Component: \<open>src/app/v1/stake/invariants.go\<close>: the checks that the simulation runs on the staking
  state. A check that panics recovers and returns an error, so each is a predicate: it returns nil.
  The steps of the staking module keep the checks on powers and on shares true.
\<close>

section \<open>The checks\<close>

fun add_decs :: "Dec \<Rightarrow> Dec list \<Rightarrow> Dec option" where
  "add_decs acc [] = Some acc"
| "add_decs acc (d # ds) = do { acc \<leftarrow> Dec_Add acc d; add_decs acc ds }"

definition GetAllValidators :: "'z stake_state_scheme \<Rightarrow> Validator list" where
  "GetAllValidators s = map snd (sorted_list_of_fmap (validators s))"

definition GetAllDelegations :: "'z stake_state_scheme \<Rightarrow> Delegation list" where
  "GetAllDelegations s = map snd (sorted_list_of_fmap (delegations s))"

definition NonNegativePowerInvariant :: "'z stake_state_scheme \<Rightarrow> bool" where
  "NonNegativePowerInvariant s \<longleftrightarrow>
     stakePool s \<noteq> None \<and>
     list_all (\<lambda>(key, addr). case GetValidator addr s of
         None \<Rightarrow> False
       | Some validator \<Rightarrow>
           (case getValidatorPowerRank validator of
              None \<Rightarrow> False
            | Some powerKey \<Rightarrow>
                key = powerKey \<and> \<not> v_Tokens validator < 0 \<and>
                \<not> (v_Tokens validator \<noteq> 0 \<and> v_DelegatorShares validator = 0)))
       (rev (sorted_list_of_fmap (validatorsByPower s)))"

definition PositiveDelegationInvariant :: "'z stake_state_scheme \<Rightarrow> bool" where
  "PositiveDelegationInvariant s \<longleftrightarrow>
     list_all (\<lambda>delegation. \<not> d_Shares delegation < 0 \<and> d_Shares delegation \<noteq> 0) (GetAllDelegations s)"

definition DelegatorSharesInvariant :: "'z stake_state_scheme \<Rightarrow> bool" where
  "DelegatorSharesInvariant s \<longleftrightarrow>
     list_all (\<lambda>validator.
       case add_decs 0 (map d_Shares (GetValidatorDelegations (v_OperatorAddr validator) s)) of
         None \<Rightarrow> False
       | Some totalDelShares \<Rightarrow> v_DelegatorShares validator = totalDelShares)
       (GetAllValidators s)"

section \<open>Balanced books satisfy the checks\<close>

lemma NonNegativePower_books: "books E R0 D n m s \<Longrightarrow> NonNegativePowerInvariant s"
proof -
  assume b: "books E R0 D n m s"
  have "\<exists>v. GetValidator a s = Some v \<and> getValidatorPowerRank v = Some k \<and> 0 \<le> v_Tokens v \<and> (v_DelegatorShares v = 0 \<longrightarrow> v_Tokens v = 0)"
    if entry: "fmlookup (validatorsByPower s) k = Some a" for k a
  proof -
    have "index_ok s"
      using b by (simp add: books_def)
    then obtain v where v: "fmlookup (validators s) a = Some v" "getValidatorPowerRank v = Some k"
      using index_okD [OF _ entry] by blast
    then show ?thesis
      using books_val [OF b, of a v] by (auto simp: GetValidator_def val_ok_def whole_def)
  qed
  then show ?thesis
    using books_pool [OF b] by (fastforce simp: NonNegativePowerInvariant_def list_all_iff set_sorted_list_of_fmap)
qed

lemma Dec_overflow_mono: "0 \<le> x \<Longrightarrow> x \<le> y \<Longrightarrow> \<not> Dec_overflow y \<Longrightarrow> \<not> Dec_overflow x"
  by (auto simp: Dec_overflow_def)

lemma add_decs_sum:
  assumes "\<forall>d\<in>set ds. 0 \<le> d" "0 \<le> acc" "\<not> Dec_overflow (acc + sum_list ds)"
  shows "add_decs acc ds = Some (acc + sum_list ds)"
  using assms
proof (induction ds arbitrary: acc)
  case (Cons d ds)
  have "0 \<le> sum_list ds"
    using Cons.prems(1) by (intro sum_list_nonneg) auto
  then have "\<not> Dec_overflow (acc + d)"
    using Cons.prems by (intro Dec_overflow_mono [of "acc + d" "acc + sum_list (d # ds)"]) auto
  then show ?case
    using Cons.IH [of "acc + d"] Cons.prems by (simp add: Dec_Add_def add.assoc)
qed simp

lemma sum_sorted_fmap: "sum_list (map (f \<circ> snd) (sorted_list_of_fmap m)) = fm_sum f m"
proof -
  have "sum_list (map (f \<circ> snd) (sorted_list_of_fmap m)) = (\<Sum>k\<leftarrow>sorted_list_of_fset (fmdom m). f (the (fmlookup m k)))"
    by (simp add: sorted_list_of_fmap_def comp_def)
  also have "\<dots> = (\<Sum>k\<in>fset (fmdom m). f (the (fmlookup m k)))"
    by (subst sum_list_distinct_conv_sum_set) (simp_all add: sorted_list_of_fset.rep_eq)
  finally show ?thesis
    by (simp add: fm_sum_def fmdom'_alt_def)
qed

lemma sum_list_filter: "sum_list (map f (filter P xs)) = sum_list (map (\<lambda>x. if P x then f x else 0) xs)" for f :: "'a \<Rightarrow> int"
  by (induction xs) auto

lemma delegations_sum: "sum_list (map d_Shares (GetValidatorDelegations a s)) = del_shares (core E R0 s) a"
  by (simp add: GetValidatorDelegations_def sum_list_filter sum_sorted_fmap del_shares_def)

lemma DelegatorShares_books: "books E R0 D n (\<lambda>_. 0) s \<Longrightarrow> DelegatorSharesInvariant s"
proof -
  assume b: "books E R0 D n (\<lambda>_. 0) s"
  have "add_decs 0 (map d_Shares (GetValidatorDelegations (v_OperatorAddr v) s)) = Some (v_DelegatorShares v)"
    if "fmlookup (validators s) a = Some v" for a v
  proof -
    have v: "val_ok a v"
      using books_val [OF b] that by (simp add: GetValidator_def)
    have eq: "val_shares (core E R0 s) a = del_shares (core E R0 s) a" and ok: "fmpred del_ok (delegations s)"
      using b by (auto simp: books_def balanced_def)
    have "v_DelegatorShares v = sum_list (map d_Shares (GetValidatorDelegations a s))"
      using eq that by (simp add: delegations_sum [of _ _ E R0] val_shares_def)
    moreover have "\<forall>d\<in>set (map d_Shares (GetValidatorDelegations a s)). 0 \<le> d"
      using ok by (auto simp: GetValidatorDelegations_def set_sorted_list_of_fmap fmpred_iff del_ok_def)
    ultimately show ?thesis
      using v add_decs_sum [of "map d_Shares (GetValidatorDelegations a s)" 0] by (simp add: val_ok_def)
  qed
  then show ?thesis
    by (auto simp: DelegatorSharesInvariant_def GetAllValidators_def list_all_iff set_sorted_list_of_fmap)
qed

section \<open>Runs of the staking module\<close>

text \<open>What may happen to the staking state: a valid message from the network, the end of a block,
  and the slashing and jailing that the slashing module asks for. Nobody signs for the account that
  collects burned coins.\<close>

inductive stake_step ::
  "'e stake_externals_scheme \<Rightarrow> (block_ctx \<Rightarrow> 'z stake_state_scheme StakingHooks option) \<Rightarrow> 'z stake_state_scheme \<Rightarrow> 'z stake_state_scheme \<Rightarrow> bool"
  for E Hs where
  deliver: "stake_ValidateBasic msg = Inr () \<Longrightarrow> BurnedCoinsAccAddr E \<notin> set (stake_GetSigners msg) \<Longrightarrow>
    StakeHandler E C (Hs C) msg s = Ok () t \<Longrightarrow> stake_step E Hs s t"
| end_block: "StakeEndBlocker E C (Hs C) s = Ok updates t \<Longrightarrow> stake_step E Hs s t"
| slash: "Slash E C (Hs C) consAddr infractionHeight pow slashFactor s = Ok () t \<Longrightarrow> stake_step E Hs s t"
| jail: "Jail consAddr s = Ok () t \<Longrightarrow> stake_step E Hs s t"
| unjail: "Unjail consAddr s = Ok () t \<Longrightarrow> stake_step E Hs s t"

text \<open>A chain: in every block the hooks keep the contract.\<close>

locale staking_chain =
  fixes E :: "'e stake_externals_scheme" and Hs :: "block_ctx \<Rightarrow> 'z stake_state_scheme StakingHooks option"
    and R0 :: "'z \<Rightarrow> Dec" and D :: "Dec set"
  assumes hooks_law: "staking_hooks E (Hs C) R0 D"
begin

lemmas chain_books =
  staking_hooks.StakeHandler_books [OF hooks_law] staking_hooks.StakeEndBlocker_books [OF hooks_law]
  staking_hooks.Slash_books [OF hooks_law] staking_hooks.Jail_books [OF hooks_law] staking_hooks.Unjail_books [OF hooks_law]

lemma step_books: "stake_step E Hs s t \<Longrightarrow> books E R0 D n (\<lambda>_. 0) s \<Longrightarrow> books E R0 D n (\<lambda>_. 0) t"
  by (induction rule: stake_step.induct) (auto intro: chain_books)

lemma run_books: "(stake_step E Hs)\<^sup>*\<^sup>* s t \<Longrightarrow> books E R0 D n (\<lambda>_. 0) s \<Longrightarrow> books E R0 D n (\<lambda>_. 0) t"
  by (induction rule: rtranclp_induct) (auto intro: step_books)

end

text \<open>Without hooks the contract holds with no drift at all.\<close>

lemma no_hooks_call: "hook_call None s t \<longleftrightarrow> t = s"
  by (auto simp: hook_call_def OnValidatorCreated_def OnValidatorModified_def OnValidatorRemoved_def OnValidatorBonded_def
      OnValidatorPowerDidChange_def OnValidatorBeginUnbonding_def OnDelegationCreated_def OnDelegationSharesModified_def
      OnDelegationRemoved_def op_simps)

interpretation no_hooks: staking_hooks E None R0 "{0}" for E R0
  by unfold_locales (auto simp: no_hooks_call)

interpretation no_hooks_chain: staking_chain E "\<lambda>_. None" R0 "{0}" for E R0
  by unfold_locales

end
