(* ===== verification/Distr_Types.thy ===== *)
theory Distr_Types
  imports Stake_Types
begin

text \<open>
  Component: \<open>src/app/v1/distribution/types\<close>: coins with decimals, accumulation trackers, the fee
  pool, the distribution records of validators and delegations with the reward arithmetic, the
  parameters and the messages. Loggers are left out; block heights are \<open>int\<close>.
\<close>

section \<open>Coins with decimals\<close>

record DecCoin =
  dc_Denom :: string
  dc_Amount :: Dec

type_synonym DecCoins = "DecCoin list"

definition NewDecCoinFromCoin :: "Coin \<Rightarrow> DecCoin option" where
  "NewDecCoinFromCoin coin =
     do { amount \<leftarrow> NewDecFromInt (Amount coin); Some \<lparr>dc_Denom = Denom coin, dc_Amount = amount\<rparr> }"

definition DecCoin_Plus :: "DecCoin \<Rightarrow> DecCoin \<Rightarrow> DecCoin option" where
  "DecCoin_Plus coin coinB =
     (if dc_Denom coin \<noteq> dc_Denom coinB then None
      else do { amount \<leftarrow> Dec_Add (dc_Amount coin) (dc_Amount coinB); Some \<lparr>dc_Denom = dc_Denom coin, dc_Amount = amount\<rparr> })"

definition DecCoin_Minus :: "DecCoin \<Rightarrow> DecCoin \<Rightarrow> DecCoin option" where
  "DecCoin_Minus coin coinB =
     (if dc_Denom coin \<noteq> dc_Denom coinB then None
      else do { amount \<leftarrow> Dec_Sub (dc_Amount coin) (dc_Amount coinB); Some \<lparr>dc_Denom = dc_Denom coin, dc_Amount = amount\<rparr> })"

definition DecCoin_TruncateDecimal :: "DecCoin \<Rightarrow> (Coin \<times> DecCoin) option" where
  "DecCoin_TruncateDecimal coin = do {
     truncated \<leftarrow> Dec_TruncateInt (dc_Amount coin);
     truncatedDec \<leftarrow> NewDecFromInt truncated;
     change \<leftarrow> Dec_Sub (dc_Amount coin) truncatedDec;
     c \<leftarrow> NewCoin (dc_Denom coin) truncated;
     Some (c, \<lparr>dc_Denom = dc_Denom coin, dc_Amount = change\<rparr>) }"

text \<open>\<open>fmt\<close> prints a \<open>Dec\<close> with the formatter of the \<open>big.Int\<close> it embeds: the scaled integer.\<close>

definition DecCoin_String :: "DecCoin \<Rightarrow> string" where
  "DecCoin_String coin = itoa (dc_Amount coin) @ dc_Denom coin"

definition NewDecCoins :: "Coins \<Rightarrow> DecCoins option" where
  "NewDecCoins coins = those (map NewDecCoinFromCoin coins)"

fun DecCoins_Plus :: "DecCoins \<Rightarrow> DecCoins \<Rightarrow> DecCoins option" where
  "DecCoins_Plus [] coinsB = Some coinsB"
| "DecCoins_Plus (coinA # coins) [] = Some (coinA # coins)"
| "DecCoins_Plus (coinA # coins) (coinB # coinsB) =
     (if dc_Denom coinA < dc_Denom coinB then
        do { sum \<leftarrow> DecCoins_Plus coins (coinB # coinsB); Some (coinA # sum) }
      else if dc_Denom coinA = dc_Denom coinB then do {
        amount \<leftarrow> Dec_Add (dc_Amount coinA) (dc_Amount coinB);
        if amount = 0 then DecCoins_Plus coins coinsB
        else do { c \<leftarrow> DecCoin_Plus coinA coinB; sum \<leftarrow> DecCoins_Plus coins coinsB; Some (c # sum) } }
      else do { sum \<leftarrow> DecCoins_Plus (coinA # coins) coinsB; Some (coinB # sum) })"

fun truncate_from :: "DecCoins \<Rightarrow> DecCoins \<Rightarrow> (Coins \<times> DecCoins) option" where
  "truncate_from changeSum [] = Some ([], changeSum)"
| "truncate_from changeSum (coin # coins) = do {
     (truncated, change) \<leftarrow> DecCoin_TruncateDecimal coin;
     changeSum \<leftarrow> DecCoins_Plus changeSum [change];
     (out, changeSum) \<leftarrow> truncate_from changeSum coins;
     Some (truncated # out, changeSum) }"

definition TruncateDecimal :: "DecCoins \<Rightarrow> (Coins \<times> DecCoins) option" where
  "TruncateDecimal coins = truncate_from [] coins"

definition DecCoins_Negative :: "DecCoins \<Rightarrow> DecCoins" where
  "DecCoins_Negative coins = map (\<lambda>coin. \<lparr>dc_Denom = dc_Denom coin, dc_Amount = - dc_Amount coin\<rparr>) coins"

definition DecCoins_Minus :: "DecCoins \<Rightarrow> DecCoins \<Rightarrow> DecCoins option" where
  "DecCoins_Minus coins coinsB = DecCoins_Plus coins (DecCoins_Negative coinsB)"

definition MulDec :: "DecCoins \<Rightarrow> Dec \<Rightarrow> DecCoins option" where
  "MulDec coins d = those (map (\<lambda>coin.
     do { amount \<leftarrow> Dec_Mul (dc_Amount coin) d; Some \<lparr>dc_Denom = dc_Denom coin, dc_Amount = amount\<rparr> }) coins)"

definition QuoDec :: "DecCoins \<Rightarrow> Dec \<Rightarrow> DecCoins option" where
  "QuoDec coins d = those (map (\<lambda>coin.
     do { amount \<leftarrow> Dec_Quo (dc_Amount coin) d; Some \<lparr>dc_Denom = dc_Denom coin, dc_Amount = amount\<rparr> }) coins)"

function DecCoins_AmountOf :: "DecCoins \<Rightarrow> string \<Rightarrow> Dec" where
  "DecCoins_AmountOf [] denom = 0"
| "DecCoins_AmountOf [coin] denom = (if dc_Denom coin = denom then dc_Amount coin else 0)"
| "DecCoins_AmountOf (c1 # c2 # cs) denom =
     (let coins = c1 # c2 # cs; midIdx = length coins div 2; coin = coins ! midIdx in
      if denom < dc_Denom coin then DecCoins_AmountOf (take midIdx coins) denom
      else if denom = dc_Denom coin then dc_Amount coin
      else DecCoins_AmountOf (drop (midIdx + 1) coins) denom)"
  by pat_completeness auto
termination
  by (relation "measure (length \<circ> fst)") auto

definition DecCoins_IsZero :: "DecCoins \<Rightarrow> bool" where
  "DecCoins_IsZero coins = list_all (\<lambda>coin. dc_Amount coin = 0) coins"

fun DecCoins_ToString :: "DecCoins \<Rightarrow> string" where
  "DecCoins_ToString [] = []"
| "DecCoins_ToString [coin] = Dec_String (dc_Amount coin) @ dc_Denom coin"
| "DecCoins_ToString (coin # coins) = Dec_String (dc_Amount coin) @ dc_Denom coin @ '','' @ DecCoins_ToString coins"

definition DecCoins_String :: "DecCoins \<Rightarrow> string" where
  "DecCoins_String coins =
     (if coins = [] then []
      else butlast (concat (map (\<lambda>coin. DecCoin_String coin @ '','') coins)))"

section \<open>Accumulation\<close>

record TotalAccum =
  ta_UpdateHeight :: int
  ta_Accum :: Dec

definition NewTotalAccum :: "int \<Rightarrow> TotalAccum" where
  "NewTotalAccum height = \<lparr>ta_UpdateHeight = height, ta_Accum = 0\<rparr>"

definition UpdateForNewHeight :: "TotalAccum \<Rightarrow> int \<Rightarrow> Dec \<Rightarrow> TotalAccum option" where
  "UpdateForNewHeight ta height accumCreatedPerBlock =
     (let blocks = height - ta_UpdateHeight ta in
      if blocks < 0 then None
      else do {
        accumDelta \<leftarrow> Dec_MulInt accumCreatedPerBlock blocks;
        accum \<leftarrow> Dec_Add (ta_Accum ta) accumDelta;
        Some \<lparr>ta_UpdateHeight = height, ta_Accum = accum\<rparr> })"

definition GetAccum :: "TotalAccum \<Rightarrow> int \<Rightarrow> Dec \<Rightarrow> Dec option" where
  "GetAccum ta height accumCreatedPerBlock =
     (let blocks = height - ta_UpdateHeight ta in
      if blocks < 0 then None
      else do { accumDelta \<leftarrow> Dec_MulInt accumCreatedPerBlock blocks; Dec_Add (ta_Accum ta) accumDelta })"

record FeePool =
  fp_TotalValAccum :: TotalAccum
  fp_ValPool :: DecCoins
  fp_CommunityPool :: DecCoins

definition UpdateTotalValAccum :: "FeePool \<Rightarrow> int \<Rightarrow> Dec \<Rightarrow> FeePool option" where
  "UpdateTotalValAccum f height totalBondedTokens =
     do { ta \<leftarrow> UpdateForNewHeight (fp_TotalValAccum f) height totalBondedTokens; Some (f\<lparr>fp_TotalValAccum := ta\<rparr>) }"

definition GetTotalValAccum :: "FeePool \<Rightarrow> int \<Rightarrow> Dec \<Rightarrow> Dec option" where
  "GetTotalValAccum f height totalBondedTokens = GetAccum (fp_TotalValAccum f) height totalBondedTokens"

definition InitialFeePool :: FeePool where
  "InitialFeePool = \<lparr>fp_TotalValAccum = NewTotalAccum 0, fp_ValPool = [], fp_CommunityPool = []\<rparr>"

section \<open>Validators\<close>

record WithdrawContext =
  wc_FeePool :: FeePool
  wc_Height :: int
  wc_TotalPower :: Dec
  wc_ValPower :: Dec
  wc_CommissionRate :: Dec

record ValidatorDistInfo =
  vdi_OperatorAddr :: ValAddress
  vdi_FeePoolWithdrawalHeight :: int
  vdi_DelAccum :: TotalAccum
  vdi_DelPool :: DecCoins
  vdi_ValCommission :: DecCoins

definition NewValidatorDistInfo :: "ValAddress \<Rightarrow> int \<Rightarrow> ValidatorDistInfo" where
  "NewValidatorDistInfo operatorAddr currentHeight =
     \<lparr>vdi_OperatorAddr = operatorAddr, vdi_FeePoolWithdrawalHeight = currentHeight,
      vdi_DelAccum = NewTotalAccum currentHeight, vdi_DelPool = [], vdi_ValCommission = []\<rparr>"

definition UpdateTotalDelAccum :: "ValidatorDistInfo \<Rightarrow> int \<Rightarrow> Dec \<Rightarrow> ValidatorDistInfo option" where
  "UpdateTotalDelAccum vi height totalDelShares =
     do { ta \<leftarrow> UpdateForNewHeight (vdi_DelAccum vi) height totalDelShares; Some (vi\<lparr>vdi_DelAccum := ta\<rparr>) }"

definition GetTotalDelAccum :: "ValidatorDistInfo \<Rightarrow> int \<Rightarrow> Dec \<Rightarrow> Dec option" where
  "GetTotalDelAccum vi height totalDelShares = GetAccum (vdi_DelAccum vi) height totalDelShares"

definition GetValAccum :: "ValidatorDistInfo \<Rightarrow> int \<Rightarrow> Dec \<Rightarrow> Dec option" where
  "GetValAccum vi height valTokens = Dec_MulInt valTokens (height - vdi_FeePoolWithdrawalHeight vi)"

text \<open>The part of a pool that an accumulation earns.\<close>

definition pool_part :: "DecCoins \<Rightarrow> Dec \<Rightarrow> Dec \<Rightarrow> DecCoins option" where
  "pool_part pool accum totalAccum = do { product \<leftarrow> MulDec pool accum; QuoDec product totalAccum }"

definition TakeFeePoolRewards :: "ValidatorDistInfo \<Rightarrow> WithdrawContext \<Rightarrow> (ValidatorDistInfo \<times> FeePool) option" where
  "TakeFeePoolRewards vi wc = do {
     fp \<leftarrow> UpdateTotalValAccum (wc_FeePool wc) (wc_Height wc) (wc_TotalPower wc);
     let totalAccum = ta_Accum (fp_TotalValAccum fp);
     if totalAccum = 0 then Some (vi\<lparr>vdi_FeePoolWithdrawalHeight := wc_Height wc\<rparr>, fp)
     else do {
       accum \<leftarrow> GetValAccum vi (wc_Height wc) (wc_ValPower wc);
       if accum > totalAccum then None
       else do {
         withdrawalTokens \<leftarrow> pool_part (fp_ValPool fp) accum totalAccum;
         remValPool \<leftarrow> DecCoins_Minus (fp_ValPool fp) withdrawalTokens;
         commission \<leftarrow> MulDec withdrawalTokens (wc_CommissionRate wc);
         afterCommission \<leftarrow> DecCoins_Minus withdrawalTokens commission;
         restAccum \<leftarrow> Dec_Sub totalAccum accum;
         valCommission \<leftarrow> DecCoins_Plus (vdi_ValCommission vi) commission;
         delPool \<leftarrow> DecCoins_Plus (vdi_DelPool vi) afterCommission;
         Some (vi\<lparr>vdi_FeePoolWithdrawalHeight := wc_Height wc, vdi_ValCommission := valCommission, vdi_DelPool := delPool\<rparr>,
           fp\<lparr>fp_TotalValAccum := (fp_TotalValAccum fp)\<lparr>ta_Accum := restAccum\<rparr>, fp_ValPool := remValPool\<rparr>) } } }"

definition WithdrawCommission ::
  "ValidatorDistInfo \<Rightarrow> WithdrawContext \<Rightarrow> (ValidatorDistInfo \<times> FeePool \<times> DecCoins) option" where
  "WithdrawCommission vi wc = do {
     (vi, fp) \<leftarrow> TakeFeePoolRewards vi wc;
     Some (vi\<lparr>vdi_ValCommission := []\<rparr>, fp, vdi_ValCommission vi) }"

definition CurrentPoolRewards :: "ValidatorDistInfo \<Rightarrow> WithdrawContext \<Rightarrow> DecCoins option" where
  "CurrentPoolRewards vi wc = do {
     totalValAccum \<leftarrow> GetTotalValAccum (wc_FeePool wc) (wc_Height wc) (wc_TotalPower wc);
     valAccum \<leftarrow> GetValAccum vi (wc_Height wc) (wc_ValPower wc);
     if valAccum > totalValAccum then None
     else do {
       withdrawalTokens \<leftarrow> pool_part (fp_ValPool (wc_FeePool wc)) valAccum totalValAccum;
       commission \<leftarrow> MulDec withdrawalTokens (wc_CommissionRate wc);
       afterCommission \<leftarrow> DecCoins_Minus withdrawalTokens commission;
       DecCoins_Plus (vdi_DelPool vi) afterCommission } }"

definition CurrentCommissionRewards :: "ValidatorDistInfo \<Rightarrow> WithdrawContext \<Rightarrow> DecCoins option" where
  "CurrentCommissionRewards vi wc = do {
     totalValAccum \<leftarrow> GetTotalValAccum (wc_FeePool wc) (wc_Height wc) (wc_TotalPower wc);
     valAccum \<leftarrow> GetValAccum vi (wc_Height wc) (wc_ValPower wc);
     if valAccum > totalValAccum then None
     else do {
       withdrawalTokens \<leftarrow> pool_part (fp_ValPool (wc_FeePool wc)) valAccum totalValAccum;
       commission \<leftarrow> MulDec withdrawalTokens (wc_CommissionRate wc);
       DecCoins_Plus (vdi_ValCommission vi) commission } }"

section \<open>Delegations\<close>

record DelegationDistInfo =
  ddi_DelegatorAddr :: AccAddress
  ddi_ValOperatorAddr :: ValAddress
  ddi_DelPoolWithdrawalHeight :: int

definition NewDelegationDistInfo :: "AccAddress \<Rightarrow> ValAddress \<Rightarrow> int \<Rightarrow> DelegationDistInfo" where
  "NewDelegationDistInfo delegatorAddr valOperatorAddr currentHeight =
     \<lparr>ddi_DelegatorAddr = delegatorAddr, ddi_ValOperatorAddr = valOperatorAddr, ddi_DelPoolWithdrawalHeight = currentHeight\<rparr>"

definition GetDelAccum :: "DelegationDistInfo \<Rightarrow> int \<Rightarrow> Dec \<Rightarrow> Dec option" where
  "GetDelAccum di height delegatorShares = Dec_MulInt delegatorShares (height - ddi_DelPoolWithdrawalHeight di)"

definition WithdrawRewards ::
  "DelegationDistInfo \<Rightarrow> WithdrawContext \<Rightarrow> ValidatorDistInfo \<Rightarrow> Dec \<Rightarrow> Dec \<Rightarrow>
   (DelegationDistInfo \<times> ValidatorDistInfo \<times> FeePool \<times> DecCoins) option" where
  "WithdrawRewards di wc vi totalDelShares delegatorShares = do {
     vi \<leftarrow> UpdateTotalDelAccum vi (wc_Height wc) totalDelShares;
     if ta_Accum (vdi_DelAccum vi) = 0 then Some (di, vi, wc_FeePool wc, [])
     else do {
       (vi, fp) \<leftarrow> TakeFeePoolRewards vi wc;
       accum \<leftarrow> GetDelAccum di (wc_Height wc) delegatorShares;
       withdrawalTokens \<leftarrow> pool_part (vdi_DelPool vi) accum (ta_Accum (vdi_DelAccum vi));
       remDelPool \<leftarrow> DecCoins_Minus (vdi_DelPool vi) withdrawalTokens;
       restAccum \<leftarrow> Dec_Sub (ta_Accum (vdi_DelAccum vi)) accum;
       Some (di\<lparr>ddi_DelPoolWithdrawalHeight := wc_Height wc\<rparr>,
         vi\<lparr>vdi_DelPool := remDelPool, vdi_DelAccum := (vdi_DelAccum vi)\<lparr>ta_Accum := restAccum\<rparr>\<rparr>, fp, withdrawalTokens) } }"

definition CurrentRewards ::
  "DelegationDistInfo \<Rightarrow> WithdrawContext \<Rightarrow> ValidatorDistInfo \<Rightarrow> Dec \<Rightarrow> Dec \<Rightarrow> DecCoins option" where
  "CurrentRewards di wc vi totalDelShares delegatorShares = do {
     totalDelAccum \<leftarrow> GetTotalDelAccum vi (wc_Height wc) totalDelShares;
     if ta_Accum (vdi_DelAccum vi) = 0 then Some []
     else do {
       rewards \<leftarrow> CurrentPoolRewards vi wc;
       accum \<leftarrow> GetDelAccum di (wc_Height wc) delegatorShares;
       pool_part rewards accum totalDelAccum } }"

section \<open>Parameters, errors and messages\<close>

record DistrParams =
  CommunityTax :: Dec
  BaseProposerReward :: Dec
  BonusProposerReward :: Dec

definition DefaultDistrParams :: DistrParams where
  "DefaultDistrParams = \<lparr>CommunityTax = 2 * 10 ^ 8, BaseProposerReward = 10 ^ 8, BonusProposerReward = 4 * 10 ^ 8\<rparr>"

definition validateCommunityTax :: "Dec \<Rightarrow> sdk_error + unit" where
  "validateCommunityTax v = (if v \<le> 0 \<or> v > 2 * 10 ^ 9 then Inl (SdkError ''params'' 700) else Inr ())"

definition validateBaseProposerReward :: "Dec \<Rightarrow> sdk_error + unit" where
  "validateBaseProposerReward v = (if v \<le> 0 \<or> v > 2 * 10 ^ 8 then Inl (SdkError ''params'' 701) else Inr ())"

definition validateBonusProposerReward :: "Dec \<Rightarrow> sdk_error + unit" where
  "validateBonusProposerReward v = (if v \<le> 0 \<or> v > 8 * 10 ^ 8 then Inl (SdkError ''params'' 702) else Inr ())"

definition ValidateDistrParams :: "DistrParams \<Rightarrow> sdk_error + unit" where
  "ValidateDistrParams p =
     (case validateCommunityTax (CommunityTax p) of Inl e \<Rightarrow> Inl e
      | Inr _ \<Rightarrow> (case validateBaseProposerReward (BaseProposerReward p) of Inl e \<Rightarrow> Inl e
          | Inr _ \<Rightarrow> validateBonusProposerReward (BonusProposerReward p)))"

text \<open>\<open>Params.Validate\<close>: a parameter change by a proposal, with the value as a string.\<close>

definition DistrParams_Validate :: "string \<Rightarrow> string \<Rightarrow> sdk_error + Dec" where
  "DistrParams_Validate key val =
     (let check = (\<lambda>validate. case NewDecFromStr val of
          Inl _ \<Rightarrow> Inl (SdkError ''params'' 0)
        | Inr d \<Rightarrow> (case validate d of Inl e \<Rightarrow> Inl e | Inr _ \<Rightarrow> Inr d)) in
      if key = ''CommunityTax'' then check validateCommunityTax
      else if key = ''BaseProposerReward'' then check validateBaseProposerReward
      else if key = ''BonusProposerReward'' then check validateBonusProposerReward
      else Inl (SdkError ''params'' 111))"

definition ErrNilAddr :: sdk_error where
  "ErrNilAddr = SdkError ''distr'' 103"

definition ErrNoDistInfo :: sdk_error where
  "ErrNoDistInfo = SdkError ''distr'' 104"

text \<open>An address of a message may be nil.\<close>

datatype distr_msg =
    MsgSetWithdrawAddress "AccAddress option" "AccAddress option"
  | MsgWithdrawDelegatorRewardsAll "AccAddress option"
  | MsgWithdrawDelegatorReward "AccAddress option" "ValAddress option"
  | MsgWithdrawValidatorRewardsAll "ValAddress option"

fun distr_ValidateBasic :: "distr_msg \<Rightarrow> sdk_error + unit" where
  "distr_ValidateBasic (MsgSetWithdrawAddress delAddr withdrawAddr) =
     (if delAddr = None then Inl ErrNilAddr else if withdrawAddr = None then Inl ErrNilAddr else Inr ())"
| "distr_ValidateBasic (MsgWithdrawDelegatorRewardsAll delAddr) = (if delAddr = None then Inl ErrNilAddr else Inr ())"
| "distr_ValidateBasic (MsgWithdrawDelegatorReward delAddr valAddr) =
     (if delAddr = None then Inl ErrNilAddr else if valAddr = None then Inl ErrNilAddr else Inr ())"
| "distr_ValidateBasic (MsgWithdrawValidatorRewardsAll valAddr) = (if valAddr = None then Inl ErrNilAddr else Inr ())"

fun distr_GetSigners :: "distr_msg \<Rightarrow> AccAddress list" where
  "distr_GetSigners (MsgSetWithdrawAddress delAddr _) = [case delAddr of None \<Rightarrow> [] | Some a \<Rightarrow> a]"
| "distr_GetSigners (MsgWithdrawDelegatorRewardsAll delAddr) = [case delAddr of None \<Rightarrow> [] | Some a \<Rightarrow> a]"
| "distr_GetSigners (MsgWithdrawDelegatorReward delAddr _) = [case delAddr of None \<Rightarrow> [] | Some a \<Rightarrow> a]"
| "distr_GetSigners (MsgWithdrawValidatorRewardsAll valAddr) = [case valAddr of None \<Rightarrow> [] | Some a \<Rightarrow> a]"

section \<open>Conservation of the reward arithmetic\<close>

text \<open>The total amount of a denomination in a list of coins.\<close>

definition dbal :: "DecCoins \<Rightarrow> string \<Rightarrow> Dec" where
  "dbal cs d = (\<Sum>c\<leftarrow>cs. if dc_Denom c = d then dc_Amount c else 0)"

lemma dbal_simps [simp]:
  "dbal [] d = 0" "dbal (c # cs) d = (if dc_Denom c = d then dc_Amount c else 0) + dbal cs d"
  by (simp_all add: dbal_def)

lemma Dec_Add_Some: "Dec_Add a b = Some c \<longleftrightarrow> c = a + b \<and> \<not> Dec_overflow (a + b)"
  by (auto simp: Dec_Add_def Let_def)

lemma Dec_Sub_Some: "Dec_Sub a b = Some c \<longleftrightarrow> c = a - b \<and> \<not> Dec_overflow (a - b)"
  by (auto simp: Dec_Sub_def Let_def)

lemma DecCoins_Plus_dbal: "DecCoins_Plus a b = Some c \<Longrightarrow> dbal c d = dbal a d + dbal b d"
proof (induction a b arbitrary: c rule: DecCoins_Plus.induct)
  case (3 x xs y ys)
  consider "dc_Denom x < dc_Denom y" | "dc_Denom x = dc_Denom y" "dc_Amount x + dc_Amount y = 0"
    | "dc_Denom x = dc_Denom y" "dc_Amount x + dc_Amount y \<noteq> 0" | "dc_Denom y < dc_Denom x"
    by fastforce
  then show ?case
  proof cases
    case 1
    then obtain r where "DecCoins_Plus xs (y # ys) = Some r" "c = x # r"
      using "3.prems" by (auto simp: bind_eq_Some_conv)
    then show ?thesis
      using "3.IH"(1) [OF 1] by simp
  next
    case 2
    then have "DecCoins_Plus xs ys = Some c" "Dec_Add (dc_Amount x) (dc_Amount y) = Some 0"
      using "3.prems" by (auto simp: bind_eq_Some_conv Dec_Add_Some)
    then show ?thesis
      using "3.IH"(2) [of 0 c] 2 by simp
  next
    case 3
    let ?s = "dc_Amount x + dc_Amount y"
    obtain r where r: "DecCoins_Plus xs ys = Some r" "c = \<lparr>dc_Denom = dc_Denom x, dc_Amount = ?s\<rparr> # r"
        "Dec_Add (dc_Amount x) (dc_Amount y) = Some ?s" "DecCoin_Plus x y = Some \<lparr>dc_Denom = dc_Denom x, dc_Amount = ?s\<rparr>"
      using "3.prems" 3 by (auto simp: bind_eq_Some_conv Dec_Add_Some DecCoin_Plus_def)
    then show ?thesis
      using "3.IH"(3) [OF _ 3(1) r(3) 3(2) r(4) r(1)] 3 by simp
  next
    case 4
    then have "\<not> dc_Denom x < dc_Denom y" "dc_Denom x \<noteq> dc_Denom y"
      by auto
    then obtain r where "DecCoins_Plus (x # xs) ys = Some r" "c = y # r"
      using "3.prems" by (auto simp: bind_eq_Some_conv)
    then show ?thesis
      using "3.IH"(4) [of r] 4 by auto
  qed
qed auto

lemma DecCoins_Negative_dbal [simp]: "dbal (DecCoins_Negative cs) d = - dbal cs d"
  by (induction cs) (auto simp: DecCoins_Negative_def)

lemma DecCoins_Minus_dbal: "DecCoins_Minus a b = Some c \<Longrightarrow> dbal c d = dbal a d - dbal b d"
  by (auto simp: DecCoins_Minus_def dest: DecCoins_Plus_dbal)

lemma NewDecCoins_dbal: "NewDecCoins cs = Some ds \<Longrightarrow> dbal ds d = bal cs d * precisionReuse"
  by (induction cs arbitrary: ds) (auto simp: NewDecCoins_def NewDecCoinFromCoin_def distrib_right bind_eq_Some_conv split: option.splits)

lemma truncate_from_dbal:
  "truncate_from ch cs = Some (out, ch') \<Longrightarrow>
   bal out d * precisionReuse + dbal ch' d = dbal ch d + dbal cs d \<and> nonneg out \<and> ranged out"
proof (induction ch cs arbitrary: out ch' rule: truncate_from.induct)
  case (2 ch c cs)
  then obtain t x ch1 out1 where t: "DecCoin_TruncateDecimal c = Some (t, x)" "DecCoins_Plus ch [x] = Some ch1"
    "truncate_from ch1 cs = Some (out1, ch')" "out = t # out1"
    by (auto simp: bind_eq_Some_conv)
  have IH: "bal out1 d * precisionReuse + dbal ch' d = dbal ch1 d + dbal cs d \<and> nonneg out1 \<and> ranged out1"
    using t "2.IH" by (auto simp: bind_eq_Some_conv)
  have "dbal ch1 d = dbal ch d + dbal [x] d"
    using t(2) by (rule DecCoins_Plus_dbal)
  moreover have "Denom t = dc_Denom c" "dc_Denom x = dc_Denom c" "dc_Amount x = dc_Amount c - Amount t * precisionReuse"
      "0 \<le> Amount t" "in_range (Amount t)"
    using t(1) by (auto simp: DecCoin_TruncateDecimal_def NewCoin_def Dec_Sub_Some Dec_TruncateInt_def NewIntFromBigInt_def
        in_range_def bind_eq_Some_conv split: if_splits)
  ultimately show ?case
    using IH by (auto simp: t(4) distrib_right nonneg_def ranged_def)
qed (auto simp: nonneg_def ranged_def)

lemma TruncateDecimal_dbal:
  assumes "TruncateDecimal cs = Some (out, ch)"
  shows "bal out d * precisionReuse + dbal ch d = dbal cs d" "nonneg out" "ranged out"
  using truncate_from_dbal [of "[]" cs out ch d] assms by (simp_all add: TruncateDecimal_def)

lemma TakeFeePoolRewards_cases:
  assumes "TakeFeePoolRewards vi wc = Some (vi', fp')"
  obtains (none) "fp_ValPool fp' = fp_ValPool (wc_FeePool wc)" "vdi_ValCommission vi' = vdi_ValCommission vi"
      "vdi_DelPool vi' = vdi_DelPool vi"
  | (share) accum total_accum w com rest where "pool_part (fp_ValPool (wc_FeePool wc)) accum total_accum = Some w"
      "DecCoins_Minus (fp_ValPool (wc_FeePool wc)) w = Some (fp_ValPool fp')"
      "DecCoins_Minus w com = Some rest" "DecCoins_Plus (vdi_ValCommission vi) com = Some (vdi_ValCommission vi')"
      "DecCoins_Plus (vdi_DelPool vi) rest = Some (vdi_DelPool vi')"
proof -
  obtain ta where ta: "UpdateForNewHeight (fp_TotalValAccum (wc_FeePool wc)) (wc_Height wc) (wc_TotalPower wc) = Some ta"
    using assms by (auto simp: TakeFeePoolRewards_def UpdateTotalValAccum_def bind_eq_Some_conv)
  show thesis
  proof (cases "ta_Accum ta = 0")
    case True
    then show thesis
      using assms ta none by (auto simp: TakeFeePoolRewards_def UpdateTotalValAccum_def)
  next
    case False
    then obtain accum w com rest where "pool_part (fp_ValPool (wc_FeePool wc)) accum (ta_Accum ta) = Some w"
      "DecCoins_Minus (fp_ValPool (wc_FeePool wc)) w = Some (fp_ValPool fp')"
      "DecCoins_Minus w com = Some rest" "DecCoins_Plus (vdi_ValCommission vi) com = Some (vdi_ValCommission vi')"
      "DecCoins_Plus (vdi_DelPool vi) rest = Some (vdi_DelPool vi')"
      using assms ta by (auto simp: TakeFeePoolRewards_def UpdateTotalValAccum_def Let_def bind_eq_Some_conv split: if_splits)
    then show thesis
      by (rule share)
  qed
qed

lemma TakeFeePoolRewards_dbal:
  assumes "TakeFeePoolRewards vi wc = Some (vi', fp')"
  shows "dbal (fp_ValPool fp') d + dbal (vdi_ValCommission vi') d + dbal (vdi_DelPool vi') d =
      dbal (fp_ValPool (wc_FeePool wc)) d + dbal (vdi_ValCommission vi) d + dbal (vdi_DelPool vi) d"
  using assms
proof (cases rule: TakeFeePoolRewards_cases)
  case (share accum total_accum w com rest)
  then show ?thesis
    using DecCoins_Minus_dbal [OF share(2)] DecCoins_Minus_dbal [OF share(3)] DecCoins_Plus_dbal [OF share(4)]
      DecCoins_Plus_dbal [OF share(5)] by simp
qed simp

lemma TakeFeePoolRewards_frame:
  assumes "TakeFeePoolRewards vi wc = Some (vi', fp')"
  shows "vdi_OperatorAddr vi' = vdi_OperatorAddr vi" "vdi_DelAccum vi' = vdi_DelAccum vi"
    "fp_CommunityPool fp' = fp_CommunityPool (wc_FeePool wc)" "vdi_FeePoolWithdrawalHeight vi' = wc_Height wc"
  using assms by (auto simp: TakeFeePoolRewards_def UpdateTotalValAccum_def Let_def bind_eq_Some_conv split: if_splits)

lemma WithdrawCommission_dbal:
  assumes "WithdrawCommission vi wc = Some (vi', fp', w)"
  shows "dbal (fp_ValPool fp') d + dbal (vdi_ValCommission vi') d + dbal (vdi_DelPool vi') d + dbal w d =
      dbal (fp_ValPool (wc_FeePool wc)) d + dbal (vdi_ValCommission vi) d + dbal (vdi_DelPool vi) d"
    and "vdi_OperatorAddr vi' = vdi_OperatorAddr vi" "fp_CommunityPool fp' = fp_CommunityPool (wc_FeePool wc)"
proof -
  obtain v where v: "TakeFeePoolRewards vi wc = Some (v, fp')" "vi' = v\<lparr>vdi_ValCommission := []\<rparr>" "w = vdi_ValCommission v"
    using assms by (auto simp: WithdrawCommission_def bind_eq_Some_conv)
  show "dbal (fp_ValPool fp') d + dbal (vdi_ValCommission vi') d + dbal (vdi_DelPool vi') d + dbal w d =
      dbal (fp_ValPool (wc_FeePool wc)) d + dbal (vdi_ValCommission vi) d + dbal (vdi_DelPool vi) d"
    using TakeFeePoolRewards_dbal [OF v(1), of d] v(2,3) by simp
  show "vdi_OperatorAddr vi' = vdi_OperatorAddr vi" "fp_CommunityPool fp' = fp_CommunityPool (wc_FeePool wc)"
    using TakeFeePoolRewards_frame [OF v(1)] v(2) by simp_all
qed

lemma WithdrawRewards_cases:
  assumes "WithdrawRewards di wc vi total_shares shares = Some (di', vi', fp', w)"
  obtains (none) "fp' = wc_FeePool wc" "vdi_ValCommission vi' = vdi_ValCommission vi" "vdi_DelPool vi' = vdi_DelPool vi" "w = []"
      "vdi_OperatorAddr vi' = vdi_OperatorAddr vi" "di' = di"
  | (share) u v accum where "vdi_OperatorAddr u = vdi_OperatorAddr vi" "vdi_ValCommission u = vdi_ValCommission vi"
      "vdi_DelPool u = vdi_DelPool vi" "TakeFeePoolRewards u wc = Some (v, fp')" "pool_part (vdi_DelPool v) accum (ta_Accum (vdi_DelAccum v)) = Some w"
      "DecCoins_Minus (vdi_DelPool v) w = Some (vdi_DelPool vi')" "vdi_ValCommission vi' = vdi_ValCommission v"
      "vdi_OperatorAddr vi' = vdi_OperatorAddr v" "di' = di\<lparr>ddi_DelPoolWithdrawalHeight := wc_Height wc\<rparr>"
proof -
  obtain x where x: "UpdateForNewHeight (vdi_DelAccum vi) (wc_Height wc) total_shares = Some x"
    using assms by (auto simp: WithdrawRewards_def UpdateTotalDelAccum_def bind_eq_Some_conv)
  let ?u = "vi\<lparr>vdi_DelAccum := x\<rparr>"
  show thesis
  proof (cases "ta_Accum x = 0")
    case True
    then show thesis
      using assms x none by (auto simp: WithdrawRewards_def UpdateTotalDelAccum_def)
  next
    case False
    note w = assms [unfolded WithdrawRewards_def UpdateTotalDelAccum_def x] False
    obtain v fp0 where 1: "TakeFeePoolRewards ?u wc = Some (v, fp0)"
      using w by (auto simp: bind_eq_Some_conv)
    obtain accum where 2: "GetDelAccum di (wc_Height wc) shares = Some accum"
      using w 1 by (auto simp: bind_eq_Some_conv)
    obtain w0 where 3: "pool_part (vdi_DelPool v) accum (ta_Accum (vdi_DelAccum v)) = Some w0"
      using w 1 2 by (auto simp: bind_eq_Some_conv)
    obtain rem where 4: "DecCoins_Minus (vdi_DelPool v) w0 = Some rem"
      using w 1 2 3 by (auto simp: bind_eq_Some_conv)
    obtain rest where 5: "Dec_Sub (ta_Accum (vdi_DelAccum v)) accum = Some rest"
      using w 1 2 3 4 by (auto simp: bind_eq_Some_conv)
    have "fp' = fp0" "w = w0" "di' = di\<lparr>ddi_DelPoolWithdrawalHeight := wc_Height wc\<rparr>"
      "vi' = v\<lparr>vdi_DelPool := rem, vdi_DelAccum := (vdi_DelAccum v)\<lparr>ta_Accum := rest\<rparr>\<rparr>"
      using w 1 2 3 4 5 by simp_all
    then show thesis
      using 1 2 3 4
      by (intro share [of ?u v accum]) simp_all
  qed
qed

lemma WithdrawRewards_dbal:
  assumes "WithdrawRewards di wc vi total_shares shares = Some (di', vi', fp', w)"
  shows "dbal (fp_ValPool fp') d + dbal (vdi_ValCommission vi') d + dbal (vdi_DelPool vi') d + dbal w d =
      dbal (fp_ValPool (wc_FeePool wc)) d + dbal (vdi_ValCommission vi) d + dbal (vdi_DelPool vi) d" (is ?thesis1)
    and "vdi_OperatorAddr vi' = vdi_OperatorAddr vi" (is ?thesis2) and "fp_CommunityPool fp' = fp_CommunityPool (wc_FeePool wc)" (is ?thesis3)
    and "ddi_DelegatorAddr di' = ddi_DelegatorAddr di" (is ?thesis4) and "ddi_ValOperatorAddr di' = ddi_ValOperatorAddr di" (is ?thesis5)
proof -
  have "?thesis1 \<and> ?thesis2 \<and> ?thesis3 \<and> ?thesis4 \<and> ?thesis5"
    using assms
  proof (cases rule: WithdrawRewards_cases)
    case (share u v accum)
    then show ?thesis
      using TakeFeePoolRewards_dbal [OF share(4), of d] TakeFeePoolRewards_frame [OF share(4)] DecCoins_Minus_dbal [OF share(6), of d]
      by simp
  qed simp
  then show ?thesis1 ?thesis2 ?thesis3 ?thesis4 ?thesis5
    by blast+
qed

end
