(* ===== verification/Distribution.thy ===== *)
theory Distribution
  imports Stake_Invariants Distr_Types
begin

text \<open>
  Component: \<open>src/app/v1/distribution\<close>: the fee pool and the distribution records of validators and
  delegations, withdrawal of rewards, the hooks that staking calls, the allocation of collected fees,
  the message handler, the begin blocker, genesis and the runtime checks. The state extends the
  staking state. Metrics, tags, coin-flow tags and logs are left out.
\<close>

section \<open>State\<close>

record dist_state = stake_state +
  feePool :: "FeePool option"
  valDistInfos :: "(ValAddress, ValidatorDistInfo) fmap"
  delDistInfos :: "(AccAddress \<times> ValAddress, DelegationDistInfo) fmap"
  withdrawAddrs :: "(AccAddress, AccAddress) fmap"
  previousProposer :: "ConsAddress option"
  distrParams :: DistrParams

definition CommunityTaxCoinsAccAddr :: "'e externals_scheme \<Rightarrow> AccAddress" where
  "CommunityTaxCoinsAccAddr E = AddressHash E ''communityTaxCoins''"

text \<open>What the module reads of the staking keeper.\<close>

definition GetLastTotalPower :: "'z stake_state_scheme \<Rightarrow> int" where
  "GetLastTotalPower s = (case lastTotalPower s of None \<Rightarrow> 0 | Some p \<Rightarrow> p)"

definition GetLastValidatorPower :: "ValAddress \<Rightarrow> 'z stake_state_scheme \<Rightarrow> int" where
  "GetLastValidatorPower operator s = (case fmlookup (lastValidatorPowers s) operator of None \<Rightarrow> 0 | Some p \<Rightarrow> p)"

definition GetDelegatorDelegations :: "AccAddress \<Rightarrow> 'z stake_state_scheme \<Rightarrow> Delegation list" where
  "GetDelegatorDelegations delAddr s =
     filter (\<lambda>d. d_DelegatorAddr d = delAddr) (map snd (sorted_list_of_fmap (delegations s)))"

section \<open>Records\<close>

definition GetFeePool :: "('z dist_state_scheme, FeePool) op" where
  "GetFeePool = bind_op (gets feePool) lift_go"

definition SetFeePool :: "FeePool \<Rightarrow> ('z dist_state_scheme, unit) op" where
  "SetFeePool fp = modify (\<lambda>s. s\<lparr>feePool := Some fp\<rparr>)"

definition SetGenesisFeePool :: "FeePool \<Rightarrow> ('z dist_state_scheme, unit) op" where
  "SetGenesisFeePool fp =
     bind_op (if \<not> DecCoins_IsZero (fp_ValPool fp) then
         bind_op (lift_go (TruncateDecimal (fp_ValPool fp))) (\<lambda>(coins, _).
         bind_op (IncreaseTotalLoosenToken coins) (\<lambda>_.
         bind_op (lift_go (NewDecCoins coins)) (\<lambda>valPool.
         ret (fp\<lparr>fp_ValPool := valPool\<rparr>))))
       else ret fp) SetFeePool"

definition HasValidatorDistInfo :: "ValAddress \<Rightarrow> 'z dist_state_scheme \<Rightarrow> bool" where
  "HasValidatorDistInfo operatorAddr s \<longleftrightarrow> fmlookup (valDistInfos s) operatorAddr \<noteq> None"

definition GetValidatorDistInfo :: "ValAddress \<Rightarrow> ('z dist_state_scheme, ValidatorDistInfo) op" where
  "GetValidatorDistInfo operatorAddr = bind_op (gets (\<lambda>s. fmlookup (valDistInfos s) operatorAddr)) lift_go"

definition SetValidatorDistInfo :: "ValidatorDistInfo \<Rightarrow> ('z dist_state_scheme, unit) op" where
  "SetValidatorDistInfo vdi = modify (\<lambda>s. s\<lparr>valDistInfos := fmupd (vdi_OperatorAddr vdi) vdi (valDistInfos s)\<rparr>)"

definition RemoveValidatorDistInfo :: "ValAddress \<Rightarrow> ('z dist_state_scheme, unit) op" where
  "RemoveValidatorDistInfo valAddr =
     bind_op (GetValidatorDistInfo valAddr) (\<lambda>vdi.
     if ta_Accum (vdi_DelAccum vdi) > 0 then panic
     else if \<not> DecCoins_IsZero (vdi_ValCommission vdi) then panic
     else modify (\<lambda>s. s\<lparr>valDistInfos := fmdrop valAddr (valDistInfos s)\<rparr>))"

definition HasDelegationDistInfo :: "AccAddress \<Rightarrow> ValAddress \<Rightarrow> 'z dist_state_scheme \<Rightarrow> bool" where
  "HasDelegationDistInfo delAddr valOperatorAddr s \<longleftrightarrow> fmlookup (delDistInfos s) (delAddr, valOperatorAddr) \<noteq> None"

definition GetDelegationDistInfo :: "AccAddress \<Rightarrow> ValAddress \<Rightarrow> ('z dist_state_scheme, DelegationDistInfo) op" where
  "GetDelegationDistInfo delAddr valOperatorAddr =
     bind_op (gets (\<lambda>s. fmlookup (delDistInfos s) (delAddr, valOperatorAddr))) lift_go"

definition SetDelegationDistInfo :: "DelegationDistInfo \<Rightarrow> ('z dist_state_scheme, unit) op" where
  "SetDelegationDistInfo ddi =
     modify (\<lambda>s. s\<lparr>delDistInfos := fmupd (ddi_DelegatorAddr ddi, ddi_ValOperatorAddr ddi) ddi (delDistInfos s)\<rparr>)"

definition RemoveDelegationDistInfo :: "AccAddress \<Rightarrow> ValAddress \<Rightarrow> ('z dist_state_scheme, unit) op" where
  "RemoveDelegationDistInfo delAddr valOperatorAddr =
     modify (\<lambda>s. s\<lparr>delDistInfos := fmdrop (delAddr, valOperatorAddr) (delDistInfos s)\<rparr>)"

definition RemoveDelegationDistInfos :: "('z dist_state_scheme, unit) op" where
  "RemoveDelegationDistInfos = modify (\<lambda>s. s\<lparr>delDistInfos := fmempty\<rparr>)"

definition GetDelegatorWithdrawAddr :: "AccAddress \<Rightarrow> 'z dist_state_scheme \<Rightarrow> AccAddress" where
  "GetDelegatorWithdrawAddr delAddr s = (case fmlookup (withdrawAddrs s) delAddr of None \<Rightarrow> delAddr | Some a \<Rightarrow> a)"

definition SetDelegatorWithdrawAddr :: "AccAddress \<Rightarrow> AccAddress \<Rightarrow> ('z dist_state_scheme, unit) op" where
  "SetDelegatorWithdrawAddr delAddr withdrawAddr =
     modify (\<lambda>s. s\<lparr>withdrawAddrs := fmupd delAddr withdrawAddr (withdrawAddrs s)\<rparr>)"

definition RemoveDelegatorWithdrawAddr :: "AccAddress \<Rightarrow> AccAddress \<Rightarrow> ('z dist_state_scheme, unit) op" where
  "RemoveDelegatorWithdrawAddr delAddr withdrawAddr = modify (\<lambda>s. s\<lparr>withdrawAddrs := fmdrop delAddr (withdrawAddrs s)\<rparr>)"

definition GetPreviousProposerConsAddr :: "('z dist_state_scheme, ConsAddress) op" where
  "GetPreviousProposerConsAddr = bind_op (gets previousProposer) lift_go"

definition SetPreviousProposerConsAddr :: "ConsAddress \<Rightarrow> ('z dist_state_scheme, unit) op" where
  "SetPreviousProposerConsAddr consAddr = modify (\<lambda>s. s\<lparr>previousProposer := Some consAddr\<rparr>)"

definition GetFeePoolValAccum :: "block_ctx \<Rightarrow> ('z dist_state_scheme, Dec) op" where
  "GetFeePoolValAccum C =
     bind_op (gets GetLastTotalPower) (\<lambda>p.
     bind_op (lift_go (NewDecFromInt p)) (\<lambda>totalPower.
     bind_op GetFeePool (\<lambda>fp.
     lift_go (GetTotalValAccum fp (ctx_Height C) totalPower))))"

definition GetValidatorAccum :: "block_ctx \<Rightarrow> ValAddress \<Rightarrow> ('z dist_state_scheme, Dec) op" where
  "GetValidatorAccum C operatorAddr =
     bind_op (gets (HasValidatorDistInfo operatorAddr)) (\<lambda>has.
     if \<not> has then fail ErrNoDistInfo
     else
       bind_op (gets (GetLastValidatorPower operatorAddr)) (\<lambda>lastValPower.
       bind_op (GetValidatorDistInfo operatorAddr) (\<lambda>valInfo.
       bind_op (lift_go (NewDecFromInt lastValPower)) (\<lambda>valPower.
       lift_go (GetValAccum valInfo (ctx_Height C) valPower)))))"

definition GetWithdrawContext :: "block_ctx \<Rightarrow> ValAddress \<Rightarrow> ('z dist_state_scheme, WithdrawContext) op" where
  "GetWithdrawContext C valOperatorAddr =
     bind_op GetFeePool (\<lambda>fp.
     bind_op (gets (GetValidator valOperatorAddr)) (\<lambda>found.
     bind_op (gets (GetLastValidatorPower valOperatorAddr)) (\<lambda>lastValPower.
     bind_op (gets GetLastTotalPower) (\<lambda>lastTotalPower.
     bind_op (lift_go (NewDecFromInt lastTotalPower)) (\<lambda>totalPower.
     bind_op (lift_go (NewDecFromInt lastValPower)) (\<lambda>valPower.
     bind_op (lift_go found) (\<lambda>validator.
     ret \<lparr>wc_FeePool = fp, wc_Height = ctx_Height C, wc_TotalPower = totalPower, wc_ValPower = valPower,
       wc_CommissionRate = com_Rate (v_Commission validator)\<rparr>)))))))"

section \<open>Withdrawal by a delegator\<close>

definition withdrawDelegationReward ::
  "block_ctx \<Rightarrow> AccAddress \<Rightarrow> ValAddress \<Rightarrow> ('z dist_state_scheme, FeePool \<times> ValidatorDistInfo \<times> DelegationDistInfo \<times> DecCoins) op" where
  "withdrawDelegationReward C delAddr valAddr =
     bind_op (GetWithdrawContext C valAddr) (\<lambda>wc.
     bind_op (GetValidatorDistInfo valAddr) (\<lambda>valInfo.
     bind_op (GetDelegationDistInfo delAddr valAddr) (\<lambda>delInfo.
     bind_op (bind_op (gets (GetValidator valAddr)) lift_go) (\<lambda>validator.
     bind_op (bind_op (gets (GetDelegation delAddr valAddr)) lift_go) (\<lambda>delegation.
     bind_op (lift_go (WithdrawRewards delInfo wc valInfo (v_DelegatorShares validator) (d_Shares delegation)))
       (\<lambda>(delInfo, valInfo, feePool, withdraw).
     bind_op (lift_go (TruncateDecimal withdraw)) (\<lambda>_.
     ret (feePool, valInfo, delInfo, withdraw))))))))"

definition currentDelegationReward :: "block_ctx \<Rightarrow> AccAddress \<Rightarrow> ValAddress \<Rightarrow> ('z dist_state_scheme, DecCoins) op" where
  "currentDelegationReward C delAddr valAddr =
     bind_op (GetWithdrawContext C valAddr) (\<lambda>wc.
     bind_op (GetValidatorDistInfo valAddr) (\<lambda>valInfo.
     bind_op (GetDelegationDistInfo delAddr valAddr) (\<lambda>delInfo.
     bind_op (bind_op (gets (GetValidator valAddr)) lift_go) (\<lambda>validator.
     bind_op (bind_op (gets (GetDelegation delAddr valAddr)) lift_go) (\<lambda>delegation.
     lift_go (CurrentRewards delInfo wc valInfo (v_DelegatorShares validator) (d_Shares delegation)))))))"

definition WithdrawToDelegator ::
  "'e externals_scheme \<Rightarrow> FeePool \<Rightarrow> AccAddress \<Rightarrow> DecCoins \<Rightarrow> ('z dist_state_scheme, unit) op" where
  "WithdrawToDelegator E fp delAddr amount =
     bind_op (gets (GetDelegatorWithdrawAddr delAddr)) (\<lambda>withdrawAddr.
     bind_op (lift_go (TruncateDecimal amount)) (\<lambda>(coinsToAdd, change).
     bind_op (lift_go (DecCoins_Plus (fp_ValPool fp) change)) (\<lambda>valPool.
     bind_op (SetFeePool (fp\<lparr>fp_ValPool := valPool\<rparr>)) (\<lambda>_.
     bind_op (err_panics (addCoins E withdrawAddr coinsToAdd)) (\<lambda>_.
     ret ())))))"

definition WithdrawDelegationReward ::
  "'e externals_scheme \<Rightarrow> block_ctx \<Rightarrow> AccAddress \<Rightarrow> ValAddress \<Rightarrow> ('z dist_state_scheme, DecCoins) op" where
  "WithdrawDelegationReward E C delAddr valAddr =
     bind_op (gets (HasDelegationDistInfo delAddr valAddr)) (\<lambda>has.
     if \<not> has then fail ErrNoDistInfo
     else
       bind_op (withdrawDelegationReward C delAddr valAddr) (\<lambda>(fp, valInfo, delInfo, withdraw).
       bind_op (SetValidatorDistInfo valInfo) (\<lambda>_.
       bind_op (SetDelegationDistInfo delInfo) (\<lambda>_.
       bind_op (WithdrawToDelegator E fp delAddr withdraw) (\<lambda>_.
       ret withdraw)))))"

definition CurrentDelegationReward :: "block_ctx \<Rightarrow> AccAddress \<Rightarrow> ValAddress \<Rightarrow> ('z dist_state_scheme, Coins) op" where
  "CurrentDelegationReward C delAddr valAddr =
     bind_op (gets (HasDelegationDistInfo delAddr valAddr)) (\<lambda>has.
     if \<not> has then fail ErrNoDistInfo
     else
       bind_op (currentDelegationReward C delAddr valAddr) (\<lambda>estCoins.
       bind_op (lift_go (TruncateDecimal estCoins)) (\<lambda>(truncated, _).
       ret truncated)))"

text \<open>The records of one delegation after its withdrawal, the amount being collected.\<close>

definition withdraw_one :: "block_ctx \<Rightarrow> AccAddress \<Rightarrow> ValAddress \<Rightarrow> ('z dist_state_scheme, DecCoins) op" where
  "withdraw_one C delAddr valAddr =
     bind_op (withdrawDelegationReward C delAddr valAddr) (\<lambda>(fp, valInfo, delInfo, diWithdraw).
     bind_op (SetFeePool fp) (\<lambda>_.
     bind_op (SetValidatorDistInfo valInfo) (\<lambda>_.
     bind_op (SetDelegationDistInfo delInfo) (\<lambda>_.
     ret diWithdraw))))"

fun withdraw_each :: "block_ctx \<Rightarrow> AccAddress \<Rightarrow> Delegation list \<Rightarrow> DecCoins \<Rightarrow> ('z dist_state_scheme, DecCoins) op" where
  "withdraw_each C delAddr [] withdraw = ret withdraw"
| "withdraw_each C delAddr (del # dels) withdraw =
     bind_op (withdraw_one C delAddr (d_ValidatorAddr del)) (\<lambda>diWithdraw.
     bind_op (lift_go (DecCoins_Plus withdraw diWithdraw)) (\<lambda>withdraw.
     withdraw_each C delAddr dels withdraw))"

definition withdrawDelegationRewardsAll :: "block_ctx \<Rightarrow> AccAddress \<Rightarrow> ('z dist_state_scheme, DecCoins) op" where
  "withdrawDelegationRewardsAll C delAddr =
     bind_op (gets (GetDelegatorDelegations delAddr)) (\<lambda>dels. withdraw_each C delAddr dels [])"

definition WithdrawDelegationRewardsAll ::
  "'e externals_scheme \<Rightarrow> block_ctx \<Rightarrow> AccAddress \<Rightarrow> ('z dist_state_scheme, DecCoins) op" where
  "WithdrawDelegationRewardsAll E C delAddr =
     bind_op (withdrawDelegationRewardsAll C delAddr) (\<lambda>withdraw.
     bind_op GetFeePool (\<lambda>fp.
     bind_op (WithdrawToDelegator E fp delAddr withdraw) (\<lambda>_.
     ret withdraw)))"

fun current_each :: "block_ctx \<Rightarrow> AccAddress \<Rightarrow> Delegation list \<Rightarrow> DecCoins \<Rightarrow> ('z dist_state_scheme, DecCoins) op" where
  "current_each C delAddr [] acc = ret acc"
| "current_each C delAddr (del # dels) acc =
     bind_op (currentDelegationReward C delAddr (d_ValidatorAddr del)) (\<lambda>est.
     bind_op (lift_go (DecCoins_Plus acc est)) (\<lambda>acc.
     current_each C delAddr dels acc))"

definition CurrentDelegationRewardsAll :: "block_ctx \<Rightarrow> AccAddress \<Rightarrow> ('z dist_state_scheme, DecCoins) op" where
  "CurrentDelegationRewardsAll C delAddr =
     bind_op (gets (GetDelegatorDelegations delAddr)) (\<lambda>dels. current_each C delAddr dels [])"

section \<open>Withdrawal by a validator\<close>

text \<open>The withdrawal of one delegation, paid out at once.\<close>

definition withdraw_and_pay :: "'e externals_scheme \<Rightarrow> block_ctx \<Rightarrow> AccAddress \<Rightarrow> ValAddress \<Rightarrow> ('z dist_state_scheme, unit) op" where
  "withdraw_and_pay E C delAddr operatorAddr =
     bind_op (withdrawDelegationReward C delAddr operatorAddr) (\<lambda>(fp, vi, di, withdraw).
     bind_op (SetFeePool fp) (\<lambda>_.
     bind_op (SetValidatorDistInfo vi) (\<lambda>_.
     bind_op (SetDelegationDistInfo di) (\<lambda>_.
     WithdrawToDelegator E fp delAddr withdraw))))"

definition skip_empty_validator :: "block_ctx \<Rightarrow> ValAddress \<Rightarrow> ('z dist_state_scheme, unit) op" where
  "skip_empty_validator C operatorAddr =
     bind_op (GetValidatorDistInfo operatorAddr) (\<lambda>vi.
     SetValidatorDistInfo (vi\<lparr>vdi_DelAccum := (vdi_DelAccum vi)\<lparr>ta_UpdateHeight := ctx_Height C\<rparr>,
       vdi_FeePoolWithdrawalHeight := ctx_Height C\<rparr>))"

definition take_commission :: "block_ctx \<Rightarrow> ValAddress \<Rightarrow> ('z dist_state_scheme, unit) op" where
  "take_commission C operatorAddr =
     bind_op (GetValidatorDistInfo operatorAddr) (\<lambda>valInfo.
     bind_op (GetWithdrawContext C operatorAddr) (\<lambda>wc.
     bind_op (lift_go (TakeFeePoolRewards valInfo wc)) (\<lambda>(valInfo, fp).
     bind_op (SetFeePool fp) (\<lambda>_.
     SetValidatorDistInfo valInfo))))"

definition takeValidatorFeePoolRewards ::
  "'e externals_scheme \<Rightarrow> block_ctx \<Rightarrow> ValAddress \<Rightarrow> ('z dist_state_scheme, unit) op" where
  "takeValidatorFeePoolRewards E C operatorAddr =
     bind_op (gets (HasValidatorDistInfo operatorAddr)) (\<lambda>has.
     if \<not> has then fail ErrNoDistInfo
     else
       bind_op (gets (HasDelegationDistInfo operatorAddr operatorAddr)) (\<lambda>self.
       bind_op (if self then withdraw_and_pay E C operatorAddr operatorAddr
         else
           bind_op (gets (GetValidatorDelegations operatorAddr)) (\<lambda>delegations.
           bind_op (for_each delegations (\<lambda>delegation. withdraw_and_pay E C (d_DelegatorAddr delegation) operatorAddr)) (\<lambda>_.
           if length delegations = 0 then skip_empty_validator C operatorAddr else ret ()))) (\<lambda>_.
       take_commission C operatorAddr)))"

definition withdrawValidatorCommission :: "block_ctx \<Rightarrow> ValAddress \<Rightarrow> ('z dist_state_scheme, FeePool \<times> DecCoins) op" where
  "withdrawValidatorCommission C operatorAddr =
     bind_op (GetValidatorDistInfo operatorAddr) (\<lambda>valInfo.
     bind_op (GetWithdrawContext C operatorAddr) (\<lambda>wc.
     bind_op (lift_go (WithdrawCommission valInfo wc)) (\<lambda>(valInfo, fp, commission).
     bind_op (SetValidatorDistInfo valInfo) (\<lambda>_.
     ret (fp, commission)))))"

definition WithdrawValidatorRewardsAll ::
  "'e externals_scheme \<Rightarrow> block_ctx \<Rightarrow> ValAddress \<Rightarrow> ('z dist_state_scheme, DecCoins) op" where
  "WithdrawValidatorRewardsAll E C operatorAddr =
     bind_op (gets (HasValidatorDistInfo operatorAddr)) (\<lambda>has.
     if \<not> has then fail ErrNoDistInfo
     else
       bind_op (withdrawDelegationRewardsAll C operatorAddr) (\<lambda>withdraw.
       bind_op (withdrawValidatorCommission C operatorAddr) (\<lambda>(fp, commission).
       bind_op (lift_go (DecCoins_Plus withdraw commission)) (\<lambda>withdraw.
       bind_op (lift_go (TruncateDecimal commission)) (\<lambda>_.
       bind_op (WithdrawToDelegator E fp operatorAddr withdraw) (\<lambda>_.
       ret withdraw))))))"

definition CurrentValidatorRewardsAll :: "block_ctx \<Rightarrow> ValAddress \<Rightarrow> ('z dist_state_scheme, Coins) op" where
  "CurrentValidatorRewardsAll C operatorAddr =
     bind_op (gets (HasValidatorDistInfo operatorAddr)) (\<lambda>has.
     if \<not> has then fail ErrNoDistInfo
     else
       bind_op (CurrentDelegationRewardsAll C operatorAddr) (\<lambda>withdraw.
       bind_op (GetValidatorDistInfo operatorAddr) (\<lambda>valInfo.
       bind_op (GetWithdrawContext C operatorAddr) (\<lambda>wc.
       bind_op (lift_go (CurrentCommissionRewards valInfo wc)) (\<lambda>commission.
       bind_op (lift_go (DecCoins_Plus withdraw commission)) (\<lambda>withdraw.
       bind_op (lift_go (TruncateDecimal withdraw)) (\<lambda>(truncated, _).
       ret truncated)))))))"

section \<open>Hooks\<close>

definition dist_onValidatorCreated :: "block_ctx \<Rightarrow> ValAddress \<Rightarrow> ('z dist_state_scheme, unit) op" where
  "dist_onValidatorCreated C valAddr =
     SetValidatorDistInfo \<lparr>vdi_OperatorAddr = valAddr, vdi_FeePoolWithdrawalHeight = ctx_Height C,
       vdi_DelAccum = NewTotalAccum (ctx_Height C), vdi_DelPool = [], vdi_ValCommission = []\<rparr>"

definition dist_onValidatorModified :: "'e externals_scheme \<Rightarrow> block_ctx \<Rightarrow> ValAddress \<Rightarrow> ('z dist_state_scheme, unit) op" where
  "dist_onValidatorModified E C valAddr =
     (if ctx_Height C > 0 then err_panics (takeValidatorFeePoolRewards E C valAddr) else ret ())"

definition dist_onValidatorBonded :: "'e externals_scheme \<Rightarrow> block_ctx \<Rightarrow> ValAddress \<Rightarrow> ('z dist_state_scheme, unit) op" where
  "dist_onValidatorBonded E C valAddr =
     bind_op (gets (GetLastValidatorPower valAddr)) (\<lambda>lastPower.
     if lastPower \<noteq> 0 then panic else dist_onValidatorModified E C valAddr)"

definition dist_onValidatorPowerDidChange :: "block_ctx \<Rightarrow> ValAddress \<Rightarrow> ('z dist_state_scheme, unit) op" where
  "dist_onValidatorPowerDidChange C valAddr =
     bind_op (GetValidatorDistInfo valAddr) (\<lambda>vi.
     if vdi_FeePoolWithdrawalHeight vi \<noteq> ctx_Height C then panic else ret ())"

definition dist_onDelegationCreated :: "block_ctx \<Rightarrow> AccAddress \<Rightarrow> ValAddress \<Rightarrow> ('z dist_state_scheme, unit) op" where
  "dist_onDelegationCreated C delAddr valAddr =
     SetDelegationDistInfo \<lparr>ddi_DelegatorAddr = delAddr, ddi_ValOperatorAddr = valAddr, ddi_DelPoolWithdrawalHeight = ctx_Height C\<rparr>"

definition dist_onDelegationSharesModified ::
  "'e externals_scheme \<Rightarrow> block_ctx \<Rightarrow> AccAddress \<Rightarrow> ValAddress \<Rightarrow> ('z dist_state_scheme, unit) op" where
  "dist_onDelegationSharesModified E C delAddr valAddr =
     bind_op (err_panics (WithdrawDelegationReward E C delAddr valAddr)) (\<lambda>_. ret ())"

definition dist_onDelegationRemoved ::
  "'e externals_scheme \<Rightarrow> block_ctx \<Rightarrow> AccAddress \<Rightarrow> ValAddress \<Rightarrow> ('z dist_state_scheme, unit) op" where
  "dist_onDelegationRemoved E C delAddr valAddr =
     bind_op (if valAddr = delAddr then
         bind_op (withdrawValidatorCommission C valAddr) (\<lambda>(fp, commission).
         bind_op (lift_go (TruncateDecimal commission)) (\<lambda>_.
         WithdrawToDelegator E fp delAddr commission))
       else ret ()) (\<lambda>_.
     RemoveDelegationDistInfo delAddr valAddr)"

text \<open>A hook returns nothing: it runs to its end or panics.\<close>

definition run_hook :: "('s, unit) op \<Rightarrow> 's \<Rightarrow> 's option" where
  "run_hook m s = (case m s of Ok _ t \<Rightarrow> Some t | _ \<Rightarrow> None)"

definition distr_hooks :: "'e externals_scheme \<Rightarrow> block_ctx \<Rightarrow> 'z dist_state_scheme StakingHooks" where
  "distr_hooks E C =
     \<lparr>h_ValidatorCreated = (\<lambda>valAddr. run_hook (dist_onValidatorCreated C valAddr)),
      h_ValidatorModified = (\<lambda>valAddr. run_hook (dist_onValidatorModified E C valAddr)),
      h_ValidatorRemoved = (\<lambda>_ valAddr. run_hook (RemoveValidatorDistInfo valAddr)),
      h_ValidatorBonded = (\<lambda>_ valAddr. run_hook (dist_onValidatorBonded E C valAddr)),
      h_ValidatorPowerDidChange = (\<lambda>_ valAddr. run_hook (dist_onValidatorPowerDidChange C valAddr)),
      h_ValidatorBeginUnbonding = (\<lambda>_ valAddr. run_hook (dist_onValidatorModified E C valAddr)),
      h_DelegationCreated = (\<lambda>delAddr valAddr. run_hook
        (bind_op (dist_onValidatorModified E C valAddr) (\<lambda>_. dist_onDelegationCreated C delAddr valAddr))),
      h_DelegationSharesModified = (\<lambda>delAddr valAddr. run_hook
        (bind_op (dist_onValidatorModified E C valAddr) (\<lambda>_. dist_onDelegationSharesModified E C delAddr valAddr))),
      h_DelegationRemoved = (\<lambda>delAddr valAddr. run_hook (dist_onDelegationRemoved E C delAddr valAddr))\<rparr>"

section \<open>Allocation of fees\<close>

text \<open>The proposer's part of the fees, and what it leaves in the proposer's record.\<close>

definition reward_proposer ::
  "Validator \<Rightarrow> ValidatorDistInfo \<Rightarrow> DecCoins \<Rightarrow> Dec \<Rightarrow> ('z dist_state_scheme, DecCoins) op" where
  "reward_proposer proposerValidator proposerDist fees percentVotes =
     bind_op (gets distrParams) (\<lambda>params.
     bind_op (lift_go (do {
       bonus \<leftarrow> Dec_Mul (BonusProposerReward params) percentVotes;
       multiplier \<leftarrow> Dec_Add (BaseProposerReward params) bonus;
       proposerReward \<leftarrow> MulDec fees multiplier;
       commission \<leftarrow> MulDec proposerReward (com_Rate (v_Commission proposerValidator));
       remaining \<leftarrow> DecCoins_Minus proposerReward commission;
       valCommission \<leftarrow> DecCoins_Plus (vdi_ValCommission proposerDist) commission;
       delPool \<leftarrow> DecCoins_Plus (vdi_DelPool proposerDist) remaining;
       Some (proposerReward, proposerDist\<lparr>vdi_ValCommission := valCommission, vdi_DelPool := delPool\<rparr>) })) (\<lambda>(proposerReward, dist).
     bind_op (SetValidatorDistInfo dist) (\<lambda>_.
     ret proposerReward)))"

text \<open>The community's part goes to its account in whole units; the rest of the fees, with the change,
  goes to the pool of all validators.\<close>

definition fund_community :: "'e externals_scheme \<Rightarrow> DecCoins \<Rightarrow> ('z dist_state_scheme, DecCoins \<times> DecCoins) op" where
  "fund_community E fees =
     bind_op (gets (\<lambda>s. CommunityTax (distrParams s))) (\<lambda>communityTax.
     bind_op (lift_go (do { funding \<leftarrow> MulDec fees communityTax; (coins, change) \<leftarrow> TruncateDecimal funding; Some (funding, coins, change) }))
       (\<lambda>(communityFunding, fundingCoins, change).
     bind_op (ignore_err (addCoins E (CommunityTaxCoinsAccAddr E) fundingCoins)) (\<lambda>_.
     ret (communityFunding, change))))"

definition AllocateTokens :: "'e externals_scheme \<Rightarrow> Dec \<Rightarrow> ConsAddress \<Rightarrow> ('z dist_state_scheme, unit) op" where
  "AllocateTokens E percentVotes proposer =
     bind_op (bind_op (gets (GetValidatorByConsAddr proposer)) lift_go) (\<lambda>proposerValidator.
     bind_op (GetValidatorDistInfo (v_OperatorAddr proposerValidator)) (\<lambda>proposerDist.
     bind_op (gets collectedFees) (\<lambda>feesCollected.
     bind_op (lift_go (NewDecCoins feesCollected)) (\<lambda>feesCollectedDec.
     bind_op GetFeePool (\<lambda>fp.
     bind_op (gets GetLastTotalPower) (\<lambda>lastTotalPower.
     if lastTotalPower = 0 then
       bind_op (ignore_err (addCoins E (CommunityTaxCoinsAccAddr E) feesCollected)) (\<lambda>_. ClearCollectedFees)
     else
       bind_op (bind_op (gets (GetValidator (v_OperatorAddr proposerValidator))) lift_go) (\<lambda>validator.
       bind_op (if \<not> v_Jailed validator then reward_proposer proposerValidator proposerDist feesCollectedDec percentVotes else ret []) (\<lambda>proposerReward.
       bind_op (fund_community E feesCollectedDec) (\<lambda>(communityFunding, change).
       bind_op (lift_go (do {
         r1 \<leftarrow> DecCoins_Minus feesCollectedDec proposerReward;
         r2 \<leftarrow> DecCoins_Minus r1 communityFunding;
         poolReceived \<leftarrow> DecCoins_Plus r2 change;
         DecCoins_Plus (fp_ValPool fp) poolReceived })) (\<lambda>valPool.
       bind_op (SetFeePool (fp\<lparr>fp_ValPool := valPool\<rparr>)) (\<lambda>_.
       ClearCollectedFees)))))))))))"

definition AllocateFeeTax :: "'e externals_scheme \<Rightarrow> AccAddress \<Rightarrow> Dec \<Rightarrow> bool \<Rightarrow> ('z dist_state_scheme, unit) op" where
  "AllocateFeeTax E destAddr percent burn =
     bind_op (gets (getCoins (CommunityTaxCoinsAccAddr E))) (\<lambda>taxCoins.
     bind_op (lift_go (do {
       taxDecCoins \<leftarrow> NewDecCoins taxCoins;
       allocatedDecCoins \<leftarrow> MulDec taxDecCoins percent;
       (allocatedCoins, _) \<leftarrow> TruncateDecimal allocatedDecCoins;
       taxLeftDecCoins \<leftarrow> DecCoins_Minus taxDecCoins allocatedDecCoins;
       Some allocatedCoins })) (\<lambda>allocatedCoins.
     bind_op (if burn then err_panics (BurnCoins E (CommunityTaxCoinsAccAddr E) allocatedCoins)
       else err_panics (sendCoins E (CommunityTaxCoinsAccAddr E) destAddr allocatedCoins)) (\<lambda>_.
     ret ())))"

definition DistrInit :: "'e externals_scheme \<Rightarrow> ('z dist_state_scheme, unit) op" where
  "DistrInit E =
     bind_op GetFeePool (\<lambda>fp.
     bind_op (lift_go (TruncateDecimal (fp_CommunityPool fp))) (\<lambda>(communityTaxCoins, change).
     bind_op (ignore_err (addCoins E (CommunityTaxCoinsAccAddr E) communityTaxCoins)) (\<lambda>_.
     bind_op (lift_go (DecCoins_Plus (fp_ValPool fp) change)) (\<lambda>valPool.
     SetFeePool (fp\<lparr>fp_CommunityPool := [], fp_ValPool := valPool\<rparr>)))))"

section \<open>Begin blocker\<close>

text \<open>The votes for the previous block as Tendermint reports them; sums of \<open>int64\<close> wrap around.\<close>

record VoteInfo =
  vote_Address :: bytes
  vote_Power :: int
  vote_SignedLastBlock :: bool

definition int64 :: "int \<Rightarrow> int" where
  "int64 x = signed_take_bit 63 x"

fun add_votes :: "VoteInfo list \<Rightarrow> int \<times> int \<Rightarrow> int \<times> int" where
  "add_votes [] (totalPower, sumPrecommitPower) = (totalPower, sumPrecommitPower)"
| "add_votes (v # vs) (totalPower, sumPrecommitPower) =
     add_votes vs (int64 (totalPower + vote_Power v),
       if vote_SignedLastBlock v then int64 (sumPrecommitPower + vote_Power v) else sumPrecommitPower)"

definition getPreviousPercentPrecommitVotes :: "VoteInfo list \<Rightarrow> Dec option" where
  "getPreviousPercentPrecommitVotes votes =
     (let (totalPower, sumPrecommitPower) = add_votes votes (0, 0) in
      if totalPower = 0 then Some 0
      else do { s \<leftarrow> NewDec sumPrecommitPower; t \<leftarrow> NewDec totalPower; Dec_Quo s t })"

definition DistrBeginBlocker :: "'e externals_scheme \<Rightarrow> block_ctx \<Rightarrow> VoteInfo list \<Rightarrow> ConsAddress \<Rightarrow> ('z dist_state_scheme, unit) op" where
  "DistrBeginBlocker E C votes proposerAddress =
     bind_op (if ctx_Height C > 1 then
         bind_op (lift_go (getPreviousPercentPrecommitVotes votes)) (\<lambda>previousPercentPrecommitVotes.
         bind_op GetPreviousProposerConsAddr (\<lambda>previousProposer.
         AllocateTokens E previousPercentPrecommitVotes previousProposer))
       else ret ()) (\<lambda>_.
     SetPreviousProposerConsAddr proposerAddress)"

section \<open>Handler\<close>

definition addr_bytes :: "bytes option \<Rightarrow> bytes" where
  "addr_bytes a = (case a of None \<Rightarrow> [] | Some b \<Rightarrow> b)"

definition handleMsgModifyWithdrawAddress :: "AccAddress \<Rightarrow> AccAddress \<Rightarrow> ('z dist_state_scheme, unit) op" where
  "handleMsgModifyWithdrawAddress delAddr withdrawAddr = SetDelegatorWithdrawAddr delAddr withdrawAddr"

definition handleMsgWithdrawDelegatorRewardsAll :: "'e externals_scheme \<Rightarrow> block_ctx \<Rightarrow> AccAddress \<Rightarrow> ('z dist_state_scheme, unit) op" where
  "handleMsgWithdrawDelegatorRewardsAll E C delAddr =
     bind_op (WithdrawDelegationRewardsAll E C delAddr) (\<lambda>reward.
     bind_op (lift_go (TruncateDecimal reward)) (\<lambda>_. ret ()))"

definition handleMsgWithdrawDelegatorReward ::
  "'e externals_scheme \<Rightarrow> block_ctx \<Rightarrow> AccAddress \<Rightarrow> ValAddress \<Rightarrow> ('z dist_state_scheme, unit) op" where
  "handleMsgWithdrawDelegatorReward E C delAddr valAddr =
     bind_op (WithdrawDelegationReward E C delAddr valAddr) (\<lambda>reward.
     bind_op (lift_go (TruncateDecimal reward)) (\<lambda>_. ret ()))"

definition handleMsgWithdrawValidatorRewardsAll :: "'e externals_scheme \<Rightarrow> block_ctx \<Rightarrow> ValAddress \<Rightarrow> ('z dist_state_scheme, unit) op" where
  "handleMsgWithdrawValidatorRewardsAll E C valAddr =
     bind_op (WithdrawValidatorRewardsAll E C valAddr) (\<lambda>reward.
     bind_op (lift_go (TruncateDecimal reward)) (\<lambda>_. ret ()))"

fun DistrHandler :: "'e externals_scheme \<Rightarrow> block_ctx \<Rightarrow> distr_msg \<Rightarrow> ('z dist_state_scheme, unit) op" where
  "DistrHandler E C (MsgSetWithdrawAddress delAddr withdrawAddr) =
     handleMsgModifyWithdrawAddress (addr_bytes delAddr) (addr_bytes withdrawAddr)"
| "DistrHandler E C (MsgWithdrawDelegatorRewardsAll delAddr) = handleMsgWithdrawDelegatorRewardsAll E C (addr_bytes delAddr)"
| "DistrHandler E C (MsgWithdrawDelegatorReward delAddr valAddr) =
     handleMsgWithdrawDelegatorReward E C (addr_bytes delAddr) (addr_bytes valAddr)"
| "DistrHandler E C (MsgWithdrawValidatorRewardsAll valAddr) = handleMsgWithdrawValidatorRewardsAll E C (addr_bytes valAddr)"

section \<open>Genesis\<close>

record DistrGenesis =
  gen_DistrParams :: DistrParams
  gen_FeePool :: FeePool
  gen_ValidatorDistInfos :: "ValidatorDistInfo list"
  gen_DelegationDistInfos :: "DelegationDistInfo list"
  gen_DelegatorWithdrawInfos :: "(AccAddress \<times> AccAddress) list"
  gen_PreviousProposer :: ConsAddress

definition init_vdi :: "ValidatorDistInfo \<Rightarrow> ('z dist_state_scheme, unit) op" where
  "init_vdi vdi =
     (if \<not> DecCoins_IsZero (vdi_ValCommission vdi) \<or> \<not> DecCoins_IsZero (vdi_DelPool vdi) then panic
      else SetValidatorDistInfo vdi)"

definition DistrInitGenesis :: "DistrGenesis \<Rightarrow> ('z dist_state_scheme, unit) op" where
  "DistrInitGenesis data =
     (case ValidateDistrParams (gen_DistrParams data) of Inl _ \<Rightarrow> panic
      | Inr _ \<Rightarrow>
        bind_op (modify (\<lambda>s. s\<lparr>distrParams := gen_DistrParams data\<rparr>)) (\<lambda>_.
        bind_op (SetGenesisFeePool (gen_FeePool data)) (\<lambda>_.
        bind_op (for_each (gen_ValidatorDistInfos data) init_vdi) (\<lambda>_.
        bind_op (for_each (gen_DelegationDistInfos data) SetDelegationDistInfo) (\<lambda>_.
        bind_op (for_each (gen_DelegatorWithdrawInfos data) (\<lambda>(delAddr, withdrawAddr). SetDelegatorWithdrawAddr delAddr withdrawAddr)) (\<lambda>_.
        SetPreviousProposerConsAddr (gen_PreviousProposer data)))))))"

definition GetAllValidatorDistInfos :: "'z dist_state_scheme \<Rightarrow> ValidatorDistInfo list" where
  "GetAllValidatorDistInfos s = map snd (sorted_list_of_fmap (valDistInfos s))"

definition GetAllDelegationDistInfos :: "'z dist_state_scheme \<Rightarrow> DelegationDistInfo list" where
  "GetAllDelegationDistInfos s = map snd (sorted_list_of_fmap (delDistInfos s))"

definition GetAllDelegatorWithdrawInfos :: "'z dist_state_scheme \<Rightarrow> (AccAddress \<times> AccAddress) list option" where
  "GetAllDelegatorWithdrawInfos s =
     (if list_all (\<lambda>(delAddr, _). length delAddr = AddrLen) (sorted_list_of_fmap (withdrawAddrs s))
      then Some (sorted_list_of_fmap (withdrawAddrs s)) else None)"

definition DistrExportGenesis :: "('z dist_state_scheme, DistrGenesis) op" where
  "DistrExportGenesis =
     bind_op GetFeePool (\<lambda>fp.
     bind_op (gets GetAllDelegatorWithdrawInfos) (\<lambda>dwis.
     bind_op (lift_go dwis) (\<lambda>dwis.
     bind_op GetPreviousProposerConsAddr (\<lambda>pp.
     gets (\<lambda>s. \<lparr>gen_DistrParams = distrParams s, gen_FeePool = fp, gen_ValidatorDistInfos = GetAllValidatorDistInfos s,
       gen_DelegationDistInfos = GetAllDelegationDistInfos s, gen_DelegatorWithdrawInfos = dwis, gen_PreviousProposer = pp\<rparr>)))))"

section \<open>Runtime checks\<close>

text \<open>A check that panics recovers and returns an error.\<close>

definition ValAccumInvariants :: "block_ctx \<Rightarrow> 'z dist_state_scheme \<Rightarrow> bool" where
  "ValAccumInvariants C s \<longleftrightarrow>
     (case (do {
        accums \<leftarrow> those (map (\<lambda>vdi. do { lastValPower \<leftarrow> NewDecFromInt (GetLastValidatorPower (vdi_OperatorAddr vdi) s);
          GetValAccum vdi (ctx_Height C) lastValPower }) (GetAllValidatorDistInfos s));
        valAccum \<leftarrow> add_decs 0 accums;
        lastTotalPower \<leftarrow> NewDecFromInt (GetLastTotalPower s);
        fp \<leftarrow> feePool s;
        totalAccum \<leftarrow> GetTotalValAccum fp (ctx_Height C) lastTotalPower;
        Some (totalAccum = valAccum) }) of
       None \<Rightarrow> False | Some b \<Rightarrow> b)"

definition DelAccumInvariants :: "block_ctx \<Rightarrow> 'z dist_state_scheme \<Rightarrow> bool" where
  "DelAccumInvariants C s \<longleftrightarrow>
     (case (do {
        totals \<leftarrow> those (map (\<lambda>vdi. do { validator \<leftarrow> GetValidator (vdi_OperatorAddr vdi) s;
          total_accum \<leftarrow> GetTotalDelAccum vdi (ctx_Height C) (v_DelegatorShares validator);
          Some (vdi_OperatorAddr vdi, total_accum) }) (GetAllValidatorDistInfos s));
        accums \<leftarrow> those (map (\<lambda>ddi. do { delegation \<leftarrow> GetDelegation (ddi_DelegatorAddr ddi) (ddi_ValOperatorAddr ddi) s;
          accum \<leftarrow> GetDelAccum ddi (ctx_Height C) (d_Shares delegation);
          if ddi_ValOperatorAddr ddi \<in> fst ` set totals then Some (ddi_ValOperatorAddr ddi, accum) else None }) (GetAllDelegationDistInfos s));
        Some (list_all (\<lambda>(key, delAccumFromVal). add_decs 0 (map snd (filter (\<lambda>(k, _). k = key) accums)) = Some delAccumFromVal) totals) }) of
       None \<Rightarrow> False | Some b \<Rightarrow> b)"

definition CanWithdrawInvariant :: "'e externals_scheme \<Rightarrow> block_ctx \<Rightarrow> 'z dist_state_scheme \<Rightarrow> bool" where
  "CanWithdrawInvariant E C s \<longleftrightarrow>
     (case (bind_op (gets GetAllValidatorDistInfos) (\<lambda>vdis.
        bind_op (for_each vdis (\<lambda>vdi. ignore_err (err_panics (WithdrawValidatorRewardsAll E C (vdi_OperatorAddr vdi))))) (\<lambda>_.
        bind_op (gets GetAllDelegationDistInfos) (\<lambda>ddis.
        bind_op (for_each ddis (\<lambda>ddi. ignore_err (err_panics
          (WithdrawDelegationReward E C (ddi_DelegatorAddr ddi) (ddi_ValOperatorAddr ddi))))) (\<lambda>_.
        GetFeePool)))) s) of
       Ok fp t \<Rightarrow>
         ta_Accum (fp_TotalValAccum fp) = 0 \<and>
         list_all (\<lambda>vdi. ta_Accum (vdi_DelAccum vdi) = 0 \<and> DecCoins_IsZero (vdi_DelPool vdi) \<and> DecCoins_IsZero (vdi_ValCommission vdi))
           (GetAllValidatorDistInfos t)
     | _ \<Rightarrow> False)"

end
