(* ===== verification/Distr_Ledger.thy ===== *)
theory Distr_Ledger
  imports Distribution
begin

text \<open>
  The distribution module neither makes nor loses coins: what the accounts, the collected fees, the
  pool of all validators and the pools and commissions of each validator hold together stays the same.
  Its hooks leave the staking stores alone.
\<close>

section \<open>What is held\<close>

definition vdi_pools :: "string \<Rightarrow> ValidatorDistInfo \<Rightarrow> Dec" where
  "vdi_pools d vi = dbal (vdi_DelPool vi) d + dbal (vdi_ValCommission vi) d"

definition dist_pools :: "string \<Rightarrow> 'z dist_state_scheme \<Rightarrow> Dec" where
  "dist_pools d s = (case feePool s of None \<Rightarrow> 0 | Some fp \<Rightarrow> dbal (fp_ValPool fp) d) + fm_sum (vdi_pools d) (valDistInfos s)"

definition wealth :: "string \<Rightarrow> 'z dist_state_scheme \<Rightarrow> Dec" where
  "wealth d s = (total_coins d s + bal (collectedFees s) d) * precisionReuse + dist_pools d s"

definition vdis_ok :: "'z dist_state_scheme \<Rightarrow> bool" where
  "vdis_ok s \<longleftrightarrow> fmpred (\<lambda>a vi. vdi_OperatorAddr vi = a) (valDistInfos s)"

text \<open>\<open>moves s g t\<close>: from \<open>s\<close> to \<open>t\<close> the staking stores stay and \<open>g\<close> of each denomination is taken out.\<close>

definition moves :: "'z dist_state_scheme \<Rightarrow> (string \<Rightarrow> Dec) \<Rightarrow> 'z dist_state_scheme \<Rightarrow> bool" where
  "moves s g t \<longleftrightarrow> accounts_ok t \<and> stake_stores t = stake_stores s \<and> (ranged (collectedFees s) \<longrightarrow> ranged (collectedFees t)) \<and>
     (vdis_ok s \<longrightarrow> vdis_ok t \<and> (\<forall>d. wealth d t = wealth d s - g d))"

lemma moves_refl [simp]: "accounts_ok s \<Longrightarrow> moves s (\<lambda>_. 0) s"
  by (simp add: moves_def)

lemma moves_trans: "moves s g t \<Longrightarrow> moves t h u \<Longrightarrow> moves s (\<lambda>d. g d + h d) u"
  by (auto simp: moves_def)

lemma moves_ok: "moves s g t \<Longrightarrow> accounts_ok t"
  by (simp add: moves_def)

lemma moves_eq: "moves s g t \<Longrightarrow> (\<And>d. g d = h d) \<Longrightarrow> moves s h t"
  by (simp add: moves_def)

lemma wealth_frame [simp]:
  "wealth d (s\<lparr>delDistInfos := x1\<rparr>) = wealth d s" "wealth d (s\<lparr>withdrawAddrs := x2\<rparr>) = wealth d s"
  "wealth d (s\<lparr>previousProposer := x3\<rparr>) = wealth d s" "wealth d (s\<lparr>distrParams := x4\<rparr>) = wealth d s"
  by (simp_all add: wealth_def dist_pools_def total_coins_def)

lemma moves_frame [simp]:
  "moves s g (t\<lparr>delDistInfos := x1\<rparr>) = moves s g t" "moves s g (t\<lparr>withdrawAddrs := x2\<rparr>) = moves s g t"
  "moves s g (t\<lparr>previousProposer := x3\<rparr>) = moves s g t" "moves s g (t\<lparr>distrParams := x4\<rparr>) = moves s g t"
  by (simp_all add: moves_def vdis_ok_def stake_stores_def accounts_ok_def)

lemma moves_feePool:
  assumes "accounts_ok s" "feePool s = Some fp"
  shows "moves s (\<lambda>d. dbal (fp_ValPool fp) d - dbal (fp_ValPool fp') d) (s\<lparr>feePool := Some fp'\<rparr>)"
  using assms by (simp add: moves_def vdis_ok_def stake_stores_def accounts_ok_def wealth_def dist_pools_def total_coins_def)

lemma moves_vdi:
  assumes "accounts_ok s" "fmlookup (valDistInfos s) a = Some vi" "vdi_OperatorAddr vi' = vdi_OperatorAddr vi"
  shows "moves s (\<lambda>d. vdi_pools d vi - vdi_pools d vi') (s\<lparr>valDistInfos := fmupd (vdi_OperatorAddr vi') vi' (valDistInfos s)\<rparr>)"
proof -
  have "vdi_OperatorAddr vi = a" if "vdis_ok s"
    using that assms(2) by (auto simp: vdis_ok_def fmpred_iff)
  then show ?thesis
    using assms by (auto simp: moves_def vdis_ok_def stake_stores_def accounts_ok_def wealth_def dist_pools_def total_coins_def fm_sum_upd)
qed

text \<open>Coins added to an account come out of what the module has in hand.\<close>

lemma dist_more:
  fixes s t :: "'z dist_state_scheme"
  assumes "auth_state.more t = auth_state.more s"
  shows "stake_stores t = stake_stores s" "feePool t = feePool s" "valDistInfos t = valDistInfos s"
    "delDistInfos t = delDistInfos s" "withdrawAddrs t = withdrawAddrs s"
  using assms by (cases s; cases t; simp add: stake_stores_def)+

lemma addCoins_moves:
  fixes s :: "'z dist_state_scheme"
  assumes "addCoins E a cs s = Ok r t" "accounts_ok s" "ranged cs"
  shows "moves s (\<lambda>d. - bal cs d * precisionReuse) t" "feePool t = feePool s" "valDistInfos t = valDistInfos s"
proof -
  have t: "accounts_ok t \<and> rest_of t = rest_of s \<and> (\<forall>d. total_coins d t = total_coins d s + bal cs d)"
    using assms(2)
  proof (cases rule: addCoins_cases [of s E a cs])
    case (ok new amt' t')
    then have "t' = t"
      using assms(1) by simp
    then show ?thesis
      using ok assms(3) by simp
  qed (use assms(1) in simp)
  then have "auth_state.more t = auth_state.more s" and fees: "collectedFees t = collectedFees s"
    by (simp_all add: rest_of_def)
  note more = dist_more [OF this(1)]
  show "moves s (\<lambda>d. - bal cs d * precisionReuse) t" "feePool t = feePool s" "valDistInfos t = valDistInfos s"
    using t more fees by (simp_all add: moves_def vdis_ok_def wealth_def dist_pools_def algebra_simps)
qed

section \<open>Withdrawals\<close>

lemma GetWithdrawContext_Ok [simp]:
  "GetWithdrawContext C a s = Ok wc t \<longleftrightarrow> t = s \<and> (\<exists>fp v. feePool s = Some fp \<and> GetValidator a s = Some v \<and>
     wc = \<lparr>wc_FeePool = fp, wc_Height = ctx_Height C, wc_TotalPower = GetLastTotalPower s * precisionReuse,
       wc_ValPower = GetLastValidatorPower a s * precisionReuse, wc_CommissionRate = com_Rate (v_Commission v)\<rparr>)"
  by (auto simp: GetWithdrawContext_def GetFeePool_def)

lemma get_records_Ok [simp]:
  "GetFeePool s = Ok fp t \<longleftrightarrow> t = s \<and> feePool s = Some fp"
  "GetValidatorDistInfo a s = Ok vi t \<longleftrightarrow> t = s \<and> fmlookup (valDistInfos s) a = Some vi"
  "GetDelegationDistInfo x a s = Ok di t \<longleftrightarrow> t = s \<and> fmlookup (delDistInfos s) (x, a) = Some di"
  by (auto simp: GetFeePool_def GetValidatorDistInfo_def GetDelegationDistInfo_def)

lemma withdrawDelegationReward_read: "withdrawDelegationReward C x a s = Ok r t \<Longrightarrow> t = s"
  by (auto simp: withdrawDelegationReward_def)

lemma withdrawDelegationReward_Ok:
  assumes "withdrawDelegationReward C x a s = Ok (fp', vi', di', w) t"
  obtains fp vi where "feePool s = Some fp" "fmlookup (valDistInfos s) a = Some vi" "vdi_OperatorAddr vi' = vdi_OperatorAddr vi"
    "\<And>d. dbal (fp_ValPool fp') d + vdi_pools d vi' + dbal w d = dbal (fp_ValPool fp) d + vdi_pools d vi"
proof -
  obtain wc u vi di ts sh where g: "GetWithdrawContext C a s = Ok wc u" and r: "fmlookup (valDistInfos u) a = Some vi"
    "WithdrawRewards di wc vi ts sh = Some (di', vi', fp', w)"
    using assms by (auto simp: withdrawDelegationReward_def simp del: GetWithdrawContext_Ok)
  have *: "feePool s = Some (wc_FeePool wc)" "fmlookup (valDistInfos s) a = Some vi" "WithdrawRewards di wc vi ts sh = Some (di', vi', fp', w)"
    using g r by auto
  show thesis
    using * WithdrawRewards_dbal [OF *(3)] by (intro that [of "wc_FeePool wc" vi]) (simp_all add: vdi_pools_def algebra_simps)
qed

text \<open>Recording what a withdrawal left, in the order the source does.\<close>

lemma record_moves:
  assumes "accounts_ok s" "feePool s = Some fp" "fmlookup (valDistInfos s) a = Some vi" "vdi_OperatorAddr vi' = vdi_OperatorAddr vi"
    "\<And>d. dbal (fp_ValPool fp') d + vdi_pools d vi' + dbal w d = dbal (fp_ValPool fp) d + vdi_pools d vi"
  shows "moves s (dbal w) (s\<lparr>feePool := Some fp', valDistInfos := fmupd (vdi_OperatorAddr vi') vi' (valDistInfos s)\<rparr>)"
proof -
  have 1: "moves s (\<lambda>d. dbal (fp_ValPool fp) d - dbal (fp_ValPool fp') d) (s\<lparr>feePool := Some fp'\<rparr>)"
    using assms(1,2) by (rule moves_feePool)
  have "moves (s\<lparr>feePool := Some fp'\<rparr>) (\<lambda>d. vdi_pools d vi - vdi_pools d vi')
      (s\<lparr>feePool := Some fp', valDistInfos := fmupd (vdi_OperatorAddr vi') vi' (valDistInfos s)\<rparr>)"
    using moves_vdi [OF moves_ok [OF 1], of a vi vi'] assms(3,4) by simp
  then show ?thesis
    by (rule moves_eq [OF moves_trans [OF 1]]) (use assms(5) in \<open>simp add: algebra_simps\<close>)
qed

lemma WithdrawToDelegator_moves:
  assumes "WithdrawToDelegator E fp x w s = Ok u t" "accounts_ok s" "feePool s = Some fp0"
  shows "moves s (\<lambda>d. dbal (fp_ValPool fp0) d - dbal (fp_ValPool fp) d - dbal w d) t"
proof -
  obtain cs ch pool r where w: "TruncateDecimal w = Some (cs, ch)" and pool: "DecCoins_Plus (fp_ValPool fp) ch = Some pool"
    and add: "addCoins E (GetDelegatorWithdrawAddr x s) cs (s\<lparr>feePool := Some (fp\<lparr>fp_ValPool := pool\<rparr>)\<rparr>) = Ok r t"
    using assms(1) by (auto simp: WithdrawToDelegator_def SetFeePool_def)
  note cut = TruncateDecimal_dbal [OF w]
  have 1: "moves s (\<lambda>d. dbal (fp_ValPool fp0) d - dbal pool d) (s\<lparr>feePool := Some (fp\<lparr>fp_ValPool := pool\<rparr>)\<rparr>)"
    using moves_feePool [OF assms(2,3), of "fp\<lparr>fp_ValPool := pool\<rparr>"] by simp
  note 2 = addCoins_moves(1) [OF add moves_ok [OF 1] cut(3)]
  show ?thesis
    by (rule moves_eq [OF moves_trans [OF 1 2]]) (simp add: DecCoins_Plus_dbal [OF pool] cut(1) [symmetric])
qed

lemma withdraw_and_pay_moves:
  assumes "withdraw_and_pay E C x a s = Ok u t" "accounts_ok s"
  shows "moves s (\<lambda>_. 0) t"
proof -
  obtain fp' vi' di' w where get: "withdrawDelegationReward C x a s = Ok (fp', vi', di', w) s"
    and pay: "WithdrawToDelegator E fp' x w (s\<lparr>feePool := Some fp', valDistInfos := fmupd (vdi_OperatorAddr vi') vi' (valDistInfos s),
      delDistInfos := fmupd (ddi_DelegatorAddr di', ddi_ValOperatorAddr di') di' (delDistInfos s)\<rparr>) = Ok () t"
    using assms(1) withdrawDelegationReward_read [of C x a s]
    by (fastforce simp: withdraw_and_pay_def SetFeePool_def SetValidatorDistInfo_def SetDelegationDistInfo_def)
  obtain fp vi where old: "feePool s = Some fp" "fmlookup (valDistInfos s) a = Some vi" "vdi_OperatorAddr vi' = vdi_OperatorAddr vi"
    "\<And>d. dbal (fp_ValPool fp') d + vdi_pools d vi' + dbal w d = dbal (fp_ValPool fp) d + vdi_pools d vi"
    using get by (rule withdrawDelegationReward_Ok) blast
  let ?s = "s\<lparr>feePool := Some fp', valDistInfos := fmupd (vdi_OperatorAddr vi') vi' (valDistInfos s),
    delDistInfos := fmupd (ddi_DelegatorAddr di', ddi_ValOperatorAddr di') di' (delDistInfos s)\<rparr>"
  have 1: "moves s (dbal w) ?s"
    using record_moves [OF assms(2) old] by simp
  have 2: "moves ?s (\<lambda>d. - dbal w d) t"
    using WithdrawToDelegator_moves [OF pay moves_ok [OF 1]] by simp
  show ?thesis
    using moves_trans [OF 1 2] by simp
qed

lemma WithdrawDelegationReward_moves:
  assumes "WithdrawDelegationReward E C x a s = Ok w t" "accounts_ok s"
  shows "moves s (\<lambda>_. 0) t"
proof -
  obtain fp' vi' di' where get: "withdrawDelegationReward C x a s = Ok (fp', vi', di', w) s"
    and pay: "WithdrawToDelegator E fp' x w (s\<lparr>valDistInfos := fmupd (vdi_OperatorAddr vi') vi' (valDistInfos s),
      delDistInfos := fmupd (ddi_DelegatorAddr di', ddi_ValOperatorAddr di') di' (delDistInfos s)\<rparr>) = Ok () t"
    using assms(1) withdrawDelegationReward_read [of C x a s]
    by (fastforce simp: WithdrawDelegationReward_def SetValidatorDistInfo_def SetDelegationDistInfo_def split: if_splits)
  obtain fp vi where old: "feePool s = Some fp" "fmlookup (valDistInfos s) a = Some vi" "vdi_OperatorAddr vi' = vdi_OperatorAddr vi"
    "\<And>d. dbal (fp_ValPool fp') d + vdi_pools d vi' + dbal w d = dbal (fp_ValPool fp) d + vdi_pools d vi"
    using get by (rule withdrawDelegationReward_Ok) blast
  let ?s = "s\<lparr>valDistInfos := fmupd (vdi_OperatorAddr vi') vi' (valDistInfos s),
    delDistInfos := fmupd (ddi_DelegatorAddr di', ddi_ValOperatorAddr di') di' (delDistInfos s)\<rparr>"
  have 1: "moves s (\<lambda>d. vdi_pools d vi - vdi_pools d vi') ?s"
    using moves_vdi [OF assms(2) old(2,3)] by simp
  have 2: "moves ?s (\<lambda>d. dbal (fp_ValPool fp) d - dbal (fp_ValPool fp') d - dbal w d) t"
    using WithdrawToDelegator_moves [OF pay moves_ok [OF 1]] old(1) by simp
  show ?thesis
    by (rule moves_eq [OF moves_trans [OF 1 2]]) (use old(4) in \<open>simp add: algebra_simps\<close>)
qed

lemma withdraw_one_moves:
  assumes "withdraw_one C x a s = Ok w t" "accounts_ok s"
  shows "moves s (dbal w) t"
proof -
  obtain fp' vi' di' where get: "withdrawDelegationReward C x a s = Ok (fp', vi', di', w) s"
    and t: "t = s\<lparr>feePool := Some fp', valDistInfos := fmupd (vdi_OperatorAddr vi') vi' (valDistInfos s),
      delDistInfos := fmupd (ddi_DelegatorAddr di', ddi_ValOperatorAddr di') di' (delDistInfos s)\<rparr>"
    using assms(1) withdrawDelegationReward_read [of C x a s]
    by (fastforce simp: withdraw_one_def SetFeePool_def SetValidatorDistInfo_def SetDelegationDistInfo_def)
  obtain fp vi where old: "feePool s = Some fp" "fmlookup (valDistInfos s) a = Some vi" "vdi_OperatorAddr vi' = vdi_OperatorAddr vi"
    "\<And>d. dbal (fp_ValPool fp') d + vdi_pools d vi' + dbal w d = dbal (fp_ValPool fp) d + vdi_pools d vi"
    using get by (rule withdrawDelegationReward_Ok) blast
  show ?thesis
    using record_moves [OF assms(2) old] by (simp add: t)
qed

lemma withdraw_each_moves:
  "withdraw_each C x dels acc s = Ok w t \<Longrightarrow> accounts_ok s \<Longrightarrow> moves s (\<lambda>d. dbal w d - dbal acc d) t"
proof (induction dels arbitrary: acc s)
  case (Cons del dels)
  then obtain r acc' u where r: "withdraw_one C x (d_ValidatorAddr del) s = Ok r u" "DecCoins_Plus acc r = Some acc'"
    "withdraw_each C x dels acc' u = Ok w t"
    by auto
  note 1 = withdraw_one_moves [OF r(1) Cons.prems(2)]
  note 2 = Cons.IH [OF r(3) moves_ok [OF 1]]
  show ?case
    by (rule moves_eq [OF moves_trans [OF 1 2]]) (simp add: DecCoins_Plus_dbal [OF r(2)])
qed simp

lemma withdrawDelegationRewardsAll_moves:
  "withdrawDelegationRewardsAll C x s = Ok w t \<Longrightarrow> accounts_ok s \<Longrightarrow> moves s (dbal w) t"
  using withdraw_each_moves [of C x _ "[]" s w t] by (simp add: withdrawDelegationRewardsAll_def)

lemma WithdrawDelegationRewardsAll_moves:
  assumes "WithdrawDelegationRewardsAll E C x s = Ok w t" "accounts_ok s"
  shows "moves s (\<lambda>_. 0) t"
proof -
  obtain u fp where u: "withdrawDelegationRewardsAll C x s = Ok w u" "feePool u = Some fp" "WithdrawToDelegator E fp x w u = Ok () t"
    using assms(1) by (auto simp: WithdrawDelegationRewardsAll_def)
  note 1 = withdrawDelegationRewardsAll_moves [OF u(1) assms(2)]
  show ?thesis
    using moves_trans [OF 1 WithdrawToDelegator_moves [OF u(3) moves_ok [OF 1] u(2)]] by simp
qed

section \<open>Validators and hooks\<close>

lemma for_each_moves:
  "for_each xs f s = Ok u t \<Longrightarrow> accounts_ok s \<Longrightarrow>
   (\<And>x s u t. f x s = Ok u t \<Longrightarrow> accounts_ok s \<Longrightarrow> moves s (\<lambda>_. 0) t) \<Longrightarrow> moves s (\<lambda>_. 0) t"
proof (induction xs arbitrary: s)
  case (Cons x xs)
  then obtain v where "f x s = Ok () v" "for_each xs f v = Ok u t"
    by auto
  then have "moves s (\<lambda>_. 0) v" "moves v (\<lambda>_. 0) t"
    using Cons moves_ok by blast+
  then show ?case
    using moves_trans by fastforce
qed simp

lemma dbal_Nil: "dbal [] = (\<lambda>_. 0)"
  by (simp add: fun_eq_iff)

lemma take_commission_moves:
  assumes "take_commission C a s = Ok u t" "accounts_ok s"
  shows "moves s (\<lambda>_. 0) t"
proof -
  obtain vi wc v vi' fp' where g: "fmlookup (valDistInfos s) a = Some vi" "GetWithdrawContext C a s = Ok wc v"
    "TakeFeePoolRewards vi wc = Some (vi', fp')" "t = v\<lparr>feePool := Some fp', valDistInfos := fmupd (vdi_OperatorAddr vi') vi' (valDistInfos v)\<rparr>"
    using assms(1) by (auto simp: take_commission_def SetFeePool_def SetValidatorDistInfo_def simp del: GetWithdrawContext_Ok)
  then have "feePool s = Some (wc_FeePool wc)" "v = s"
    by auto
  note * = g [unfolded this(2)]
  show ?thesis
    using \<open>feePool s = Some (wc_FeePool wc)\<close>
    using record_moves [OF assms(2) _ *(1), of "wc_FeePool wc" vi' fp' "[]"] TakeFeePoolRewards_dbal [OF *(3)] TakeFeePoolRewards_frame [OF *(3)] *(4)
    by (simp add: vdi_pools_def algebra_simps dbal_Nil)
qed

lemma skip_empty_validator_moves:
  assumes "skip_empty_validator C a s = Ok u t" "accounts_ok s"
  shows "moves s (\<lambda>_. 0) t"
proof -
  define f :: "ValidatorDistInfo \<Rightarrow> ValidatorDistInfo" where "f = (\<lambda>vi. vi\<lparr>vdi_DelAccum := (vdi_DelAccum vi)\<lparr>ta_UpdateHeight := ctx_Height C\<rparr>, vdi_FeePoolWithdrawalHeight := ctx_Height C\<rparr>)"
  have f: "vdi_OperatorAddr (f vi) = vdi_OperatorAddr vi" "vdi_pools d (f vi) = vdi_pools d vi" for vi d
    by (simp_all add: f_def vdi_pools_def)
  obtain vi where vi: "fmlookup (valDistInfos s) a = Some vi" "t = s\<lparr>valDistInfos := fmupd (vdi_OperatorAddr (f vi)) (f vi) (valDistInfos s)\<rparr>"
    using assms(1) by (auto simp: skip_empty_validator_def SetValidatorDistInfo_def f_def)
  show ?thesis
    using moves_vdi [OF assms(2) vi(1) f(1)] by (simp add: vi(2) f)
qed

lemma takeValidatorFeePoolRewards_moves:
  assumes "takeValidatorFeePoolRewards E C a s = Ok u t" "accounts_ok s"
  shows "moves s (\<lambda>_. 0) t"
proof -
  obtain v where v: "(if HasDelegationDistInfo a a s then withdraw_and_pay E C a a
         else
           bind_op (gets (GetValidatorDelegations a)) (\<lambda>delegations.
           bind_op (for_each delegations (\<lambda>delegation. withdraw_and_pay E C (d_DelegatorAddr delegation) a)) (\<lambda>_.
           if length delegations = 0 then skip_empty_validator C a else ret ()))) s = Ok () v" "take_commission C a v = Ok u t"
    using assms(1) by (auto simp: takeValidatorFeePoolRewards_def split: if_splits)
  have 1: "moves s (\<lambda>_. 0) v"
  proof (cases "HasDelegationDistInfo a a s")
    case True
    then show ?thesis
      using v(1) withdraw_and_pay_moves [OF _ assms(2)] by simp
  next
    case False
    then obtain w where w: "for_each (GetValidatorDelegations a s) (\<lambda>delegation. withdraw_and_pay E C (d_DelegatorAddr delegation) a) s = Ok () w"
      "(if GetValidatorDelegations a s = [] then skip_empty_validator C a else ret ()) w = Ok () v"
      using v(1) by auto
    have "moves s (\<lambda>_. 0) w"
      using w(1) assms(2) by (rule for_each_moves) (rule withdraw_and_pay_moves)
    moreover have "moves w (\<lambda>_. 0) v"
      using w(2) skip_empty_validator_moves [of C a w "()" v] moves_ok [OF \<open>moves s (\<lambda>_. 0) w\<close>] by (simp split: if_splits)
    ultimately show ?thesis
      using moves_trans by fastforce
  qed
  show ?thesis
    using moves_trans [OF 1 take_commission_moves [OF v(2) moves_ok [OF 1]]] by simp
qed

lemma withdrawValidatorCommission_moves:
  assumes "withdrawValidatorCommission C a s = Ok (fp', w) t" "accounts_ok s"
  obtains fp where "feePool t = Some fp" "moves s (\<lambda>d. dbal (fp_ValPool fp') d - dbal (fp_ValPool fp) d + dbal w d) t"
proof -
  obtain vi wc v vi' where g: "fmlookup (valDistInfos s) a = Some vi" "GetWithdrawContext C a s = Ok wc v"
    "WithdrawCommission vi wc = Some (vi', fp', w)" "t = v\<lparr>valDistInfos := fmupd (vdi_OperatorAddr vi') vi' (valDistInfos v)\<rparr>"
    using assms(1) by (auto simp: withdrawValidatorCommission_def SetValidatorDistInfo_def simp del: GetWithdrawContext_Ok)
  then have fp: "feePool s = Some (wc_FeePool wc)" and "v = s"
    by auto
  note * = g [unfolded this(2)]
  note com = WithdrawCommission_dbal [OF *(3)]
  have "moves s (\<lambda>d. vdi_pools d vi - vdi_pools d vi') t"
    using moves_vdi [OF assms(2) *(1) com(2)] by (simp add: *(4))
  then have "moves s (\<lambda>d. dbal (fp_ValPool fp') d - dbal (fp_ValPool (wc_FeePool wc)) d + dbal w d) t"
    by (rule moves_eq) (use com(1) in \<open>simp add: vdi_pools_def algebra_simps\<close>)
  then show thesis
    using fp by (intro that [of "wc_FeePool wc"]) (simp_all add: *(4))
qed

text \<open>A commission that is taken and then paid out with \<open>w\<close>.\<close>

lemma commission_paid:
  assumes "withdrawValidatorCommission C a s = Ok (fp', com) u" "accounts_ok s" "WithdrawToDelegator E fp' x w u = Ok r t"
  shows "moves s (\<lambda>d. dbal com d - dbal w d) t"
proof -
  obtain fp where fp: "feePool u = Some fp" and 1: "moves s (\<lambda>d. dbal (fp_ValPool fp') d - dbal (fp_ValPool fp) d + dbal com d) u"
    using assms(1,2) by (rule withdrawValidatorCommission_moves)
  note 2 = WithdrawToDelegator_moves [OF assms(3) moves_ok [OF 1] fp]
  show ?thesis
    by (rule moves_eq [OF moves_trans [OF 1 2]]) simp
qed

lemma WithdrawValidatorRewardsAll_moves:
  assumes "WithdrawValidatorRewardsAll E C a s = Ok w t" "accounts_ok s"
  shows "moves s (\<lambda>_. 0) t"
proof -
  obtain w0 u fp com v where *: "withdrawDelegationRewardsAll C a s = Ok w0 u" "withdrawValidatorCommission C a u = Ok (fp, com) v"
    "DecCoins_Plus w0 com = Some w" "WithdrawToDelegator E fp a w v = Ok () t"
    using assms(1) by (auto simp: WithdrawValidatorRewardsAll_def split: if_splits)
  note 1 = withdrawDelegationRewardsAll_moves [OF *(1) assms(2)]
  note 2 = commission_paid [OF *(2) moves_ok [OF 1] *(4)]
  show ?thesis
    by (rule moves_eq [OF moves_trans [OF 1 2]]) (simp add: DecCoins_Plus_dbal [OF *(3)])
qed

lemma dist_onValidatorModified_moves:
  "dist_onValidatorModified E C a s = Ok u t \<Longrightarrow> accounts_ok s \<Longrightarrow> moves s (\<lambda>_. 0) t"
  by (auto simp: dist_onValidatorModified_def intro: takeValidatorFeePoolRewards_moves split: if_splits)

lemma dist_onDelegationRemoved_moves:
  assumes "dist_onDelegationRemoved E C x a s = Ok u t" "accounts_ok s"
  shows "moves s (\<lambda>_. 0) t"
proof (cases "a = x")
  case True
  then obtain fp com v w where "withdrawValidatorCommission C a s = Ok (fp, com) v" "WithdrawToDelegator E fp x com v = Ok () w"
    "t = w\<lparr>delDistInfos := fmdrop (x, a) (delDistInfos w)\<rparr>"
    using assms(1) by (auto simp: dist_onDelegationRemoved_def RemoveDelegationDistInfo_def)
  then show ?thesis
    using commission_paid [OF _ assms(2), of C a fp com v E x com "()" w] by simp
next
  case False
  then show ?thesis
    using assms by (auto simp: dist_onDelegationRemoved_def RemoveDelegationDistInfo_def)
qed

text \<open>The hooks that keep what is held: all but those that create and remove the record of a validator.\<close>

definition reward_hook :: "'e externals_scheme \<Rightarrow> block_ctx \<Rightarrow> 'z dist_state_scheme \<Rightarrow> 'z dist_state_scheme \<Rightarrow> bool" where
  "reward_hook E C s t \<longleftrightarrow> (let H = Some (distr_hooks E C) in
     (\<exists>a. OnValidatorModified H a s = Ok () t) \<or> (\<exists>c a. OnValidatorBonded H c a s = Ok () t) \<or>
     (\<exists>c a. OnValidatorPowerDidChange H c a s = Ok () t) \<or> (\<exists>c a. OnValidatorBeginUnbonding H c a s = Ok () t) \<or>
     (\<exists>x a. OnDelegationCreated H x a s = Ok () t) \<or> (\<exists>x a. OnDelegationSharesModified H x a s = Ok () t) \<or>
     (\<exists>x a. OnDelegationRemoved H x a s = Ok () t))"

lemma call_hook_run [simp]: "call_hook (run_hook m) s = Ok u t \<longleftrightarrow> m s = Ok () t"
  by (auto simp: call_hook_def run_hook_def split: outcome.splits)

lemmas hook_defs = OnValidatorCreated_def OnValidatorModified_def OnValidatorRemoved_def OnValidatorBonded_def
  OnValidatorPowerDidChange_def OnValidatorBeginUnbonding_def OnDelegationCreated_def OnDelegationSharesModified_def
  OnDelegationRemoved_def

lemma reward_hook_moves:
  assumes "reward_hook E C s t" "accounts_ok s"
  shows "moves s (\<lambda>_. 0) t"
proof -
  consider a where "dist_onValidatorModified E C a s = Ok () t" | "t = s" | x a where "dist_onDelegationRemoved E C x a s = Ok () t"
    | x a u where "dist_onValidatorModified E C a s = Ok () u" "dist_onDelegationCreated C x a u = Ok () t"
    | x a u where "dist_onValidatorModified E C a s = Ok () u" "dist_onDelegationSharesModified E C x a u = Ok () t"
    using assms(1) by (auto simp: reward_hook_def hook_defs distr_hooks_def Let_def dist_onValidatorBonded_def
        dist_onValidatorPowerDidChange_def split: if_splits)
  then show ?thesis
  proof cases
    case (4 x a u)
    then show ?thesis
      using dist_onValidatorModified_moves [OF 4(1) assms(2)] by (auto simp: dist_onDelegationCreated_def SetDelegationDistInfo_def)
  next
    case (5 x a u)
    note 1 = dist_onValidatorModified_moves [OF 5(1) assms(2)]
    obtain w where "WithdrawDelegationReward E C x a u = Ok w t"
      using 5(2) by (auto simp: dist_onDelegationSharesModified_def)
    from moves_trans [OF 1 WithdrawDelegationReward_moves [OF this moves_ok [OF 1]]] show ?thesis
      by simp
  qed (use assms(2) in \<open>auto intro: dist_onValidatorModified_moves dist_onDelegationRemoved_moves\<close>)
qed

lemma record_hooks:
  "OnValidatorCreated (Some (distr_hooks E C)) a s = Ok u t \<longleftrightarrow> dist_onValidatorCreated C a s = Ok () t"
  "OnValidatorRemoved (Some (distr_hooks E C)) c a s = Ok u t \<longleftrightarrow> RemoveValidatorDistInfo a s = Ok () t"
  by (simp_all add: OnValidatorCreated_def OnValidatorRemoved_def distr_hooks_def)

lemma distr_hooks_law:
  assumes "hook_call (Some (distr_hooks E C)) s t" "accounts_ok s"
  shows "accounts_ok t \<and> stake_stores t = stake_stores s"
proof -
  consider "reward_hook E C s t" | a where "dist_onValidatorCreated C a s = Ok () t" | a where "RemoveValidatorDistInfo a s = Ok () t"
    using assms(1) unfolding hook_call_def reward_hook_def Let_def record_hooks by blast
  then show ?thesis
  proof cases
    case 1
    then show ?thesis
      using reward_hook_moves [OF _ assms(2)] by (auto simp: moves_def)
  qed (use assms(2) in \<open>auto simp: dist_onValidatorCreated_def SetValidatorDistInfo_def RemoveValidatorDistInfo_def
        accounts_ok_def stake_stores_def split: if_splits\<close>)
qed

section \<open>Fees\<close>

lemma moves_fees:
  assumes "accounts_ok s"
  shows "moves s (\<lambda>d. bal (collectedFees s) d * precisionReuse) (s\<lparr>collectedFees := []\<rparr>)"
  using assms by (simp add: moves_def vdis_ok_def stake_stores_def wealth_def dist_pools_def distrib_right ranged_def)

lemma reward_proposer_moves:
  assumes "reward_proposer v vi fees votes s = Ok reward t" "accounts_ok s" "fmlookup (valDistInfos s) a = Some vi"
  shows "moves s (\<lambda>d. - dbal reward d) t" "feePool t = feePool s" "collectedFees t = collectedFees s"
proof -
  obtain com rest c p where *: "DecCoins_Minus reward com = Some rest" "DecCoins_Plus (vdi_ValCommission vi) com = Some c"
    "DecCoins_Plus (vdi_DelPool vi) rest = Some p" "t = s\<lparr>valDistInfos := fmupd (vdi_OperatorAddr vi)
      (vi\<lparr>vdi_ValCommission := c, vdi_DelPool := p\<rparr>) (valDistInfos s)\<rparr>"
    using assms(1) by (auto simp: reward_proposer_def SetValidatorDistInfo_def bind_eq_Some_conv)
  have "moves s (\<lambda>d. vdi_pools d vi - vdi_pools d (vi\<lparr>vdi_ValCommission := c, vdi_DelPool := p\<rparr>)) t"
    using moves_vdi [OF assms(2,3), of "vi\<lparr>vdi_ValCommission := c, vdi_DelPool := p\<rparr>"] by (simp add: *(4))
  then show "moves s (\<lambda>d. - dbal reward d) t"
    by (rule moves_eq) (simp add: vdi_pools_def DecCoins_Plus_dbal [OF *(2)] DecCoins_Plus_dbal [OF *(3)] DecCoins_Minus_dbal [OF *(1)])
  show "feePool t = feePool s" "collectedFees t = collectedFees s"
    by (simp_all add: *(4))
qed

lemma ignored_addCoins_moves:
  fixes s :: "'z dist_state_scheme"
  assumes "ignore_err (addCoins E a cs) s = Ok r t" "accounts_ok s" "ranged cs"
  shows "moves s (\<lambda>d. - bal cs d * precisionReuse) t \<and> feePool t = feePool s \<and> collectedFees t = collectedFees s"
  using assms(2)
proof (cases rule: addCoins_cases [of s E a cs])
  case (ok new amt' t')
  then have "addCoins E a cs s = Ok (new, amt') t" "collectedFees t = collectedFees s"
    using assms(1) by (auto simp: rest_of_def)
  then show ?thesis
    using addCoins_moves [OF _ assms(2,3)] by blast
qed (use assms(1) in simp)

lemma fund_community_moves:
  fixes s :: "'z dist_state_scheme"
  assumes "fund_community E fees s = Ok (funding, change) t" "accounts_ok s"
  shows "moves s (\<lambda>d. dbal change d - dbal funding d) t \<and> feePool t = feePool s \<and> collectedFees t = collectedFees s"
proof -
  obtain coins u where *: "TruncateDecimal funding = Some (coins, change)" "ignore_err (addCoins E (CommunityTaxCoinsAccAddr E) coins) s = Ok u t"
    using assms(1) by (auto simp: fund_community_def bind_eq_Some_conv simp del: ignore_err_Ok)
  note cut = TruncateDecimal_dbal [OF *(1)]
  have m: "moves s (\<lambda>d. - bal coins d * precisionReuse) t \<and> feePool t = feePool s \<and> collectedFees t = collectedFees s"
    by (rule ignored_addCoins_moves [OF *(2) assms(2) cut(3)])
  then show ?thesis
    by (auto intro: moves_eq simp: cut(1) [symmetric])
qed

lemma AllocateTokens_moves:
  fixes s :: "'z dist_state_scheme"
  assumes "AllocateTokens E votes proposer s = Ok u t" "accounts_ok s" "ranged (collectedFees s)"
  shows "moves s (\<lambda>_. 0) t"
proof -
  obtain v vi fees fp where pre: "GetValidatorByConsAddr proposer s = Some v" "fmlookup (valDistInfos s) (v_OperatorAddr v) = Some vi"
    "NewDecCoins (collectedFees s) = Some fees" "feePool s = Some fp"
    using assms(1) by (auto simp: AllocateTokens_def)
  note fees = NewDecCoins_dbal [OF pre(3)]
  show ?thesis
  proof (cases "GetLastTotalPower s = 0")
    case True
    then obtain r w where w: "ignore_err (addCoins E (CommunityTaxCoinsAccAddr E) (collectedFees s)) s = Ok r w" "t = w\<lparr>collectedFees := []\<rparr>"
      using assms(1) pre by (auto simp: AllocateTokens_def ClearCollectedFees_def simp del: ignore_err_Ok)
    note 1 = ignored_addCoins_moves [OF w(1) assms(2,3)]
    then have "moves w (\<lambda>d. bal (collectedFees s) d * precisionReuse) t"
      using moves_fees [of w] moves_ok by (auto simp: w(2))
    then show ?thesis
      using moves_trans [OF conjunct1 [OF 1]] by fastforce
  next
    case False
    then obtain x reward s1 funding change s2 r1 r2 got pool where *: "GetValidator (v_OperatorAddr v) s = Some x"
      "(if \<not> v_Jailed x then reward_proposer v vi fees votes else ret []) s = Ok reward s1"
      "fund_community E fees s1 = Ok (funding, change) s2"
      "DecCoins_Minus fees reward = Some r1" "DecCoins_Minus r1 funding = Some r2" "DecCoins_Plus r2 change = Some got"
      "DecCoins_Plus (fp_ValPool fp) got = Some pool" "t = s2\<lparr>feePool := Some (fp\<lparr>fp_ValPool := pool\<rparr>), collectedFees := []\<rparr>"
      using assms(1) pre by (auto simp: AllocateTokens_def ClearCollectedFees_def SetFeePool_def bind_eq_Some_conv)
    have 1: "moves s (\<lambda>d. - dbal reward d) s1 \<and> feePool s1 = feePool s \<and> collectedFees s1 = collectedFees s"
      using *(2) reward_proposer_moves [OF _ assms(2) pre(2)] assms(2) by (auto split: if_splits)
    have 2: "moves s1 (\<lambda>d. dbal change d - dbal funding d) s2 \<and> feePool s2 = feePool s1 \<and> collectedFees s2 = collectedFees s1"
      using fund_community_moves [OF *(3)] 1 moves_ok by blast
    have 3: "moves s2 (\<lambda>d. dbal (fp_ValPool fp) d - dbal pool d) (s2\<lparr>feePool := Some (fp\<lparr>fp_ValPool := pool\<rparr>)\<rparr>)"
      using moves_feePool [of s2 fp "fp\<lparr>fp_ValPool := pool\<rparr>"] 1 2 pre(4) moves_ok by (auto simp: moves_ok)
    have 4: "moves (s2\<lparr>feePool := Some (fp\<lparr>fp_ValPool := pool\<rparr>)\<rparr>) (\<lambda>d. bal (collectedFees s) d * precisionReuse) t"
      using moves_fees [OF moves_ok [OF 3]] 1 2 by (simp add: *(8))
    show ?thesis
      by (rule moves_eq [OF moves_trans [OF conjunct1 [OF 1] moves_trans [OF conjunct1 [OF 2] moves_trans [OF 3 4]]]])
        (simp add: fees DecCoins_Plus_dbal [OF *(7)] DecCoins_Plus_dbal [OF *(6)] DecCoins_Minus_dbal [OF *(5)] DecCoins_Minus_dbal [OF *(4)])
  qed
qed

section \<open>Runs\<close>

lemma AllocateFeeTax_moves:
  fixes s :: "'z dist_state_scheme"
  assumes "AllocateFeeTax E dest percent burn s = Ok u t" "accounts_ok s"
  shows "moves s (\<lambda>_. 0) t"
proof -
  obtain a b cs r where "sendCoins E a b cs s = Ok r t"
    using assms(1) by (auto simp: AllocateFeeTax_def BurnCoins_def split: if_splits)
  with assms(2) have t: "accounts_ok t \<and> rest_of t = rest_of s \<and> (\<forall>d. total_coins d t = total_coins d s)"
    by (cases rule: sendCoins_cases [of s E a b cs]) auto
  then have more: "auth_state.more t = auth_state.more s" and "collectedFees t = collectedFees s"
    by (simp_all add: rest_of_def)
  then show ?thesis
    using t dist_more [OF more] by (simp add: moves_def vdis_ok_def wealth_def dist_pools_def)
qed

lemma DistrBeginBlocker_moves:
  fixes s :: "'z dist_state_scheme"
  assumes "DistrBeginBlocker E C votes proposer s = Ok u t" "accounts_ok s" "ranged (collectedFees s)"
  shows "moves s (\<lambda>_. 0) t"
proof -
  obtain v where "v = s \<or> (\<exists>p q r. AllocateTokens E p q s = Ok r v)" "t = v\<lparr>previousProposer := Some proposer\<rparr>"
    using assms(1) by (auto simp: DistrBeginBlocker_def SetPreviousProposerConsAddr_def GetPreviousProposerConsAddr_def split: if_splits)
  then show ?thesis
    using AllocateTokens_moves [OF _ assms(2,3)] assms(2) by auto
qed

lemma DistrHandler_moves:
  assumes "DistrHandler E C msg s = Ok u t" "accounts_ok s"
  shows "moves s (\<lambda>_. 0) t"
  using assms
  by (cases "(E, C, msg)" rule: DistrHandler.cases)
    (auto simp: handleMsgModifyWithdrawAddress_def SetDelegatorWithdrawAddr_def handleMsgWithdrawDelegatorRewardsAll_def
      handleMsgWithdrawDelegatorReward_def handleMsgWithdrawValidatorRewardsAll_def
      intro: WithdrawDelegationRewardsAll_moves WithdrawDelegationReward_moves WithdrawValidatorRewardsAll_moves)

text \<open>What the distribution module does: it handles a message, begins a block, spends the community
  fund and runs a hook for staking.\<close>

inductive distr_step :: "'e externals_scheme \<Rightarrow> 'z dist_state_scheme \<Rightarrow> 'z dist_state_scheme \<Rightarrow> bool" for E where
  deliver: "DistrHandler E C msg s = Ok u t \<Longrightarrow> distr_step E s t"
| begin_block: "DistrBeginBlocker E C votes proposer s = Ok u t \<Longrightarrow> distr_step E s t"
| fee_tax: "AllocateFeeTax E dest percent burn s = Ok u t \<Longrightarrow> distr_step E s t"
| hook: "reward_hook E C s t \<Longrightarrow> distr_step E s t"

lemma distr_step_moves: "distr_step E s t \<Longrightarrow> accounts_ok s \<Longrightarrow> ranged (collectedFees s) \<Longrightarrow> moves s (\<lambda>_. 0) t"
  by (induction rule: distr_step.induct)
    (auto intro: DistrHandler_moves DistrBeginBlocker_moves AllocateFeeTax_moves reward_hook_moves)

lemma distr_run_moves:
  "(distr_step E)\<^sup>*\<^sup>* s t \<Longrightarrow> accounts_ok s \<Longrightarrow> ranged (collectedFees s) \<Longrightarrow> moves s (\<lambda>_. 0) t \<and> ranged (collectedFees t)"
proof (induction rule: rtranclp_induct)
  case (step t u)
  then have "moves s (\<lambda>_. 0) t" "ranged (collectedFees t)"
    by simp_all
  moreover have "moves t (\<lambda>_. 0) u"
    using step.hyps(2) moves_ok [OF calculation(1)] calculation(2) by (rule distr_step_moves)
  ultimately show ?case
    using moves_trans by (fastforce simp: moves_def)
qed simp

end
