(* ===== verification/Slashing.thy ===== *)
theory Slashing
  imports Distr_Ledger
begin

text \<open>
  Component: \<open>src/app/v1/slashing\<close>: signing records with the window of missed blocks, slashing
  periods, punishment of double signing, downtime and censorship, unjailing, the hooks that staking
  calls, the begin and end blockers and genesis; and the combined hooks of
  \<open>src/app/v2/protocol_v2.go\<close>. The state extends that of the distribution module. Metrics, tags
  and logs are left out.
\<close>

section \<open>State and parameters\<close>

record SlashParams =
  MaxEvidenceAge :: int
  SignedBlocksWindow :: int
  MinSignedPerWindow :: Dec
  DoubleSignJailDuration :: int
  DowntimeJailDuration :: int
  CensorshipJailDuration :: int
  SlashFractionDoubleSign :: Dec
  SlashFractionDowntime :: Dec
  SlashFractionCensorship :: Dec

record ValidatorSigningInfo =
  si_StartHeight :: int
  si_IndexOffset :: int
  si_JailedUntil :: go_time
  si_MissedBlocksCounter :: int

record ValidatorSlashingPeriodValue =
  spv_EndHeight :: int
  spv_SlashedSoFar :: Dec

record ValidatorSlashingPeriod =
  sp_ValidatorAddr :: ConsAddress
  sp_StartHeight :: int
  sp_EndHeight :: int
  sp_SlashedSoFar :: Dec

text \<open>A slashing period is stored under its validator and its start height, as the eight bytes of an
  unsigned number; the order of the keys is the order of these numbers.\<close>

record slash_state = dist_state +
  signingInfos :: "(ConsAddress, ValidatorSigningInfo) fmap"
  missedBlocks :: "(ConsAddress \<times> int, bool) fmap"
  slashingPeriods :: "(ConsAddress \<times> uint64, ValidatorSlashingPeriodValue) fmap"
  addrPubkeys :: "(bytes, PubKey) fmap"
  slashParams :: SlashParams

definition BlocksPerMinute :: int where
  "BlocksPerMinute = 12"

definition BlocksPerDay :: int where
  "BlocksPerDay = BlocksPerMinute * 60 * 24"

definition ValidatorUpdateDelay :: int where
  "ValidatorUpdateDelay = 1"

definition Day :: int where
  "Day = 24 * 60 * Minute"

definition DefaultSlashParams :: SlashParams where
  "DefaultSlashParams =
     \<lparr>MaxEvidenceAge = 3 * BlocksPerDay, SignedBlocksWindow = 2 * BlocksPerDay, MinSignedPerWindow = 5 * 10 ^ 9,
      DoubleSignJailDuration = 2 * Day, DowntimeJailDuration = Day, CensorshipJailDuration = 2 * Day,
      SlashFractionDoubleSign = 10 ^ 8, SlashFractionDowntime = 0, SlashFractionCensorship = 0\<rparr>"

definition ErrSlashParams :: sdk_error where
  "ErrSlashParams = SdkError ''params'' 800"

definition validateMaxEvidenceAge :: "bool \<Rightarrow> int \<Rightarrow> sdk_error + unit" where
  "validateMaxEvidenceAge mainnet p =
     (if mainnet then (if p < 2 * BlocksPerDay then Inl ErrSlashParams else Inr ())
      else if p < 2 * BlocksPerMinute then Inl ErrSlashParams
      else Inr ())"

definition validateSignedBlocksWindow :: "int \<Rightarrow> sdk_error + unit" where
  "validateSignedBlocksWindow p = (if p < 100 \<or> p > 140000 then Inl ErrSlashParams else Inr ())"

definition validateMinSignedPerWindow :: "Dec \<Rightarrow> sdk_error + unit" where
  "validateMinSignedPerWindow p = (if p < 5 * 10 ^ 9 \<or> p > 9 * 10 ^ 9 then Inl ErrSlashParams else Inr ())"

definition validateDoubleSignJailDuration :: "int \<Rightarrow> sdk_error + unit" where
  "validateDoubleSignJailDuration p = (if p \<le> 0 \<or> p \<ge> 2 * Week then Inl ErrSlashParams else Inr ())"

definition validateDowntimeJailDuration :: "int \<Rightarrow> sdk_error + unit" where
  "validateDowntimeJailDuration p = (if p \<le> 0 \<or> p \<ge> Week then Inl ErrSlashParams else Inr ())"

definition validateCensorshipJailDuration :: "int \<Rightarrow> sdk_error + unit" where
  "validateCensorshipJailDuration p = (if p \<le> 0 \<or> p \<ge> 2 * Week then Inl ErrSlashParams else Inr ())"

definition validateSlashFractionDoubleSign :: "Dec \<Rightarrow> sdk_error + unit" where
  "validateSlashFractionDoubleSign p = (if p < 0 \<or> p > 10 ^ 9 then Inl ErrSlashParams else Inr ())"

definition validateSlashFractionDowntime :: "Dec \<Rightarrow> sdk_error + unit" where
  "validateSlashFractionDowntime p = (if p < 0 \<or> p > 10 ^ 9 then Inl ErrSlashParams else Inr ())"

definition validateSlashFractionCensorship :: "Dec \<Rightarrow> sdk_error + unit" where
  "validateSlashFractionCensorship p = (if p < 0 \<or> p > 10 ^ 9 then Inl ErrSlashParams else Inr ())"

fun first_error :: "(sdk_error + unit) list \<Rightarrow> sdk_error + unit" where
  "first_error [] = Inr ()"
| "first_error (Inl e # rs) = Inl e"
| "first_error (Inr _ # rs) = first_error rs"

definition validateSlashParams :: "bool \<Rightarrow> SlashParams \<Rightarrow> sdk_error + unit" where
  "validateSlashParams mainnet p = first_error
     [validateMaxEvidenceAge mainnet (MaxEvidenceAge p), validateSignedBlocksWindow (SignedBlocksWindow p),
      validateMinSignedPerWindow (MinSignedPerWindow p), validateDoubleSignJailDuration (DoubleSignJailDuration p),
      validateDowntimeJailDuration (DowntimeJailDuration p), validateCensorshipJailDuration (CensorshipJailDuration p),
      validateSlashFractionDoubleSign (SlashFractionDoubleSign p), validateSlashFractionDowntime (SlashFractionDowntime p),
      validateSlashFractionCensorship (SlashFractionCensorship p)]"

text \<open>The number of blocks of the window that a validator must sign.\<close>

definition MinSigned :: "SlashParams \<Rightarrow> int option" where
  "MinSigned p = do {
     window \<leftarrow> NewDec (SignedBlocksWindow p);
     blocks \<leftarrow> Dec_Mul window (MinSignedPerWindow p);
     Dec_RoundInt64 blocks }"

section \<open>Signing records and slashing periods\<close>

definition getValidatorSigningInfo :: "ConsAddress \<Rightarrow> 'z slash_state_scheme \<Rightarrow> ValidatorSigningInfo option" where
  "getValidatorSigningInfo address s = fmlookup (signingInfos s) address"

definition SetValidatorSigningInfo :: "ConsAddress \<Rightarrow> ValidatorSigningInfo \<Rightarrow> ('z slash_state_scheme, unit) op" where
  "SetValidatorSigningInfo address info = modify (\<lambda>s. s\<lparr>signingInfos := fmupd address info (signingInfos s)\<rparr>)"

definition getValidatorMissedBlockBitArray :: "ConsAddress \<Rightarrow> int \<Rightarrow> 'z slash_state_scheme \<Rightarrow> bool" where
  "getValidatorMissedBlockBitArray address index s =
     (case fmlookup (missedBlocks s) (address, index) of None \<Rightarrow> False | Some missed \<Rightarrow> missed)"

definition setValidatorMissedBlockBitArray :: "ConsAddress \<Rightarrow> int \<Rightarrow> bool \<Rightarrow> ('z slash_state_scheme, unit) op" where
  "setValidatorMissedBlockBitArray address index missed =
     modify (\<lambda>s. s\<lparr>missedBlocks := fmupd (address, index) missed (missedBlocks s)\<rparr>)"

definition clearValidatorMissedBlockBitArray :: "ConsAddress \<Rightarrow> ('z slash_state_scheme, unit) op" where
  "clearValidatorMissedBlockBitArray address =
     modify (\<lambda>s. s\<lparr>missedBlocks := fmfilter (\<lambda>(a, _). a \<noteq> address) (missedBlocks s)\<rparr>)"

definition slashing_period_key :: "int \<Rightarrow> uint64" where
  "slashing_period_key startHeight = of_int (startHeight + ValidatorUpdateDelay)"

definition unmarshalSlashingPeriodKeyValue ::
  "(ConsAddress \<times> uint64) \<times> ValidatorSlashingPeriodValue \<Rightarrow> ValidatorSlashingPeriod" where
  "unmarshalSlashingPeriodKeyValue kv =
     (case kv of ((address, k), val) \<Rightarrow>
       \<lparr>sp_ValidatorAddr = address, sp_StartHeight = sint (k - of_int ValidatorUpdateDelay),
        sp_EndHeight = spv_EndHeight val, sp_SlashedSoFar = spv_SlashedSoFar val\<rparr>)"

definition getValidatorSlashingPeriodForHeight :: "ConsAddress \<Rightarrow> int \<Rightarrow> ('z slash_state_scheme, ValidatorSlashingPeriod) op" where
  "getValidatorSlashingPeriodForHeight address height =
     bind_op (gets (\<lambda>s. rev (filter (\<lambda>((a, k), _). a = address \<and> k \<le> slashing_period_key height)
       (sorted_list_of_fmap (slashingPeriods s))))) (\<lambda>periods. case periods of
       [] \<Rightarrow> panic
     | kv # _ \<Rightarrow> ret (unmarshalSlashingPeriodKeyValue kv))"

definition SetValidatorSlashingPeriod :: "ValidatorSlashingPeriod \<Rightarrow> ('z slash_state_scheme, unit) op" where
  "SetValidatorSlashingPeriod p =
     modify (\<lambda>s. s\<lparr>slashingPeriods := fmupd (sp_ValidatorAddr p, slashing_period_key (sp_StartHeight p))
       \<lparr>spv_EndHeight = sp_EndHeight p, spv_SlashedSoFar = sp_SlashedSoFar p\<rparr> (slashingPeriods s)\<rparr>)"

definition DeleteValidatorSlashingPeriods :: "('z slash_state_scheme, unit) op" where
  "DeleteValidatorSlashingPeriods = modify (\<lambda>s. s\<lparr>slashingPeriods := fmempty\<rparr>)"

definition capBySlashingPeriod :: "ConsAddress \<Rightarrow> Dec \<Rightarrow> int \<Rightarrow> ('z slash_state_scheme, Dec) op" where
  "capBySlashingPeriod address fraction infractionHeight =
     bind_op (getValidatorSlashingPeriodForHeight address infractionHeight) (\<lambda>p.
     if sp_EndHeight p > 0 \<and> sp_EndHeight p < infractionHeight then panic
     else
       let totalToSlash = MaxDec (sp_SlashedSoFar p) fraction in
       bind_op (lift_go (Dec_Sub totalToSlash (sp_SlashedSoFar p))) (\<lambda>revisedFraction.
       bind_op (SetValidatorSlashingPeriod (p\<lparr>sp_SlashedSoFar := totalToSlash\<rparr>)) (\<lambda>_.
       ret revisedFraction)))"

definition addPubkey :: "'e stake_externals_scheme \<Rightarrow> PubKey \<Rightarrow> ('z slash_state_scheme, unit) op" where
  "addPubkey E pubkey = modify (\<lambda>s. s\<lparr>addrPubkeys := fmupd (PubKey_Address E pubkey) pubkey (addrPubkeys s)\<rparr>)"

definition getPubkey :: "bytes \<Rightarrow> ('z slash_state_scheme, PubKey) op" where
  "getPubkey address = bind_op (gets (\<lambda>s. fmlookup (addrPubkeys s) address)) lift_go"

definition deleteAddrPubkeyRelation :: "bytes \<Rightarrow> ('z slash_state_scheme, unit) op" where
  "deleteAddrPubkeyRelation addr = modify (\<lambda>s. s\<lparr>addrPubkeys := fmdrop addr (addrPubkeys s)\<rparr>)"

section \<open>Infractions\<close>

text \<open>Set or extend the time in jail.\<close>

definition jail_until :: "ConsAddress \<Rightarrow> go_time \<Rightarrow> ('z slash_state_scheme, unit) op" where
  "jail_until consAddr until =
     bind_op (bind_op (gets (getValidatorSigningInfo consAddr)) lift_go) (\<lambda>signInfo.
     SetValidatorSigningInfo consAddr (signInfo\<lparr>si_JailedUntil := until\<rparr>))"

definition handleDoubleSign ::
  "'e stake_externals_scheme \<Rightarrow> block_ctx \<Rightarrow> 'z slash_state_scheme StakingHooks option \<Rightarrow> bytes \<Rightarrow> int \<Rightarrow> int \<Rightarrow>
   ('z slash_state_scheme, unit) op" where
  "handleDoubleSign E C H consAddr infractionHeight pow =
     bind_op (gets (GetValidatorByConsAddr consAddr)) (\<lambda>found. case found of
       None \<Rightarrow> ret ()
     | Some validator \<Rightarrow>
         if v_Status validator = Unbonded then ret ()
         else
           bind_op (getPubkey consAddr) (\<lambda>_.
           bind_op (gets slashParams) (\<lambda>params.
           if ctx_Height C - infractionHeight > MaxEvidenceAge params then ret ()
           else
             let distributionHeight = infractionHeight - ValidatorUpdateDelay in
             bind_op (capBySlashingPeriod consAddr (SlashFractionDoubleSign params) distributionHeight) (\<lambda>revisedFraction.
             bind_op (Slash E C H consAddr distributionHeight pow revisedFraction) (\<lambda>_.
             bind_op (if \<not> v_Jailed validator then Jail consAddr else ret ()) (\<lambda>_.
             jail_until consAddr (ctx_Time C + DoubleSignJailDuration params)))))))"

text \<open>The bit of the block and the counter of missed blocks; the counter is the sum of the bits.\<close>

definition count_signature :: "ConsAddress \<Rightarrow> int \<Rightarrow> bool \<Rightarrow> ValidatorSigningInfo \<Rightarrow> ('z slash_state_scheme, ValidatorSigningInfo) op" where
  "count_signature consAddr index missed signInfo =
     bind_op (gets (getValidatorMissedBlockBitArray consAddr index)) (\<lambda>previous.
     if \<not> previous \<and> missed then
       bind_op (setValidatorMissedBlockBitArray consAddr index True) (\<lambda>_.
       ret (signInfo\<lparr>si_MissedBlocksCounter := si_MissedBlocksCounter signInfo + 1\<rparr>))
     else if previous \<and> \<not> missed then
       bind_op (setValidatorMissedBlockBitArray consAddr index False) (\<lambda>_.
       ret (signInfo\<lparr>si_MissedBlocksCounter := si_MissedBlocksCounter signInfo - 1\<rparr>))
     else ret signInfo)"

definition punish_downtime ::
  "'e stake_externals_scheme \<Rightarrow> block_ctx \<Rightarrow> 'z slash_state_scheme StakingHooks option \<Rightarrow> ConsAddress \<Rightarrow> int \<Rightarrow>
   ValidatorSigningInfo \<Rightarrow> ('z slash_state_scheme, ValidatorSigningInfo) op" where
  "punish_downtime E C H consAddr pow signInfo =
     bind_op (gets (GetValidatorByConsAddr consAddr)) (\<lambda>found. case found of
       None \<Rightarrow> ret signInfo
     | Some validator \<Rightarrow>
         if v_Jailed validator then ret signInfo
         else
           bind_op (gets slashParams) (\<lambda>params.
           bind_op (Slash E C H consAddr (ctx_Height C - ValidatorUpdateDelay - 1) pow (SlashFractionDowntime params)) (\<lambda>_.
           bind_op (Jail consAddr) (\<lambda>_.
           bind_op (clearValidatorMissedBlockBitArray consAddr) (\<lambda>_.
           ret (signInfo\<lparr>si_JailedUntil := ctx_Time C + DowntimeJailDuration params, si_MissedBlocksCounter := 0,
             si_IndexOffset := 0\<rparr>))))))"

definition handleValidatorSignature ::
  "'e stake_externals_scheme \<Rightarrow> block_ctx \<Rightarrow> 'z slash_state_scheme StakingHooks option \<Rightarrow> bytes \<Rightarrow> int \<Rightarrow> bool \<Rightarrow>
   ('z slash_state_scheme, unit) op" where
  "handleValidatorSignature E C H consAddr pow signedLastBlock =
     bind_op (getPubkey consAddr) (\<lambda>_.
     bind_op (bind_op (gets (getValidatorSigningInfo consAddr)) lift_go) (\<lambda>signInfo.
     bind_op (gets slashParams) (\<lambda>params.
     if SignedBlocksWindow params = 0 then panic
     else
       let index = si_IndexOffset signInfo smod SignedBlocksWindow params;
           signInfo = signInfo\<lparr>si_IndexOffset := si_IndexOffset signInfo + 1\<rparr> in
       bind_op (count_signature consAddr index (\<not> signedLastBlock) signInfo) (\<lambda>signInfo.
       bind_op (lift_go (MinSigned params)) (\<lambda>minSigned.
       let minHeight = si_StartHeight signInfo + SignedBlocksWindow params;
           maxMissed = SignedBlocksWindow params - minSigned in
       bind_op (if ctx_Height C > minHeight \<and> si_MissedBlocksCounter signInfo > maxMissed
         then punish_downtime E C H consAddr pow signInfo else ret signInfo) (\<lambda>signInfo.
       SetValidatorSigningInfo consAddr signInfo))))))"

definition handleProposerCensorship ::
  "'e stake_externals_scheme \<Rightarrow> block_ctx \<Rightarrow> 'z slash_state_scheme StakingHooks option \<Rightarrow> bytes \<Rightarrow> int \<Rightarrow>
   ('z slash_state_scheme, unit) op" where
  "handleProposerCensorship E C H consAddr infractionHeight =
     bind_op (getPubkey consAddr) (\<lambda>_.
     bind_op (gets (GetValidatorByConsAddr consAddr)) (\<lambda>found. case found of
       None \<Rightarrow> ret ()
     | Some validator \<Rightarrow>
         if v_Status validator = Unbonded then ret ()
         else
           bind_op (gets slashParams) (\<lambda>params.
           bind_op (lift_go (do { p \<leftarrow> GetPower validator; Dec_RoundInt64 p })) (\<lambda>pow.
           bind_op (Slash E C H consAddr (infractionHeight - ValidatorUpdateDelay) pow (SlashFractionCensorship params)) (\<lambda>_.
           bind_op (if \<not> v_Jailed validator then Jail consAddr else ret ()) (\<lambda>_.
           jail_until consAddr (ctx_Time C + CensorshipJailDuration params)))))))"

section \<open>Hooks\<close>

definition slash_onValidatorBonded :: "block_ctx \<Rightarrow> ConsAddress \<Rightarrow> ('z slash_state_scheme, unit) op" where
  "slash_onValidatorBonded C address =
     bind_op (gets (getValidatorSigningInfo address)) (\<lambda>found.
     bind_op (if found = None then SetValidatorSigningInfo address
         \<lparr>si_StartHeight = ctx_Height C, si_IndexOffset = 0, si_JailedUntil = 0, si_MissedBlocksCounter = 0\<rparr>
       else ret ()) (\<lambda>_.
     SetValidatorSlashingPeriod
       \<lparr>sp_ValidatorAddr = address, sp_StartHeight = ctx_Height C, sp_EndHeight = 0, sp_SlashedSoFar = 0\<rparr>))"

definition slash_onValidatorBeginUnbonding :: "block_ctx \<Rightarrow> ConsAddress \<Rightarrow> ('z slash_state_scheme, unit) op" where
  "slash_onValidatorBeginUnbonding C address =
     bind_op (getValidatorSlashingPeriodForHeight address (ctx_Height C)) (\<lambda>p.
     SetValidatorSlashingPeriod (p\<lparr>sp_EndHeight := ctx_Height C\<rparr>))"

definition slash_onValidatorCreated :: "'e stake_externals_scheme \<Rightarrow> ValAddress \<Rightarrow> ('z slash_state_scheme, unit) op" where
  "slash_onValidatorCreated E valAddr =
     bind_op (bind_op (gets (GetValidator valAddr)) lift_go) (\<lambda>validator.
     addPubkey E (v_ConsPubKey validator))"

definition slashing_hooks :: "'e stake_externals_scheme \<Rightarrow> block_ctx \<Rightarrow> 'z slash_state_scheme StakingHooks" where
  "slashing_hooks E C =
     \<lparr>h_ValidatorCreated = (\<lambda>valAddr. run_hook (slash_onValidatorCreated E valAddr)),
      h_ValidatorModified = (\<lambda>_. Some),
      h_ValidatorRemoved = (\<lambda>consAddr _. run_hook (deleteAddrPubkeyRelation consAddr)),
      h_ValidatorBonded = (\<lambda>consAddr _. run_hook (slash_onValidatorBonded C consAddr)),
      h_ValidatorPowerDidChange = (\<lambda>_ _. Some),
      h_ValidatorBeginUnbonding = (\<lambda>consAddr _. run_hook (slash_onValidatorBeginUnbonding C consAddr)),
      h_DelegationCreated = (\<lambda>_ _. Some),
      h_DelegationSharesModified = (\<lambda>_ _. Some),
      h_DelegationRemoved = (\<lambda>_ _. Some)\<rparr>"

text \<open>The hooks of the protocol: those of distribution, then those of slashing.\<close>

definition both :: "('s \<Rightarrow> 's option) \<Rightarrow> ('s \<Rightarrow> 's option) \<Rightarrow> 's \<Rightarrow> 's option" where
  "both h1 h2 s = (case h1 s of None \<Rightarrow> None | Some t \<Rightarrow> h2 t)"

definition NewHooks :: "'s StakingHooks \<Rightarrow> 's StakingHooks \<Rightarrow> 's StakingHooks" where
  "NewHooks dh sh =
     \<lparr>h_ValidatorCreated = (\<lambda>a. both (h_ValidatorCreated dh a) (h_ValidatorCreated sh a)),
      h_ValidatorModified = (\<lambda>a. both (h_ValidatorModified dh a) (h_ValidatorModified sh a)),
      h_ValidatorRemoved = (\<lambda>c a. both (h_ValidatorRemoved dh c a) (h_ValidatorRemoved sh c a)),
      h_ValidatorBonded = (\<lambda>c a. both (h_ValidatorBonded dh c a) (h_ValidatorBonded sh c a)),
      h_ValidatorPowerDidChange = (\<lambda>c a. both (h_ValidatorPowerDidChange dh c a) (h_ValidatorPowerDidChange sh c a)),
      h_ValidatorBeginUnbonding = (\<lambda>c a. both (h_ValidatorBeginUnbonding dh c a) (h_ValidatorBeginUnbonding sh c a)),
      h_DelegationCreated = (\<lambda>x a. both (h_DelegationCreated dh x a) (h_DelegationCreated sh x a)),
      h_DelegationSharesModified = (\<lambda>x a. both (h_DelegationSharesModified dh x a) (h_DelegationSharesModified sh x a)),
      h_DelegationRemoved = (\<lambda>x a. both (h_DelegationRemoved dh x a) (h_DelegationRemoved sh x a))\<rparr>"

definition protocol_hooks :: "'e stake_externals_scheme \<Rightarrow> block_ctx \<Rightarrow> 'z slash_state_scheme StakingHooks option" where
  "protocol_hooks E C = Some (NewHooks (distr_hooks E C) (slashing_hooks E C))"

section \<open>Blocks, handler and genesis\<close>

datatype EvidenceType = DuplicateVote | OtherEvidence string

record Evidence =
  evd_Type :: EvidenceType
  evd_Address :: bytes
  evd_Height :: int
  evd_Power :: int

definition SlashBeginBlocker ::
  "'e stake_externals_scheme \<Rightarrow> block_ctx \<Rightarrow> 'z slash_state_scheme StakingHooks option \<Rightarrow> VoteInfo list \<Rightarrow> Evidence list \<Rightarrow>
   ('z slash_state_scheme, unit) op" where
  "SlashBeginBlocker E C H votes evidences =
     bind_op (for_each votes (\<lambda>v. handleValidatorSignature E C H (vote_Address v) (vote_Power v) (vote_SignedLastBlock v))) (\<lambda>_.
     for_each evidences (\<lambda>e.
       if evd_Type e = DuplicateVote then handleDoubleSign E C H (evd_Address e) (evd_Height e) (evd_Power e) else ret ()))"

definition SlashEndBlocker ::
  "'e stake_externals_scheme \<Rightarrow> block_ctx \<Rightarrow> 'z slash_state_scheme StakingHooks option \<Rightarrow> int \<Rightarrow> int \<Rightarrow> bytes \<Rightarrow>
   ('z slash_state_scheme, unit) op" where
  "SlashEndBlocker E C H validTxCount numTxs proposerAddress =
     (if validTxCount < numTxs then handleProposerCensorship E C H proposerAddress (ctx_Height C) else ret ())"

definition ErrNoValidatorForAddress :: sdk_error where
  "ErrNoValidatorForAddress = SdkError ''slash'' 101"

definition ErrBadValidatorAddr :: sdk_error where
  "ErrBadValidatorAddr = SdkError ''slash'' 101"

definition ErrValidatorJailed :: sdk_error where
  "ErrValidatorJailed = SdkError ''slash'' 102"

definition ErrValidatorNotJailed :: sdk_error where
  "ErrValidatorNotJailed = SdkError ''slash'' 103"

definition ErrMissingSelfDelegation :: sdk_error where
  "ErrMissingSelfDelegation = SdkError ''slash'' 104"

definition MsgUnjail_ValidateBasic :: "ValAddress option \<Rightarrow> sdk_error + unit" where
  "MsgUnjail_ValidateBasic validatorAddr = (if validatorAddr = None then Inl ErrBadValidatorAddr else Inr ())"

definition handleMsgUnjail :: "'e stake_externals_scheme \<Rightarrow> block_ctx \<Rightarrow> ValAddress \<Rightarrow> ('z slash_state_scheme, unit) op" where
  "handleMsgUnjail E C validatorAddr =
     bind_op (gets (GetValidator validatorAddr)) (\<lambda>found. case found of
       None \<Rightarrow> fail ErrNoValidatorForAddress
     | Some validator \<Rightarrow>
         bind_op (gets (GetDelegation validatorAddr validatorAddr)) (\<lambda>selfDel.
         if selfDel = None then fail ErrMissingSelfDelegation
         else if \<not> v_Jailed validator then fail ErrValidatorNotJailed
         else
           let consAddr = PubKey_Address E (v_ConsPubKey validator) in
           bind_op (gets (getValidatorSigningInfo consAddr)) (\<lambda>found. case found of
             None \<Rightarrow> fail ErrNoValidatorForAddress
           | Some info \<Rightarrow>
               if ctx_Time C < si_JailedUntil info then fail ErrValidatorJailed
               else Unjail consAddr)))"

record SlashGenesis =
  gen_SlashParams :: SlashParams
  gen_SigningInfos :: "(ConsAddress \<times> ValidatorSigningInfo) list"
  gen_MissedBlocks :: "(ConsAddress \<times> (int \<times> bool) list) list"
  gen_SlashingPeriods :: "ValidatorSlashingPeriod list"

definition SlashInitGenesis ::
  "'e stake_externals_scheme \<Rightarrow> bool \<Rightarrow> SlashGenesis \<Rightarrow> Validator list \<Rightarrow> ('z slash_state_scheme, unit) op" where
  "SlashInitGenesis E mainnet data vals =
     (case validateSlashParams mainnet (gen_SlashParams data) of Inl _ \<Rightarrow> panic
      | Inr _ \<Rightarrow>
        bind_op (for_each vals (\<lambda>validator. addPubkey E (v_ConsPubKey validator))) (\<lambda>_.
        bind_op (for_each (gen_SigningInfos data) (\<lambda>(address, info). SetValidatorSigningInfo address info)) (\<lambda>_.
        bind_op (for_each (gen_MissedBlocks data) (\<lambda>(address, array).
          for_each array (\<lambda>(index, missed). setValidatorMissedBlockBitArray address index missed))) (\<lambda>_.
        bind_op (for_each (gen_SlashingPeriods data) SetValidatorSlashingPeriod) (\<lambda>_.
        modify (\<lambda>s. s\<lparr>slashParams := gen_SlashParams data\<rparr>))))))"

definition iterateValidatorMissedBlockBitArray :: "ConsAddress \<Rightarrow> 'z slash_state_scheme \<Rightarrow> (int \<times> bool) list" where
  "iterateValidatorMissedBlockBitArray address s =
     List.map_filter (\<lambda>index. map_option (\<lambda>missed. (index, missed)) (fmlookup (missedBlocks s) (address, index)))
       [0 .. SignedBlocksWindow (slashParams s) - 1]"

definition SlashExportGenesis :: "'z slash_state_scheme \<Rightarrow> SlashGenesis" where
  "SlashExportGenesis s =
     \<lparr>gen_SlashParams = slashParams s, gen_SigningInfos = sorted_list_of_fmap (signingInfos s),
      gen_MissedBlocks = map (\<lambda>(address, _). (address, iterateValidatorMissedBlockBitArray address s)) (sorted_list_of_fmap (signingInfos s)),
      gen_SlashingPeriods = map unmarshalSlashingPeriodKeyValue (sorted_list_of_fmap (slashingPeriods s))\<rparr>"

end
