(* ===== verification/Asset.thy ===== *)
theory Asset
  imports Asset_Types Slashing
begin

text \<open>
  Component: \<open>src/app/v1/asset\<close>: the keeper of tokens and gateways (\<open>internal/keeper/keeper.go\<close>), the
  fees for issuing, minting and registering (\<open>internal/keeper/fees.go\<close>), the fee check before a
  transaction (\<open>internal/keeper/ante.go\<close>), the handler (\<open>handler.go\<close>) and the genesis
  (\<open>genesis.go\<close>).

  Tokens are stored under the key of their id. The index of tokens by owner and of gateways by owner
  is a set of pairs; an empty owner stands for the index of all tokens. The fee factor is computed by
  the source with floating-point logarithms and printed with two decimals: that string is a field of
  \<open>asset_externals\<close>, a function of the length of the name.
\<close>

section \<open>State\<close>

record asset_externals = stake_externals +
  FormatFeeFactor :: "nat \<Rightarrow> string"

record asset_state = slash_state +
  tokens :: "(bytes, FungibleToken) fmap"
  ownerTokens :: "(AccAddress \<times> string) fset"
  gateways :: "(string, Gateway) fmap"
  ownerGateways :: "(AccAddress \<times> string) fset"
  assetParams :: AssetParams

definition KeyToken :: "string \<Rightarrow> bytes" where
  "KeyToken tokenId = ''token:'' @ (case ConvertIdToTokenKeyId tokenId of None \<Rightarrow> '''' | Some keyId \<Rightarrow> keyId)"

definition HasToken :: "string \<Rightarrow> 'z asset_state_scheme \<Rightarrow> bool" where
  "HasToken tokenId s \<longleftrightarrow> fmlookup (tokens s) (KeyToken tokenId) \<noteq> None"

definition getToken :: "string \<Rightarrow> 'z asset_state_scheme \<Rightarrow> FungibleToken option" where
  "getToken tokenId s = fmlookup (tokens s) (KeyToken tokenId)"

definition token_id :: "FungibleToken \<Rightarrow> sdk_error + string" where
  "token_id token = GetTokenID (ft_Source token) (ft_Symbol token) (ft_Gateway token)"

definition SetToken :: "FungibleToken \<Rightarrow> ('z asset_state_scheme, unit) op" where
  "SetToken token0 =
     (let token = (if ft_Source token0 = GATEWAY then token0\<lparr>ft_Owner := ''''\<rparr> else token0) in
      bind_op (lift_res (token_id token)) (\<lambda>tokenId.
      modify (\<lambda>s. s\<lparr>tokens := fmupd (KeyToken tokenId) token (tokens s)\<rparr>)))"

definition SetTokens :: "AccAddress \<Rightarrow> FungibleToken \<Rightarrow> ('z asset_state_scheme, unit) op" where
  "SetTokens owner token =
     bind_op (lift_res (token_id token)) (\<lambda>tokenId.
     modify (\<lambda>s. s\<lparr>ownerTokens := finsert (owner, tokenId) (ownerTokens s)\<rparr>))"

section \<open>Gateways\<close>

definition HasGateway :: "string \<Rightarrow> 'z asset_state_scheme \<Rightarrow> bool" where
  "HasGateway moniker s \<longleftrightarrow> fmlookup (gateways s) moniker \<noteq> None"

definition GetGateway :: "string \<Rightarrow> 'z asset_state_scheme \<Rightarrow> sdk_error + Gateway" where
  "GetGateway moniker s =
     (case fmlookup (gateways s) moniker of None \<Rightarrow> Inl (AssetErr CodeUnknownGateway) | Some gateway \<Rightarrow> Inr gateway)"

definition SetGateway :: "Gateway \<Rightarrow> ('z asset_state_scheme, unit) op" where
  "SetGateway gateway = modify (\<lambda>s. s\<lparr>gateways := fmupd (gw_Moniker gateway) gateway (gateways s)\<rparr>)"

definition SetOwnerGateway :: "AccAddress \<Rightarrow> string \<Rightarrow> ('z asset_state_scheme, unit) op" where
  "SetOwnerGateway owner moniker = modify (\<lambda>s. s\<lparr>ownerGateways := finsert (owner, moniker) (ownerGateways s)\<rparr>)"

definition UpdateOwnerGateway :: "string \<Rightarrow> AccAddress \<Rightarrow> AccAddress \<Rightarrow> ('z asset_state_scheme, unit) op" where
  "UpdateOwnerGateway moniker originOwner newOwner =
     modify (\<lambda>s. s\<lparr>ownerGateways :=
       finsert (newOwner, moniker) (ownerGateways s |-| {|(originOwner, moniker)|})\<rparr>)"

definition CreateGateway :: "MsgCreateGateway \<Rightarrow> ('z asset_state_scheme, unit) op" where
  "CreateGateway msg =
     bind_op (gets (HasGateway (mcg_Moniker msg))) (\<lambda>found.
     if found then fail (AssetErr CodeGatewayAlreadyExists)
     else
       bind_op (SetGateway \<lparr>gw_Owner = mcg_Owner msg, gw_Moniker = mcg_Moniker msg,
         gw_Identity = mcg_Identity msg, gw_Details = mcg_Details msg, gw_Website = mcg_Website msg\<rparr>) (\<lambda>_.
       SetOwnerGateway (mcg_Owner msg) (mcg_Moniker msg)))"

definition update_field :: "string \<Rightarrow> string \<Rightarrow> string" where
  "update_field new old = (if new \<noteq> DoNotModify then new else old)"

definition EditGateway :: "MsgEditGateway \<Rightarrow> ('z asset_state_scheme, unit) op" where
  "EditGateway msg =
     bind_op (bind_op (gets (GetGateway (meg_Moniker msg))) lift_res) (\<lambda>gateway.
     if meg_Owner msg \<noteq> gw_Owner gateway then fail (AssetErr CodeInvalidOwner)
     else SetGateway (gateway\<lparr>gw_Identity := update_field (meg_Identity msg) (gw_Identity gateway),
       gw_Details := update_field (meg_Details msg) (gw_Details gateway),
       gw_Website := update_field (meg_Website msg) (gw_Website gateway)\<rparr>))"

definition TransferGatewayOwner :: "MsgTransferGatewayOwner \<Rightarrow> ('z asset_state_scheme, unit) op" where
  "TransferGatewayOwner msg =
     bind_op (bind_op (gets (GetGateway (mtg_Moniker msg))) lift_res) (\<lambda>gateway.
     if mtg_Owner msg \<noteq> gw_Owner gateway then fail (AssetErr CodeInvalidOwner)
     else
       bind_op (SetGateway (gateway\<lparr>gw_Owner := mtg_To msg\<rparr>)) (\<lambda>_.
       UpdateOwnerGateway (gw_Moniker gateway) (mtg_Owner msg) (mtg_To msg)))"

section \<open>Issuing tokens\<close>

text \<open>\<open>token.Sanitize()\<close> returns a cleaned copy that the caller drops, so it has no effect. A nil
  owner is empty.\<close>

definition AddToken :: "FungibleToken \<Rightarrow> ('z asset_state_scheme, FungibleToken \<times> AccAddress) op" where
  "AddToken token =
     bind_op (lift_res (token_id token)) (\<lambda>tokenId.
     bind_op (gets (HasToken tokenId)) (\<lambda>found.
     if found then fail (AssetErr CodeAssetAlreadyExists)
     else
       bind_op (if ft_Source token = GATEWAY
                then bind_op (bind_op (gets (GetGateway (ft_Gateway token))) lift_res) (\<lambda>gateway. ret (token, gw_Owner gateway))
                else if ft_Source token = NATIVE
                then ret (token\<lparr>ft_CanonicalSymbol := '''', ft_Gateway := ''''\<rparr>, ft_Owner token)
                else ret (token, '''')) (\<lambda>(token, owner).
       bind_op (SetToken token) (\<lambda>_.
       bind_op (if ft_Source token = NATIVE then SetTokens owner token else ret ()) (\<lambda>_.
       bind_op (SetTokens '''' token) (\<lambda>_.
       ret (token, owner)))))))"

definition IssueToken :: "'e externals_scheme \<Rightarrow> FungibleToken \<Rightarrow> ('z asset_state_scheme, unit) op" where
  "IssueToken E token =
     bind_op (if ft_Source token = GATEWAY
              then bind_op (bind_op (gets (GetGateway (ft_Gateway token))) lift_res) (\<lambda>gateway.
                if gw_Owner gateway \<noteq> ft_Owner token then fail (AssetErr CodeUnauthorizedIssueGatewayAsset) else ret ())
              else ret ()) (\<lambda>_.
     bind_op (AddToken token) (\<lambda>(token, owner).
     bind_op (lift_go (NewCoin (GetDenom token) (ft_InitialSupply token))) (\<lambda>initialSupply.
     bind_op (if owner \<noteq> '''' then bind_op (addCoins E owner [initialSupply]) (\<lambda>_. ret ()) else ret ()) (\<lambda>_.
     SetTotalSupply initialSupply))))"

section \<open>Fees\<close>

definition calcFeeFactor :: "'e asset_externals_scheme \<Rightarrow> string \<Rightarrow> Dec option" where
  "calcFeeFactor E name =
     (if length name = 0 then None
      else case NewDecFromStr (FormatFeeFactor E (length name)) of Inl _ \<Rightarrow> None | Inr feeFactor \<Rightarrow> Some feeFactor)"

definition calcFeeByBase :: "'e asset_externals_scheme \<Rightarrow> string \<Rightarrow> int \<Rightarrow> Dec option" where
  "calcFeeByBase E name baseFee =
     do { feeFactor \<leftarrow> calcFeeFactor E name; base \<leftarrow> NewDecFromInt baseFee; Dec_Quo base feeFactor }"

definition convertFeeToInt :: "Dec \<Rightarrow> int option" where
  "convertFeeToInt fee =
     do {
       one \<leftarrow> NewIntWithDecimal 1 18;
       unit \<leftarrow> NewDecFromInt one;
       feeNativeToken \<leftarrow> Dec_Quo fee unit;
       limit \<leftarrow> NewDec 1;
       if feeNativeToken > limit then do { whole \<leftarrow> Dec_TruncateInt feeNativeToken; Int_Mul whole one }
       else Int_Mul 1 one
     }"

definition fee_coin :: "Dec \<Rightarrow> Coin option" where
  "fee_coin fee = do { amount \<leftarrow> convertFeeToInt fee; NewCoin IrisAtto amount }"

definition GetGatewayCreateFee :: "'e asset_externals_scheme \<Rightarrow> string \<Rightarrow> AssetParams \<Rightarrow> Coin option" where
  "GetGatewayCreateFee E moniker params =
     do { fee \<leftarrow> calcFeeByBase E moniker (Amount (CreateGatewayBaseFee params)); fee_coin fee }"

definition GetTokenIssueFee :: "'e asset_externals_scheme \<Rightarrow> string \<Rightarrow> AssetParams \<Rightarrow> Coin option" where
  "GetTokenIssueFee E symbol params =
     do { fee \<leftarrow> calcFeeByBase E symbol (Amount (IssueTokenBaseFee params)); fee_coin fee }"

definition fee_share :: "Coin \<Rightarrow> Dec \<Rightarrow> Coin option" where
  "fee_share fee ratio = do { amount \<leftarrow> NewDecFromInt (Amount fee); share \<leftarrow> Dec_Mul amount ratio; fee_coin share }"

definition GetTokenMintFee :: "'e asset_externals_scheme \<Rightarrow> string \<Rightarrow> AssetParams \<Rightarrow> Coin option" where
  "GetTokenMintFee E symbol params =
     do { issueFee \<leftarrow> GetTokenIssueFee E symbol params; fee_share issueFee (MintTokenFeeRatio params) }"

definition GetGatewayTokenIssueFee :: "'e asset_externals_scheme \<Rightarrow> string \<Rightarrow> AssetParams \<Rightarrow> Coin option" where
  "GetGatewayTokenIssueFee E symbol params =
     do { nativeFee \<leftarrow> GetTokenIssueFee E symbol params; fee_share nativeFee (GatewayAssetFeeRatio params) }"

definition GetGatewayTokenMintFee :: "'e asset_externals_scheme \<Rightarrow> string \<Rightarrow> AssetParams \<Rightarrow> Coin option" where
  "GetGatewayTokenMintFee E symbol params =
     do { nativeFee \<leftarrow> GetTokenMintFee E symbol params; fee_share nativeFee (GatewayAssetFeeRatio params) }"

definition feeHandler :: "'e externals_scheme \<Rightarrow> AccAddress \<Rightarrow> Coin \<Rightarrow> ('z asset_state_scheme, unit) op" where
  "feeHandler E feeAcc fee =
     bind_op (gets (\<lambda>s. AssetTaxRate (assetParams s))) (\<lambda>assetTaxRate.
     bind_op (lift_go (do {
       amount \<leftarrow> NewDecFromInt (Amount fee);
       tax \<leftarrow> Dec_Mul amount assetTaxRate;
       taxAmount \<leftarrow> Dec_TruncateInt tax;
       communityTaxCoin \<leftarrow> NewCoin (Denom fee) taxAmount;
       burnedCoin \<leftarrow> Coin_Sub fee communityTaxCoin;
       Some (communityTaxCoin, burnedCoin) })) (\<lambda>(communityTaxCoin, burnedCoin).
     bind_op (sendCoins E feeAcc (CommunityTaxCoinsAccAddr E) [communityTaxCoin]) (\<lambda>_.
     bind_op (BurnCoins E feeAcc [burnedCoin]) (\<lambda>_.
     ret ()))))"

definition pay_fee ::
  "'e externals_scheme \<Rightarrow> AccAddress \<Rightarrow> (AssetParams \<Rightarrow> Coin option) \<Rightarrow> ('z asset_state_scheme, unit) op" where
  "pay_fee E owner fee_of =
     bind_op (bind_op (gets (\<lambda>s. fee_of (assetParams s))) lift_go) (\<lambda>fee. feeHandler E owner fee)"

definition GatewayCreateFeeHandler :: "'e asset_externals_scheme \<Rightarrow> AccAddress \<Rightarrow> string \<Rightarrow> ('z asset_state_scheme, unit) op" where
  "GatewayCreateFeeHandler E owner moniker = pay_fee E owner (GetGatewayCreateFee E moniker)"

definition TokenIssueFeeHandler :: "'e asset_externals_scheme \<Rightarrow> AccAddress \<Rightarrow> string \<Rightarrow> ('z asset_state_scheme, unit) op" where
  "TokenIssueFeeHandler E owner symbol = pay_fee E owner (GetTokenIssueFee E symbol)"

definition TokenMintFeeHandler :: "'e asset_externals_scheme \<Rightarrow> AccAddress \<Rightarrow> string \<Rightarrow> ('z asset_state_scheme, unit) op" where
  "TokenMintFeeHandler E owner symbol = pay_fee E owner (GetTokenMintFee E symbol)"

definition GatewayTokenIssueFeeHandler :: "'e asset_externals_scheme \<Rightarrow> AccAddress \<Rightarrow> string \<Rightarrow> ('z asset_state_scheme, unit) op" where
  "GatewayTokenIssueFeeHandler E owner symbol = pay_fee E owner (GetGatewayTokenIssueFee E symbol)"

definition GatewayTokenMintFeeHandler :: "'e asset_externals_scheme \<Rightarrow> AccAddress \<Rightarrow> string \<Rightarrow> ('z asset_state_scheme, unit) op" where
  "GatewayTokenMintFeeHandler E owner symbol = pay_fee E owner (GetGatewayTokenMintFee E symbol)"

section \<open>Editing, transferring and minting\<close>

text \<open>The owner of a gateway token is the owner of its gateway; an unknown gateway has no owner.\<close>

definition current_owner :: "FungibleToken \<Rightarrow> 'z asset_state_scheme \<Rightarrow> FungibleToken" where
  "current_owner token s =
     (if ft_Source token = GATEWAY
      then token\<lparr>ft_Owner := (case GetGateway (ft_Gateway token) s of Inl _ \<Rightarrow> '''' | Inr gateway \<Rightarrow> gw_Owner gateway)\<rparr>
      else token)"

definition find_token :: "string \<Rightarrow> ('z asset_state_scheme, FungibleToken) op" where
  "find_token tokenId =
     bind_op (gets (getToken tokenId)) (\<lambda>found. case found of
       None \<Rightarrow> fail (AssetErr CodeAssetNotExists) | Some token \<Rightarrow> ret token)"

definition EditToken :: "MsgEditToken \<Rightarrow> ('z asset_state_scheme, unit) op" where
  "EditToken msg =
     bind_op (find_token (met_TokenId msg)) (\<lambda>stored.
     bind_op (gets (current_owner stored)) (\<lambda>token.
     if met_Owner msg \<noteq> ft_Owner token then fail (AssetErr CodeInvalidOwner)
     else
       bind_op (gets (GetTotalSupply (GetDenom token))) (\<lambda>supply. case supply of
         None \<Rightarrow> fail (AssetErr CodeAssetNotExists)
       | Some hasIssuedAmt \<Rightarrow>
           bind_op (lift_go (NewIntWithDecimal (sint (met_MaxSupply msg)) (uint (ft_Decimal token)))) (\<lambda>maxSupply.
           if maxSupply > 0 \<and> (maxSupply < Amount hasIssuedAmt \<or> maxSupply > ft_MaxSupply token)
           then fail (AssetErr CodeInvalidAssetMaxSupply)
           else SetToken (token\<lparr>ft_Name := update_field (met_Name msg) (ft_Name token),
             ft_CanonicalSymbol := (if ft_Source token \<noteq> NATIVE
               then update_field (met_CanonicalSymbol msg) (ft_CanonicalSymbol token) else ft_CanonicalSymbol token),
             ft_MinUnitAlias := update_field (met_MinUnitAlias msg) (ft_MinUnitAlias token),
             ft_MaxSupply := (if maxSupply > 0 then maxSupply else ft_MaxSupply token),
             ft_Mintable := (if met_Mintable msg \<noteq> '''' then Bool_ToBool (met_Mintable msg) else ft_Mintable token)\<rparr>)))))"

definition resetStoreKeyForQueryToken :: "MsgTransferTokenOwner \<Rightarrow> FungibleToken \<Rightarrow> ('z asset_state_scheme, unit) op" where
  "resetStoreKeyForQueryToken msg token =
     bind_op (lift_res (token_id token)) (\<lambda>tokenId.
     bind_op (modify (\<lambda>s. s\<lparr>ownerTokens := ownerTokens s |-| {|(mtt_SrcOwner msg, tokenId)|}\<rparr>)) (\<lambda>_.
     SetTokens (mtt_DstOwner msg) token))"

definition TransferTokenOwner :: "MsgTransferTokenOwner \<Rightarrow> ('z asset_state_scheme, unit) op" where
  "TransferTokenOwner msg =
     bind_op (find_token (mtt_TokenId msg)) (\<lambda>token.
     if ft_Source token \<noteq> NATIVE then fail (AssetErr CodeInvalidAssetSource)
     else if mtt_SrcOwner msg \<noteq> ft_Owner token then fail (AssetErr CodeInvalidOwner)
     else
       bind_op (SetToken (token\<lparr>ft_Owner := mtt_DstOwner msg\<rparr>)) (\<lambda>_.
       resetStoreKeyForQueryToken msg (token\<lparr>ft_Owner := mtt_DstOwner msg\<rparr>)))"

definition MintToken :: "'e asset_externals_scheme \<Rightarrow> MsgMintToken \<Rightarrow> ('z asset_state_scheme, unit) op" where
  "MintToken E msg =
     bind_op (find_token (mmt_TokenId msg)) (\<lambda>stored.
     bind_op (gets (current_owner stored)) (\<lambda>token.
     if mmt_Owner msg \<noteq> ft_Owner token then fail (AssetErr CodeInvalidOwner)
     else if \<not> ft_Mintable token then fail (AssetErr CodeAssetNotMintable)
     else
       bind_op (gets (GetTotalSupply (GetDenom token))) (\<lambda>supply. case supply of
         None \<Rightarrow> fail (AssetErr CodeAssetNotExists)
       | Some hasIssuedAmt \<Rightarrow>
           if GetDenom token \<noteq> Denom hasIssuedAmt then fail (AssetErr CodeAssetNotExists)
           else
             bind_op (lift_go (NewIntWithDecimal (sint (mmt_Amount msg)) (uint (ft_Decimal token)))) (\<lambda>mintAmt.
             bind_op (lift_go (Int_Add mintAmt (Amount hasIssuedAmt))) (\<lambda>issued.
             if issued > ft_MaxSupply token
             then bind_op (lift_go (do { exp \<leftarrow> NewIntWithDecimal 1 (uint (ft_Decimal token));
                                         left \<leftarrow> Int_Sub (ft_MaxSupply token) (Amount hasIssuedAmt);
                                         Int_Div left exp })) (\<lambda>_. fail (AssetErr CodeInvalidAssetMaxSupply))
             else
               bind_op (if ft_Source token = NATIVE then TokenMintFeeHandler E (mmt_Owner msg) (ft_Symbol token)
                        else if ft_Source token = GATEWAY then GatewayTokenMintFeeHandler E (mmt_Owner msg) (ft_Symbol token)
                        else ret ()) (\<lambda>_.
               bind_op (lift_go (NewCoin (GetDenom token) mintAmt)) (\<lambda>mintCoin.
               bind_op (IncreaseTotalSupply mintCoin) (\<lambda>_.
               bind_op (addCoins E (if mmt_To msg = '''' then ft_Owner token else mmt_To msg) [mintCoin]) (\<lambda>_.
               ret ())))))))))"

section \<open>Handler\<close>

definition handleIssueToken :: "'e asset_externals_scheme \<Rightarrow> MsgIssueToken \<Rightarrow> ('z asset_state_scheme, unit) op" where
  "handleIssueToken E msg =
     (if mi_Family msg \<noteq> FUNGIBLE then fail (AssetErr CodeInvalidAssetFamily)
      else
        bind_op (lift_go (do {
          initialSupply \<leftarrow> NewIntWithDecimal (sint (mi_InitialSupply msg)) (uint (mi_Decimal msg));
          maxSupply \<leftarrow> NewIntWithDecimal (sint (mi_MaxSupply msg)) (uint (mi_Decimal msg));
          Some (NewFungibleToken (mi_Source msg) (mi_Gateway msg) (mi_Symbol msg) (mi_Name msg) (mi_Decimal msg)
            (mi_CanonicalSymbol msg) (mi_MinUnitAlias msg) initialSupply maxSupply (mi_Mintable msg) (mi_Owner msg)) }))
          (\<lambda>token.
        bind_op (if mi_Source msg = NATIVE then TokenIssueFeeHandler E (mi_Owner msg) (mi_Symbol msg)
                 else if mi_Source msg = GATEWAY then GatewayTokenIssueFeeHandler E (mi_Owner msg) (mi_Symbol msg)
                 else ret ()) (\<lambda>_.
        IssueToken E token)))"

definition handleMsgCreateGateway :: "'e asset_externals_scheme \<Rightarrow> MsgCreateGateway \<Rightarrow> ('z asset_state_scheme, unit) op" where
  "handleMsgCreateGateway E msg =
     bind_op (GatewayCreateFeeHandler E (mcg_Owner msg) (mcg_Moniker msg)) (\<lambda>_.
     CreateGateway (msg\<lparr>mcg_Moniker := ToLower (mcg_Moniker msg)\<rparr>))"

definition handleMsgEditGateway :: "MsgEditGateway \<Rightarrow> ('z asset_state_scheme, unit) op" where
  "handleMsgEditGateway msg = EditGateway (msg\<lparr>meg_Moniker := ToLower (meg_Moniker msg)\<rparr>)"

definition handleMsgTransferGatewayOwner :: "MsgTransferGatewayOwner \<Rightarrow> ('z asset_state_scheme, unit) op" where
  "handleMsgTransferGatewayOwner msg = TransferGatewayOwner (msg\<lparr>mtg_Moniker := ToLower (mtg_Moniker msg)\<rparr>)"

fun AssetHandler :: "'e asset_externals_scheme \<Rightarrow> asset_msg \<Rightarrow> ('z asset_state_scheme, unit) op" where
  "AssetHandler E (AssetIssueToken msg) = handleIssueToken E msg"
| "AssetHandler E (AssetCreateGateway msg) = handleMsgCreateGateway E msg"
| "AssetHandler E (AssetEditGateway msg) = handleMsgEditGateway msg"
| "AssetHandler E (AssetEditToken msg) = EditToken msg"
| "AssetHandler E (AssetTransferGatewayOwner msg) = handleMsgTransferGatewayOwner msg"
| "AssetHandler E (AssetMintToken msg) = MintToken E msg"
| "AssetHandler E (AssetTransferTokenOwner msg) = TransferTokenOwner msg"

section \<open>The fee check before a transaction\<close>

text \<open>A message for another module is \<open>None\<close>. The fee of a message for which the code sets none is
  the zero value of a coin, whose amount is a nil pointer: adding it panics.\<close>

fun asset_msg_fee :: "'e asset_externals_scheme \<Rightarrow> AssetParams \<Rightarrow> asset_msg \<Rightarrow> Coin option" where
  "asset_msg_fee E params (AssetCreateGateway msg) = GetGatewayCreateFee E (mcg_Moniker msg) params"
| "asset_msg_fee E params (AssetIssueToken msg) =
     (if mi_Source msg = NATIVE then GetTokenIssueFee E (mi_Symbol msg) params
      else if mi_Source msg = GATEWAY then GetGatewayTokenIssueFee E (mi_Symbol msg) params
      else None)"
| "asset_msg_fee E params (AssetMintToken msg) =
     (let (source, symbol) = GetTokenIDParts (mmt_TokenId msg) in
      if source = '''' \<or> source = ''i'' then GetTokenMintFee E symbol params
      else if source \<noteq> ''x'' then GetGatewayTokenMintFee E symbol params
      else None)"
| "asset_msg_fee E params _ = NewCoin IrisAtto 0"

fun asset_total_fee :: "'e asset_externals_scheme \<Rightarrow> AssetParams \<Rightarrow> Coins \<Rightarrow> asset_msg option list \<Rightarrow> Coins option" where
  "asset_total_fee E params totalFee [] = Some totalFee"
| "asset_total_fee E params totalFee (None # msgs) = Some totalFee"
| "asset_total_fee E params totalFee (Some msg # msgs) =
     do { msgFee \<leftarrow> asset_msg_fee E params msg;
          totalFee' \<leftarrow> Coins_Add totalFee [msgFee];
          asset_total_fee E params totalFee' msgs }"

definition AssetAnteHandler ::
  "'e asset_externals_scheme \<Rightarrow> BaseAccount list \<Rightarrow> asset_msg option list \<Rightarrow> ('z asset_state_scheme, unit) op" where
  "AssetAnteHandler E signerAccs msgs =
     (case signerAccs of [] \<Rightarrow> fail (AssetErr CodeSignersMissingInContext)
      | payer # _ \<Rightarrow>
          bind_op (bind_op (gets (\<lambda>s. asset_total_fee E (assetParams s) [] msgs)) lift_go) (\<lambda>totalFee.
          if \<not> IsAllLTE totalFee (acc_Coins payer) then fail (AssetErr CodeAssetInsufficientCoins) else ret ()))"

section \<open>Genesis\<close>

record AssetGenesis =
  ag_Params :: AssetParams
  ag_Tokens :: "FungibleToken list"
  ag_Gateways :: "Gateway list"

definition Token_Validate :: "FungibleToken \<Rightarrow> (sdk_error + unit) option" where
  "Token_Validate token =
     do {
       exp \<leftarrow> NewIntWithDecimal 1 (uint (ft_Decimal token));
       q \<leftarrow> Int_Div (ft_InitialSupply token) exp;
       initialSupply \<leftarrow> Int64 q;
       r \<leftarrow> Int_Div (ft_MaxSupply token) exp;
       maxSupply \<leftarrow> Int64 r;
       Some (case ValidateMsgIssueToken
           \<lparr>mi_Family = ft_Family token, mi_Source = ft_Source token, mi_Gateway = ft_Gateway token,
            mi_Symbol = ft_Symbol token, mi_CanonicalSymbol = ft_CanonicalSymbol token, mi_Name = ft_Name token,
            mi_Decimal = ft_Decimal token, mi_MinUnitAlias = ft_MinUnitAlias token,
            mi_InitialSupply = word_of_int initialSupply, mi_MaxSupply = word_of_int maxSupply,
            mi_Mintable = ft_Mintable token, mi_Owner = ft_Owner token\<rparr> of
         Inl e \<Rightarrow> Inl e | Inr _ \<Rightarrow> Inr ())
     }"

fun Tokens_Validate :: "FungibleToken list \<Rightarrow> (sdk_error + unit) option" where
  "Tokens_Validate [] = Some (Inr ())"
| "Tokens_Validate (token # toks) =
     do { res \<leftarrow> Token_Validate token; case res of Inl e \<Rightarrow> Some (Inl e) | Inr _ \<Rightarrow> Tokens_Validate toks }"

fun validateGateways :: "Gateway list \<Rightarrow> sdk_error + unit" where
  "validateGateways [] = Inr ()"
| "validateGateways (gateway # gws) =
     (case Gateway_Validate gateway of Inl e \<Rightarrow> Inl e | Inr _ \<Rightarrow> validateGateways gws)"

definition AssetValidateGenesis :: "AssetGenesis \<Rightarrow> (sdk_error + unit) option" where
  "AssetValidateGenesis data =
     (case ValidateAssetParams (ag_Params data) of Inl e \<Rightarrow> Some (Inl e)
      | Inr _ \<Rightarrow> (case validateGateways (ag_Gateways data) of Inl e \<Rightarrow> Some (Inl e)
          | Inr _ \<Rightarrow> Tokens_Validate (ag_Tokens data)))"

definition AssetInitGenesis :: "AssetGenesis \<Rightarrow> ('z asset_state_scheme, unit) op" where
  "AssetInitGenesis data =
     bind_op (err_panics (bind_op (lift_go (AssetValidateGenesis data)) lift_res)) (\<lambda>_.
     bind_op (modify (\<lambda>s. s\<lparr>assetParams := ag_Params data\<rparr>)) (\<lambda>_.
     bind_op (for_each (ag_Gateways data) (\<lambda>gateway.
       bind_op (SetGateway gateway) (\<lambda>_. SetOwnerGateway (gw_Owner gateway) (gw_Moniker gateway)))) (\<lambda>_.
     for_each (ag_Tokens data) (\<lambda>token. bind_op (err_panics (AddToken token)) (\<lambda>_. ret ())))))"

definition AssetExportGenesis :: "'z asset_state_scheme \<Rightarrow> AssetGenesis" where
  "AssetExportGenesis s =
     \<lparr>ag_Params = assetParams s, ag_Tokens = map snd (sorted_list_of_fmap (tokens s)),
      ag_Gateways = map snd (sorted_list_of_fmap (gateways s))\<rparr>"

text \<open>The migration from protocol v0: default parameters and the external tokens BTC and ETH.\<close>

definition AssetInit :: "'e externals_scheme \<Rightarrow> ('z asset_state_scheme, unit) op" where
  "AssetInit E =
     bind_op (modify (\<lambda>s. s\<lparr>assetParams := DefaultAssetParams\<rparr>)) (\<lambda>_.
     bind_op (lift_go (NewIntWithDecimal (sint MaximumAssetMaxSupply) 8)) (\<lambda>btcSupply.
     bind_op (ignore_err (IssueToken E (NewFungibleToken EXTERNAL '''' ''BTC'' ''Bitcoin'' 8 ''BTC'' ''satoshi'' 0 btcSupply True ''''))) (\<lambda>_.
     bind_op (lift_go (NewIntWithDecimal (sint MaximumAssetMaxSupply) 18)) (\<lambda>ethSupply.
     ignore_err (IssueToken E (NewFungibleToken EXTERNAL '''' ''ETH'' ''Ethereum'' 18 ''ETH'' ''wei'' 0 ethSupply True ''''))))))"

end
