(* ===== verification/Stake_Frame.thy ===== *)
theory Stake_Frame
  imports Stake_Ledger
begin

text \<open>
  Staking touches the stores of other modules and the collected fees only through its hooks: whatever
  the hooks keep of them, every operation of staking keeps.
\<close>

named_theorems more_keeps \<open>operations of staking that keep the rest of the state\<close>

lemma hook_no_Err:
  "OnValidatorCreated H a s \<noteq> Err e t" "OnValidatorModified H a s \<noteq> Err e t" "OnValidatorRemoved H c a s \<noteq> Err e t"
  "OnValidatorBonded H c a s \<noteq> Err e t" "OnValidatorPowerDidChange H c a s \<noteq> Err e t" "OnValidatorBeginUnbonding H c a s \<noteq> Err e t"
  "OnDelegationCreated H x a s \<noteq> Err e t" "OnDelegationSharesModified H x a s \<noteq> Err e t" "OnDelegationRemoved H x a s \<noteq> Err e t"
  by (simp_all add: OnValidatorCreated_def OnValidatorModified_def OnValidatorRemoved_def OnValidatorBonded_def
      OnValidatorPowerDidChange_def OnValidatorBeginUnbonding_def OnDelegationCreated_def OnDelegationSharesModified_def
      OnDelegationRemoved_def call_hook_def split: option.splits)

locale hooks_keep =
  fixes H :: "'z stake_state_scheme StakingHooks option" and kept :: "'z stake_state_scheme \<Rightarrow> bool"
  assumes hook_keeps: "hook_call H s t \<Longrightarrow> kept s \<Longrightarrow> kept t"
    and others: "stake_state.more t = stake_state.more s \<Longrightarrow> collectedFees t = collectedFees s \<Longrightarrow> kept s \<Longrightarrow> kept t"
begin

lemma keeps_hook_op: "(\<And>s t u. m s = Ok u t \<Longrightarrow> hook_call H s t) \<Longrightarrow> (\<And>s e t. m s \<noteq> Err e t) \<Longrightarrow> keeps kept m"
  by (rule keepsI) (blast intro: hook_keeps, simp)

lemma keeps_hooks [more_keeps]:
  "keeps kept (OnValidatorCreated H a)" "keeps kept (OnValidatorModified H a)" "keeps kept (OnValidatorRemoved H c a)"
  "keeps kept (OnValidatorBonded H c a)" "keeps kept (OnValidatorPowerDidChange H c a)" "keeps kept (OnValidatorBeginUnbonding H c a)"
  "keeps kept (OnDelegationCreated H x a)" "keeps kept (OnDelegationSharesModified H x a)" "keeps kept (OnDelegationRemoved H x a)"
  by (rule keeps_hook_op, erule hook_callI, rule hook_no_Err)+

lemma keeps_modify_stake [more_keeps]:
  "(\<And>s. stake_state.more (f s) = stake_state.more s \<and> collectedFees (f s) = collectedFees s) \<Longrightarrow> keeps kept (modify f)"
  by (rule keepsI) (auto intro: others)

lemma keeps_loosen [more_keeps]: "keeps kept (DecreaseTotalLoosenToken cs)" "keeps kept (IncreaseTotalLoosenToken cs)"
  unfolding DecreaseTotalLoosenToken_def IncreaseTotalLoosenToken_def by (intro keeps_intros more_keeps; simp)+

lemma keeps_setCoins [more_keeps]: "keeps kept (setCoins a cs)"
  unfolding setCoins_def NewAccountWithAddress_def GetNextAccountNumber_def SetAccount_def by (intro keeps_intros more_keeps; simp)

lemma keeps_burn [more_keeps]: "keeps kept (burn_coin c)"
  unfolding burn_coin_def DecreaseTotalSupply_def SetTotalSupply_def by (intro keeps_intros more_keeps; simp)

lemma keeps_bank [more_keeps]: "keeps kept (subtractCoins a cs)" "keeps kept (addCoins E a cs)"
  unfolding subtractCoins_def addCoins_def by (intro keeps_intros more_keeps)+

lemma keeps_pool [more_keeps]:
  "keeps kept (loosenTokenToBonded p x)" "keeps kept (bondedTokenToLoosen p x)" "keeps kept GetPool" "keeps kept (SetPool p)"
  unfolding loosenTokenToBonded_def bondedTokenToLoosen_def GetPool_def SetPool_def by (intro keeps_intros more_keeps; simp)+

lemma keeps_tokens [more_keeps]:
  "keeps kept (RemoveTokens v p x)" "keeps kept (RemoveDelShares v p x)" "keeps kept (AddTokensFromDel v p n)"
  unfolding RemoveTokens_def RemoveDelShares_def AddTokensFromDel_def by (intro keeps_intros more_keeps)+

lemma keeps_UpdateStatus [more_keeps]: "keeps kept (UpdateStatus v p st)"
  unfolding UpdateStatus_def by (cases "v_Status v") (simp only: BondStatus.case, intro keeps_intros more_keeps)+

lemma keeps_records [more_keeps]:
  "keeps kept (SetValidator v)" "keeps kept (SetValidatorByConsAddr E v)" "keeps kept (SetValidatorByPowerIndex v)"
  "keeps kept (DeleteValidatorByPowerIndex v)" "keeps kept (SetNewValidatorByPowerIndex v)" "keeps kept (InsertValidatorQueue v)"
  "keeps kept (DeleteValidatorQueue v)" "keeps kept (SetLastTotalPower n)" "keeps kept (SetLastValidatorPower a n)"
  "keeps kept (DeleteLastValidatorPower a)" "keeps kept (mustGetValidator a)" "keeps kept (mustGetValidatorByConsAddr c)"
  unfolding SetValidator_def SetValidatorByConsAddr_def SetValidatorByPowerIndex_def DeleteValidatorByPowerIndex_def
    SetNewValidatorByPowerIndex_def InsertValidatorQueue_def DeleteValidatorQueue_def SetLastTotalPower_def SetLastValidatorPower_def
    DeleteLastValidatorPower_def mustGetValidator_def mustGetValidatorByConsAddr_def
  by (intro keeps_intros more_keeps; simp)+

lemma keeps_entries [more_keeps]:
  "keeps kept (SetDelegation d)" "keeps kept (RemoveDelegation H d)" "keeps kept (SetUnbondingDelegation u)"
  "keeps kept (RemoveUnbondingDelegation u)" "keeps kept (InsertUnbondingQueue u)" "keeps kept (DequeueAllMatureUnbondingQueue C)"
  "keeps kept (SetRedelegation r)" "keeps kept (RemoveRedelegation r)" "keeps kept (InsertRedelegationQueue r)"
  "keeps kept (DequeueAllMatureRedelegationQueue C)"
  unfolding SetDelegation_def RemoveDelegation_def SetUnbondingDelegation_def RemoveUnbondingDelegation_def InsertUnbondingQueue_def
    DequeueAllMatureUnbondingQueue_def SetRedelegation_def RemoveRedelegation_def InsertRedelegationQueue_def
    DequeueAllMatureRedelegationQueue_def
  by (intro keeps_intros more_keeps; simp)+

lemma keeps_stakes [more_keeps]:
  "keeps kept (RemoveValidatorTokens v x)" "keeps kept (RemoveValidatorTokensAndShares v x)" "keeps kept (AddValidatorTokensAndShares v n)"
  "keeps kept (jailValidator v)" "keeps kept (unjailValidator v)"
  unfolding RemoveValidatorTokens_def RemoveValidatorTokensAndShares_def AddValidatorTokensAndShares_def jailValidator_def unjailValidator_def
  by (intro keeps_intros more_keeps)+

lemma keeps_RemoveValidator [more_keeps]: "keeps kept (RemoveValidator E H a)"
  unfolding RemoveValidator_def by (intro keeps_intros more_keeps; simp)

lemma keeps_delegate [more_keeps]: "keeps kept (Delegate C H x amt v sub)" "keeps kept (shrink_delegation C H d l v)"
  "keeps kept (remove_if_empty E H v)"
  unfolding Delegate_def shrink_delegation_def remove_if_empty_def by (intro keeps_intros more_keeps)+

lemma keeps_unbond [more_keeps]: "keeps kept (unbond E C H x a shares)"
  unfolding unbond_def by (intro keeps_intros more_keeps)

lemma keeps_moves [more_keeps]:
  "keeps kept (BeginUnbonding E C H x a shares)" "keeps kept (CompleteUnbonding E x a)"
  "keeps kept (BeginRedelegation E C H x a b shares)" "keeps kept (CompleteRedelegation C x a b)"
  unfolding BeginUnbonding_def CompleteUnbonding_def BeginRedelegation_def CompleteRedelegation_def by (intro keeps_intros more_keeps)+

lemma keeps_reduce [more_keeps]:
  "keeps kept (reduce_unbonding u n)" "keeps kept (reduce_redelegation r n)" "keeps kept (burn_redelegated E C H r x)"
  unfolding reduce_unbonding_def reduce_redelegation_def burn_redelegated_def by (intro keeps_intros more_keeps)+

lemma keeps_slash_entry [more_keeps]:
  "keeps kept (slashUnbondingDelegation C u h f)" "keeps kept (slashRedelegation E C H r h f)"
  unfolding slashUnbondingDelegation_def slashRedelegation_def by (intro keeps_intros more_keeps)+

lemma keeps_slash_each: "(\<And>x. keeps kept (f x)) \<Longrightarrow> keeps kept (slash_each f xs r)"
  by (induction xs arbitrary: r) (auto intro!: keeps_intros simp del: op_simps)

lemma keeps_slash [more_keeps]: "keeps kept (slash_past E C H a h f amt)" "keeps kept (Slash E C H c h p f)"
  unfolding slash_past_def Slash_def by (intro keeps_intros more_keeps keeps_slash_each)+

lemma keeps_jail [more_keeps]: "keeps kept (Jail c)" "keeps kept (Unjail c)"
  unfolding Jail_def Unjail_def by (intro keeps_intros more_keeps)+

lemma keeps_status [more_keeps]:
  "keeps kept (bondValidator E C H v)" "keeps kept (beginUnbondingValidator E C H v)" "keeps kept (completeUnbondingValidator v)"
  unfolding bondValidator_def beginUnbondingValidator_def completeUnbondingValidator_def by (intro keeps_intros more_keeps)+

lemma keeps_bond_if_needed [more_keeps]: "keeps kept (bond_if_needed E C H v)"
  unfolding bond_if_needed_def unbondedToBonded_def unbondingToBonded_def
  by (cases "v_Status v") (simp only: BondStatus.case, intro keeps_intros more_keeps)+

lemma keeps_set_updates [more_keeps]:
  "keeps kept (record_power E H ls a v p us)" "keeps kept (unbond_dropped E C H a)" "keeps kept (unbond_mature E H a)"
  unfolding record_power_def unbond_dropped_def bondedToUnbonding_def unbond_mature_def unbondingToUnbonded_def
  by (intro keeps_intros more_keeps)+

lemma keeps_apply_updates [more_keeps]: "keeps kept (apply_updates E C H n addrs ls p us)"
proof (induction n arbitrary: addrs ls p us)
  case (Suc n)
  then show ?case
    by (cases addrs) (simp_all only: apply_updates.simps, (intro keeps_intros more_keeps Suc)+)
qed (simp only: apply_updates.simps, intro keeps_intros)

lemma keeps_unbond_all_dropped [more_keeps]: "keeps kept (unbond_all_dropped E C H addrs)"
  by (induction addrs) (simp_all only: unbond_all_dropped.simps, (intro keeps_intros more_keeps; assumption)+)

lemma keeps_blocks [more_keeps]:
  "keeps kept (ApplyAndReturnValidatorSetUpdates E C H)" "keeps kept (UnbondAllMatureValidatorQueue E C H)"
  unfolding ApplyAndReturnValidatorSetUpdates_def UnbondAllMatureValidatorQueue_def Let_def by (intro keeps_intros more_keeps; simp)+

lemma keeps_StakeEndBlocker [more_keeps]: "keeps kept (StakeEndBlocker E C H)"
  unfolding StakeEndBlocker_def Let_def by (intro keeps_intros more_keeps)

lemma keeps_StakeHandler [more_keeps]: "keeps kept (StakeHandler E C H msg)"
  unfolding StakeHandler_def handleMsgCreateValidator_def handleMsgEditValidator_def edit_commission_def handleMsgDelegate_def
    handleMsgBeginUnbonding_def handleMsgBeginRedelegate_def
  by (cases msg) (simp only: stake_msg.case, intro keeps_intros more_keeps)+

end

end
