(* ===== verification/Distr_Frame.thy ===== *)
theory Distr_Frame
  imports Distr_Ledger Stake_Frame
begin

text \<open>
  Distribution touches no store of the modules that extend its state, and does nothing to the
  collected fees but clear them: every operation of distribution, and with them its hooks, keeps
  what is said of the rest of the state.
\<close>

named_theorems reward_keeps \<open>operations of distribution that keep the rest of the state\<close>

locale rewards_keep =
  fixes kept :: "'z dist_state_scheme \<Rightarrow> bool"
  assumes rest: "dist_state.more t = dist_state.more s \<Longrightarrow> collectedFees t = collectedFees s \<or> collectedFees t = [] \<Longrightarrow>
    kept s \<Longrightarrow> kept t"
begin

lemma keeps_modify_dist [reward_keeps]:
  "(\<And>s. dist_state.more (f s) = dist_state.more s \<and> (collectedFees (f s) = collectedFees s \<or> collectedFees (f s) = [])) \<Longrightarrow>
   keeps kept (modify f)"
  by (rule keepsI) (auto intro: rest)

lemma keeps_dist_bank [reward_keeps]:
  "keeps kept (setCoins a cs)" "keeps kept (DecreaseTotalLoosenToken cs)" "keeps kept (IncreaseTotalLoosenToken cs)"
  "keeps kept (burn_coin c)"
  unfolding setCoins_def NewAccountWithAddress_def GetNextAccountNumber_def SetAccount_def DecreaseTotalLoosenToken_def
    IncreaseTotalLoosenToken_def burn_coin_def DecreaseTotalSupply_def SetTotalSupply_def
  by (intro keeps_intros reward_keeps; simp)+

lemma keeps_dist_coins [reward_keeps]: "keeps kept (subtractCoins a cs)" "keeps kept (addCoins E a cs)"
  unfolding subtractCoins_def addCoins_def by (intro keeps_intros reward_keeps)+

lemma keeps_dist_payments [reward_keeps]:
  "keeps kept ClearCollectedFees" "keeps kept (BurnCoins E a cs)" "keeps kept (sendCoins E a b cs)"
  unfolding ClearCollectedFees_def BurnCoins_def sendCoins_def by (intro keeps_intros reward_keeps; simp)+

lemma keeps_dist_records [reward_keeps]:
  "keeps kept GetFeePool" "keeps kept (SetFeePool p)" "keeps kept (GetValidatorDistInfo a)" "keeps kept (SetValidatorDistInfo vdi)"
  "keeps kept (RemoveValidatorDistInfo a)" "keeps kept (GetDelegationDistInfo x a)" "keeps kept (SetDelegationDistInfo ddi)"
  "keeps kept (RemoveDelegationDistInfo x a)" "keeps kept (SetDelegatorWithdrawAddr x y)"
  "keeps kept GetPreviousProposerConsAddr" "keeps kept (SetPreviousProposerConsAddr c)"
  unfolding GetFeePool_def SetFeePool_def GetValidatorDistInfo_def SetValidatorDistInfo_def RemoveValidatorDistInfo_def
    GetDelegationDistInfo_def SetDelegationDistInfo_def RemoveDelegationDistInfo_def SetDelegatorWithdrawAddr_def
    GetPreviousProposerConsAddr_def SetPreviousProposerConsAddr_def
  by (intro keeps_intros reward_keeps; simp)+

lemma keeps_withdraw [reward_keeps]:
  "keeps kept (GetWithdrawContext C a)" "keeps kept (withdrawDelegationReward C x a)" "keeps kept (WithdrawToDelegator E fp x amt)"
  "keeps kept (WithdrawDelegationReward E C x a)" "keeps kept (withdraw_one C x a)"
  unfolding GetWithdrawContext_def withdrawDelegationReward_def WithdrawToDelegator_def WithdrawDelegationReward_def withdraw_one_def
  by (intro keeps_intros reward_keeps)+

lemma keeps_withdraw_each [reward_keeps]: "keeps kept (withdraw_each C x ds acc)"
  by (induction ds arbitrary: acc) (simp_all only: withdraw_each.simps, (intro keeps_intros reward_keeps; assumption)+)

lemma keeps_withdraw_all [reward_keeps]:
  "keeps kept (withdrawDelegationRewardsAll C x)" "keeps kept (WithdrawDelegationRewardsAll E C x)"
  "keeps kept (withdraw_and_pay E C x a)" "keeps kept (takeValidatorFeePoolRewards E C a)" "keeps kept (withdrawValidatorCommission C a)"
  "keeps kept (WithdrawValidatorRewardsAll E C a)"
  unfolding withdrawDelegationRewardsAll_def WithdrawDelegationRewardsAll_def withdraw_and_pay_def takeValidatorFeePoolRewards_def
    skip_empty_validator_def take_commission_def
    withdrawValidatorCommission_def WithdrawValidatorRewardsAll_def
  by (intro keeps_intros reward_keeps)+

lemma keeps_dist_hooks [reward_keeps]:
  "keeps kept (dist_onValidatorCreated C a)" "keeps kept (dist_onValidatorModified E C a)" "keeps kept (dist_onValidatorBonded E C a)"
  "keeps kept (dist_onValidatorPowerDidChange C a)" "keeps kept (dist_onDelegationCreated C x a)"
  "keeps kept (dist_onDelegationSharesModified E C x a)" "keeps kept (dist_onDelegationRemoved E C x a)"
  unfolding dist_onValidatorCreated_def dist_onValidatorModified_def dist_onValidatorBonded_def dist_onValidatorPowerDidChange_def
    dist_onDelegationCreated_def dist_onDelegationSharesModified_def dist_onDelegationRemoved_def
  by (intro keeps_intros reward_keeps)+

lemma keeps_allocation [reward_keeps]:
  "keeps kept (reward_proposer v vdi fees p)" "keeps kept (fund_community E fees)"
  "keeps kept (AllocateTokens E p c)" "keeps kept (AllocateFeeTax E dest pc b)"
  unfolding reward_proposer_def fund_community_def AllocateTokens_def AllocateFeeTax_def by (intro keeps_intros reward_keeps; simp)+

lemma keeps_DistrBeginBlocker [reward_keeps]: "keeps kept (DistrBeginBlocker E C votes c)"
  unfolding DistrBeginBlocker_def by (intro keeps_intros reward_keeps)

lemma keeps_DistrHandler [reward_keeps]: "keeps kept (DistrHandler E C msg)"
  unfolding handleMsgModifyWithdrawAddress_def handleMsgWithdrawDelegatorRewardsAll_def handleMsgWithdrawDelegatorReward_def
    handleMsgWithdrawValidatorRewardsAll_def
  by (cases msg) (simp_all only: DistrHandler.simps handleMsgModifyWithdrawAddress_def handleMsgWithdrawDelegatorRewardsAll_def
      handleMsgWithdrawDelegatorReward_def handleMsgWithdrawValidatorRewardsAll_def, (intro keeps_intros reward_keeps)+)

lemma distr_hooks_kept: "hook_call (Some (distr_hooks E C)) s t \<Longrightarrow> kept s \<Longrightarrow> kept t"
proof -
  assume h: "hook_call (Some (distr_hooks E C)) s t" and s: "kept s"
  have "\<exists>m. keeps kept m \<and> m s = Ok () t"
    using h unfolding hook_call_def hook_defs distr_hooks_def option.case StakingHooks.simps call_hook_run
    by (elim disjE exE) (rule exI, erule conjI [rotated], intro keeps_intros reward_keeps)+
  then show "kept t"
    using s by (elim exE conjE) (rule keeps_Ok)
qed

lemma distr_step_kept: "distr_step E s t \<Longrightarrow> kept s \<Longrightarrow> kept t"
proof (induction rule: distr_step.induct)
  case (hook C s t)
  then have "hook_call (Some (distr_hooks E C)) s t"
    unfolding reward_hook_def Let_def by (elim disjE exE) (erule hook_callI)+
  then show ?case
    using hook(2) by (rule distr_hooks_kept)
qed (auto dest: keeps_Ok [OF keeps_DistrHandler] keeps_Ok [OF keeps_DistrBeginBlocker] keeps_Ok [OF keeps_allocation(4)])

end

end
