(* ===== verification/Slashing_Ledger.thy ===== *)
theory Slashing_Ledger
  imports Slashing Distr_Frame
begin

text \<open>
  The hooks of the protocol, those of distribution followed by those of slashing, keep the contract of
  staking hooks; so the books of staking balance in every run of the chain. The counter of missed
  blocks is the number of missed blocks in the window, and the slashes of one period add up to the
  worst infraction.
\<close>

section \<open>The combined hooks\<close>

lemma call_both: "call_hook (both h1 h2) s = Ok u t \<longleftrightarrow> (\<exists>v. call_hook h1 s = Ok () v \<and> call_hook h2 v = Ok () t)"
  by (auto simp: call_hook_def both_def split: option.splits)

lemma On_both:
  "OnValidatorCreated (Some (NewHooks dh sh)) a s = Ok u t \<Longrightarrow> \<exists>v. OnValidatorCreated (Some dh) a s = Ok () v \<and> OnValidatorCreated (Some sh) a v = Ok () t"
  "OnValidatorModified (Some (NewHooks dh sh)) a s = Ok u t \<Longrightarrow> \<exists>v. OnValidatorModified (Some dh) a s = Ok () v \<and> OnValidatorModified (Some sh) a v = Ok () t"
  "OnValidatorRemoved (Some (NewHooks dh sh)) c a s = Ok u t \<Longrightarrow> \<exists>v. OnValidatorRemoved (Some dh) c a s = Ok () v \<and> OnValidatorRemoved (Some sh) c a v = Ok () t"
  "OnValidatorBonded (Some (NewHooks dh sh)) c a s = Ok u t \<Longrightarrow> \<exists>v. OnValidatorBonded (Some dh) c a s = Ok () v \<and> OnValidatorBonded (Some sh) c a v = Ok () t"
  "OnValidatorPowerDidChange (Some (NewHooks dh sh)) c a s = Ok u t \<Longrightarrow> \<exists>v. OnValidatorPowerDidChange (Some dh) c a s = Ok () v \<and> OnValidatorPowerDidChange (Some sh) c a v = Ok () t"
  "OnValidatorBeginUnbonding (Some (NewHooks dh sh)) c a s = Ok u t \<Longrightarrow> \<exists>v. OnValidatorBeginUnbonding (Some dh) c a s = Ok () v \<and> OnValidatorBeginUnbonding (Some sh) c a v = Ok () t"
  "OnDelegationCreated (Some (NewHooks dh sh)) x a s = Ok u t \<Longrightarrow> \<exists>v. OnDelegationCreated (Some dh) x a s = Ok () v \<and> OnDelegationCreated (Some sh) x a v = Ok () t"
  "OnDelegationSharesModified (Some (NewHooks dh sh)) x a s = Ok u t \<Longrightarrow> \<exists>v. OnDelegationSharesModified (Some dh) x a s = Ok () v \<and> OnDelegationSharesModified (Some sh) x a v = Ok () t"
  "OnDelegationRemoved (Some (NewHooks dh sh)) x a s = Ok u t \<Longrightarrow> \<exists>v. OnDelegationRemoved (Some dh) x a s = Ok () v \<and> OnDelegationRemoved (Some sh) x a v = Ok () t"
  by (simp_all add: hook_defs NewHooks_def call_both)

lemma hook_call_both:
  "hook_call (Some (NewHooks dh sh)) s t \<Longrightarrow> \<exists>v. hook_call (Some dh) s v \<and> hook_call (Some sh) v t"
  unfolding hook_call_def [of "Some (NewHooks dh sh)"] by (elim disjE exE; drule On_both; blast intro: hook_callI)

lemma call_Some [simp]: "call_hook Some s = Ok u t \<longleftrightarrow> t = s"
  by (auto simp: call_hook_def)

text \<open>The slashing hooks touch the stores of the slashing module only.\<close>

definition slash_frame :: "'z slash_state_scheme \<Rightarrow> 'z slash_state_scheme \<Rightarrow> bool" where
  "slash_frame s t \<longleftrightarrow> accounts t = accounts s \<and> collectedFees t = collectedFees s \<and> stake_stores t = stake_stores s"

lemma slash_frame_refl [simp]: "slash_frame s s"
  by (simp add: slash_frame_def)

lemma slash_frame_ops:
  "SetValidatorSigningInfo a info s = Ok u t \<Longrightarrow> slash_frame s t" "SetValidatorSlashingPeriod p s = Ok u t \<Longrightarrow> slash_frame s t"
  "addPubkey E k s = Ok u t \<Longrightarrow> slash_frame s t" "deleteAddrPubkeyRelation a s = Ok u t \<Longrightarrow> slash_frame s t"
  by (auto simp: SetValidatorSigningInfo_def SetValidatorSlashingPeriod_def addPubkey_def deleteAddrPubkeyRelation_def slash_frame_def
      stake_stores_def)

lemma slash_frame_trans: "slash_frame s t \<Longrightarrow> slash_frame t u \<Longrightarrow> slash_frame s u"
  by (simp add: slash_frame_def)

lemma period_read: "getValidatorSlashingPeriodForHeight a h s = Ok p t \<Longrightarrow> t = s"
  by (auto simp: getValidatorSlashingPeriodForHeight_def split: list.splits)

lemma slash_hook_frames:
  "slash_onValidatorCreated E a s = Ok u t \<Longrightarrow> slash_frame s t"
  "slash_onValidatorBeginUnbonding C c s = Ok u t \<Longrightarrow> slash_frame s t"
  "slash_onValidatorBonded C c s = Ok u t \<Longrightarrow> slash_frame s t"
  by (auto simp: slash_onValidatorCreated_def slash_onValidatorBeginUnbonding_def slash_onValidatorBonded_def
      dest!: period_read slash_frame_ops intro: slash_frame_trans split: if_splits)

lemma slashing_hooks_frame: "hook_call (Some (slashing_hooks E C)) s t \<Longrightarrow> slash_frame s t"
  unfolding hook_call_def hook_defs slashing_hooks_def
  by (elim disjE exE) (auto dest: slash_hook_frames slash_frame_ops)

lemma protocol_hooks_law:
  assumes "hook_call (protocol_hooks E C) s t" "accounts_ok s"
  shows "accounts_ok t \<and> stake_stores t = stake_stores s"
proof -
  obtain v where "hook_call (Some (distr_hooks E C)) s v" "hook_call (Some (slashing_hooks E C)) v t"
    using hook_call_both [OF assms(1) [unfolded protocol_hooks_def]] by (elim exE conjE)
  then show ?thesis
    using distr_hooks_law [OF _ assms(2)] slashing_hooks_frame by (fastforce simp: slash_frame_def accounts_ok_def)
qed

text \<open>The loose tokens may drift: removing a validator drops what its reward pool still holds.\<close>

interpretation protocol: staking_hooks E "protocol_hooks E C" R0 UNIV for E C R0
  by unfold_locales (auto dest: protocol_hooks_law)

interpretation protocol_chain: staking_chain E "protocol_hooks E" R0 UNIV for E R0
  by unfold_locales

section \<open>The counter of missed blocks\<close>

definition missed_count :: "ConsAddress \<Rightarrow> 'z slash_state_scheme \<Rightarrow> int" where
  "missed_count a s = int (fcard (ffilter (\<lambda>k. fst k = a \<and> fmlookup (missedBlocks s) k = Some True) (fmdom (missedBlocks s))))"

definition missed_counter :: "ConsAddress \<Rightarrow> 'z slash_state_scheme \<Rightarrow> int" where
  "missed_counter a s = (case getValidatorSigningInfo a s of None \<Rightarrow> 0 | Some info \<Rightarrow> si_MissedBlocksCounter info)"

text \<open>Every validator's counter is the number of its missed blocks; \<open>f\<close> overrides the stored
  counter of the validator whose record is being updated.\<close>

definition counts :: "(ConsAddress \<Rightarrow> int option) \<Rightarrow> 'z slash_state_scheme \<Rightarrow> bool" where
  "counts f s \<longleftrightarrow> (\<forall>a. missed_count a s = (case f a of Some n \<Rightarrow> n | None \<Rightarrow> missed_counter a s))"

lemma missed_count_card: "missed_count a s = int (card {i. fmlookup (missedBlocks s) (a, i) = Some True})"
proof -
  have "fset (ffilter (\<lambda>k. fst k = a \<and> fmlookup (missedBlocks s) k = Some True) (fmdom (missedBlocks s))) =
      Pair a ` {i. fmlookup (missedBlocks s) (a, i) = Some True}"
    by (auto simp: fmlookup_dom_iff image_iff)
  then show ?thesis
    by (simp add: missed_count_def fcard.rep_eq card_image inj_on_def)
qed

lemma finite_missed: "finite {i. fmlookup m (a, i) = Some True}"
  by (rule finite_subset [of _ "snd ` fset (fmdom m)"]) (force intro: fmdomI)+

lemma missed_count_infos [simp]: "missed_count a (s\<lparr>signingInfos := m\<rparr>) = missed_count a s"
  by (simp add: missed_count_def)

lemma missed_counter_frame: "signingInfos t = signingInfos s \<Longrightarrow> missed_counter a t = missed_counter a s"
  by (simp add: missed_counter_def getValidatorSigningInfo_def)

lemma missed_count_frame: "missedBlocks t = missedBlocks s \<Longrightarrow> missed_count a t = missed_count a s"
  by (simp add: missed_count_def)

lemma counts_frame:
  "missedBlocks t = missedBlocks s \<Longrightarrow> signingInfos t = signingInfos s \<Longrightarrow> counts f s \<Longrightarrow> counts f t"
  using missed_counter_frame [of t s] missed_count_frame [of t s] by (simp add: counts_def cong: option.case_cong)

text \<open>Setting a bit that was clear, and clearing a bit that was set.\<close>

lemma missed_count_set:
  assumes "\<not> getValidatorMissedBlockBitArray a i s"
  shows "missed_count b (s\<lparr>missedBlocks := fmupd (a, i) True (missedBlocks s)\<rparr>) = missed_count b s + (if b = a then 1 else 0)"
proof -
  have "{j. fmlookup (fmupd (a, i) True (missedBlocks s)) (b, j) = Some True} =
      (if b = a then insert i {j. fmlookup (missedBlocks s) (b, j) = Some True} else {j. fmlookup (missedBlocks s) (b, j) = Some True})"
    by auto
  moreover have "i \<notin> {j. fmlookup (missedBlocks s) (a, j) = Some True}"
    using assms by (auto simp: getValidatorMissedBlockBitArray_def)
  ultimately show ?thesis
    by (simp add: missed_count_card finite_missed)
qed

lemma missed_count_unset:
  assumes "getValidatorMissedBlockBitArray a i s"
  shows "missed_count b (s\<lparr>missedBlocks := fmupd (a, i) False (missedBlocks s)\<rparr>) = missed_count b s - (if b = a then 1 else 0)"
proof -
  let ?A = "{j. fmlookup (missedBlocks s) (b, j) = Some True}"
  have "{j. fmlookup (fmupd (a, i) False (missedBlocks s)) (b, j) = Some True} = ?A - (if b = a then {i} else {})"
    by auto
  moreover have "card ?A = Suc (card (?A - {i}))" if "b = a"
    using assms that by (subst card.remove [of _ i])
      (auto simp: finite_missed getValidatorMissedBlockBitArray_def split: option.splits)
  ultimately show ?thesis
    by (cases "b = a") (simp_all add: missed_count_card)
qed

lemma missed_count_clear:
  "missed_count b (s\<lparr>missedBlocks := fmfilter (\<lambda>(c, _). c \<noteq> a) (missedBlocks s)\<rparr>) = (if b = a then 0 else missed_count b s)"
  by (simp add: missed_count_card)

lemma missed_counter_set [simp]:
  "missed_counter b (s\<lparr>signingInfos := fmupd a info (signingInfos s)\<rparr>) = (if b = a then si_MissedBlocksCounter info else missed_counter b s)"
  "missed_counter b (s\<lparr>missedBlocks := m\<rparr>) = missed_counter b s"
  by (auto simp: missed_counter_def getValidatorSigningInfo_def)

text \<open>The operations of the module, and through the hooks those of staking and distribution.\<close>

lemma counts_finish:
  "SetValidatorSigningInfo a info s = Ok u t \<Longrightarrow> counts [a \<mapsto> si_MissedBlocksCounter info] s \<Longrightarrow> counts Map.empty t"
  by (auto simp: SetValidatorSigningInfo_def counts_def)

lemma counts_records [maintains_intros]:
  "maintains (counts f) (SetValidatorSlashingPeriod p)" "maintains (counts f) (addPubkey E k)"
  "maintains (counts f) (deleteAddrPubkeyRelation c)" "maintains (counts f) (getPubkey c)"
  "maintains (counts f) (getValidatorSlashingPeriodForHeight c h)"
  by (auto simp: maintains_def SetValidatorSlashingPeriod_def addPubkey_def deleteAddrPubkeyRelation_def getPubkey_def
      intro: counts_frame [rotated 2] dest: period_read)

lemma counts_same_counter:
  "counts f s \<Longrightarrow> missed_counter c s = si_MissedBlocksCounter info \<Longrightarrow> counts f (s\<lparr>signingInfos := fmupd c info (signingInfos s)\<rparr>)"
  by (simp add: counts_def split: option.splits)

lemma counts_jail_until [maintains_intros]: "maintains (counts f) (jail_until c t)"
  by (auto simp: maintains_def jail_until_def SetValidatorSigningInfo_def missed_counter_def intro: counts_same_counter)

lemma counts_bonded [maintains_intros]: "maintains (counts f) (slash_onValidatorBonded C c)"
proof (rule maintainsI)
  fix s u t assume s: "counts f s" and "slash_onValidatorBonded C c s = Ok u t"
  then obtain v p where "SetValidatorSlashingPeriod p v = Ok u t" "counts f v"
    using counts_same_counter [OF s, of c "\<lparr>si_StartHeight = ctx_Height C, si_IndexOffset = 0, si_JailedUntil = 0, si_MissedBlocksCounter = 0\<rparr>"]
    by (cases "getValidatorSigningInfo c s") (simp_all add: slash_onValidatorBonded_def SetValidatorSigningInfo_def missed_counter_def)
  then show "counts f t"
    by (rule maintainsD [OF counts_records(1)])
qed

lemma counts_slash_hooks: "hook_call (Some (slashing_hooks E C)) s t \<Longrightarrow> counts f s \<Longrightarrow> counts f t"
proof -
  assume h: "hook_call (Some (slashing_hooks E C)) s t" and s: "counts f s"
  have created: "maintains (counts f) (slash_onValidatorCreated E a)" "maintains (counts f) (slash_onValidatorBeginUnbonding C c)" for a c
    unfolding slash_onValidatorCreated_def slash_onValidatorBeginUnbonding_def by (intro maintains_intros)+
  show "counts f t"
    using h s unfolding hook_call_def hook_defs slashing_hooks_def
    by (elim disjE exE) (auto dest: maintainsD [OF created(1)] maintainsD [OF created(2)] maintainsD [OF counts_bonded] maintainsD [OF counts_records(3)])
qed

lemma slash_rest:
  assumes "dist_state.more t = dist_state.more s"
  shows "missedBlocks t = missedBlocks s" "signingInfos t = signingInfos s"
  using assms by (cases s; cases t; simp)+

interpretation slash_rewards: rewards_keep "counts f" for f :: "ConsAddress \<Rightarrow> int option"
  by unfold_locales (rule counts_frame [OF slash_rest])

interpretation slash_hooks_keep: hooks_keep "protocol_hooks E C" "counts f" for E C and f :: "ConsAddress \<Rightarrow> int option"
proof
  fix s t :: "'z slash_state_scheme"
  assume "hook_call (protocol_hooks E C) s t" and s: "counts f s"
  then obtain v where "hook_call (Some (distr_hooks E C)) s v" "hook_call (Some (slashing_hooks E C)) v t"
    using hook_call_both by (metis protocol_hooks_def)
  then show "counts f t"
    using s by (blast intro: slash_rewards.distr_hooks_kept counts_slash_hooks)
next
  fix s t :: "'z slash_state_scheme"
  assume "stake_state.more t = stake_state.more s" and s: "counts f s"
  then have "dist_state.more t = dist_state.more s"
    by (cases s; cases t) simp
  from counts_frame [OF slash_rest [OF this] s] show "counts f t" .
qed

lemmas counts_stake [maintains_intros] =
  slash_hooks_keep.keeps_slash(2) [THEN maintains_keeps] slash_hooks_keep.keeps_jail [THEN maintains_keeps]

lemma counts_cap [maintains_intros]: "maintains (counts f) (capBySlashingPeriod c fr h)"
  unfolding capBySlashingPeriod_def by (intro maintains_intros)

lemma counts_infractions [maintains_intros]:
  "maintains (counts f) (handleDoubleSign E C (protocol_hooks E C) c h p)"
  "maintains (counts f) (handleProposerCensorship E C (protocol_hooks E C) c h)"
  "maintains (counts f) (handleMsgUnjail E C a)"
  unfolding handleDoubleSign_def handleProposerCensorship_def handleMsgUnjail_def by (intro maintains_intros)+

lemma count_signature_counts:
  assumes "count_signature a i missed info s = Ok info' t" "counts Map.empty s" "missed_counter a s = si_MissedBlocksCounter info"
  shows "counts [a \<mapsto> si_MissedBlocksCounter info'] t"
  using assms by (auto simp: count_signature_def setValidatorMissedBlockBitArray_def counts_def missed_count_set missed_count_unset
      split: if_splits)

lemma punish_downtime_counts:
  assumes "punish_downtime E C (protocol_hooks E C) a p info s = Ok info' t" "counts [a \<mapsto> si_MissedBlocksCounter info] s"
  shows "counts [a \<mapsto> si_MissedBlocksCounter info'] t"
proof -
  let ?I = "counts [a \<mapsto> si_MissedBlocksCounter info]"
  consider "info' = info" "t = s"
    | f u v where "Slash E C (protocol_hooks E C) a (ctx_Height C - ValidatorUpdateDelay - 1) p f s = Ok () u" "Jail a u = Ok () v"
      "t = v\<lparr>missedBlocks := fmfilter (\<lambda>(c, _). c \<noteq> a) (missedBlocks v)\<rparr>" "si_MissedBlocksCounter info' = 0"
    using assms(1) by (auto simp: punish_downtime_def clearValidatorMissedBlockBitArray_def split: option.splits if_splits)
  then show ?thesis
  proof cases
    case (2 f u v)
    have "?I u"
      using maintainsD [OF counts_stake(1) 2(1) assms(2)] .
    then have "?I v"
      by (rule maintainsD [OF counts_stake(2) 2(2)])
    then show ?thesis
      by (simp add: counts_def 2(3,4) missed_count_clear split: if_splits)
  qed (use assms(2) in simp)
qed

text \<open>While a signature is handled, the record in hand agrees with the bits.\<close>

lemma runs_count_signature:
  "si_MissedBlocksCounter info0 = si_MissedBlocksCounter info \<Longrightarrow>
   runs (\<lambda>s. counts Map.empty s \<and> missed_counter a s = si_MissedBlocksCounter info0) (count_signature a i missed info)
     (\<lambda>info'. counts [a \<mapsto> si_MissedBlocksCounter info'])"
  by (rule runsI) (auto intro: count_signature_counts)

lemma runs_punish_downtime:
  "runs (counts [a \<mapsto> si_MissedBlocksCounter info]) (punish_downtime E C (protocol_hooks E C) a p info)
     (\<lambda>info'. counts [a \<mapsto> si_MissedBlocksCounter info'])"
  by (rule runsI) (blast intro: punish_downtime_counts)

lemma runs_finish:
  "runs (counts [a \<mapsto> si_MissedBlocksCounter info]) (SetValidatorSigningInfo a info) (\<lambda>_. counts Map.empty)"
  by (rule runsI) (blast intro: counts_finish)

lemma runs_own_info:
  "runs (counts Map.empty) (bind_op (gets (getValidatorSigningInfo a)) lift_go)
     (\<lambda>info s. counts Map.empty s \<and> missed_counter a s = si_MissedBlocksCounter info)"
  by (auto simp: runs_def missed_counter_def)

lemma runs_pubkey: "runs P (getPubkey c) (\<lambda>_. P)"
  by (auto simp: runs_def getPubkey_def)

lemma runs_handleValidatorSignature:
  "runs (counts Map.empty) (handleValidatorSignature E C (protocol_hooks E C) a p sg) (\<lambda>_. counts Map.empty)"
  unfolding handleValidatorSignature_def Let_def
proof (rule runs_bind [OF runs_pubkey], rule runs_bind [OF runs_own_info], rule runs_bind [OF runs_same(1)], rule runs_if)
  fix info :: ValidatorSigningInfo and params :: SlashParams
  have tail: "runs (counts [a \<mapsto> si_MissedBlocksCounter info1]) (bind_op (lift_go (MinSigned params)) (\<lambda>minSigned.
      bind_op (if b minSigned then punish_downtime E C (protocol_hooks E C) a p info1 else ret info1) (SetValidatorSigningInfo a)))
      (\<lambda>_. counts Map.empty)" for info1 b
    by (rule runs_bind [OF runs_same(2)], rule runs_bind [OF runs_if]) (rule runs_punish_downtime, rule runs_ret, assumption, rule runs_finish)
  show "runs (\<lambda>s. counts Map.empty s \<and> missed_counter a s = si_MissedBlocksCounter info)
      (bind_op (count_signature a (si_IndexOffset info smod SignedBlocksWindow params) (\<not> sg) (info\<lparr>si_IndexOffset := si_IndexOffset info + 1\<rparr>))
        (\<lambda>info1. bind_op (lift_go (MinSigned params)) (\<lambda>minSigned.
           bind_op (if si_StartHeight info1 + SignedBlocksWindow params < ctx_Height C \<and>
               SignedBlocksWindow params - minSigned < si_MissedBlocksCounter info1
             then punish_downtime E C (protocol_hooks E C) a p info1 else ret info1) (SetValidatorSigningInfo a))))
      (\<lambda>_. counts Map.empty)"
    by (rule runs_bind [OF runs_count_signature tail]) simp
qed (rule runs_same(3))

lemma handleValidatorSignature_counts [maintains_intros]:
  "maintains (counts Map.empty) (handleValidatorSignature E C (protocol_hooks E C) a p sg)"
  using runs_handleValidatorSignature by (simp add: runs_def maintains_def)

lemma SlashBlockers_counts:
  "maintains (counts Map.empty) (SlashBeginBlocker E C (protocol_hooks E C) votes evs)"
  "maintains (counts Map.empty) (SlashEndBlocker E C (protocol_hooks E C) n m c)"
  unfolding SlashBeginBlocker_def SlashEndBlocker_def by (intro maintains_intros)+

section \<open>Slashing periods\<close>

text \<open>The period that an infraction falls into, and the cap applied to infractions one after the other.\<close>

definition period_of :: "ConsAddress \<Rightarrow> int \<Rightarrow> 'z slash_state_scheme \<Rightarrow> uint64 option" where
  "period_of a h s =
     (case rev (filter (\<lambda>((c, k), _). c = a \<and> k \<le> slashing_period_key h) (sorted_list_of_fmap (slashingPeriods s))) of
        [] \<Rightarrow> None | ((_, k), _) # _ \<Rightarrow> Some k)"

fun cap_all :: "ConsAddress \<Rightarrow> (Dec \<times> int) list \<Rightarrow> ('z slash_state_scheme, Dec list) op" where
  "cap_all a [] = ret []"
| "cap_all a ((f, h) # xs) = bind_op (capBySlashingPeriod a f h) (\<lambda>r. bind_op (cap_all a xs) (\<lambda>rs. ret (r # rs)))"

lemma period_key_inverse: "slashing_period_key (sint (k - of_int ValidatorUpdateDelay)) = k"
  by (simp add: slashing_period_key_def ValidatorUpdateDelay_def)

lemma sorted_keys_upd: "k |\<in>| fmdom m \<Longrightarrow> map fst (sorted_list_of_fmap (fmupd k v m)) = map fst (sorted_list_of_fmap m)"
  by (simp add: sorted_list_of_fmap_def comp_def finsert_absorb)

lemma filter_keys: "map fst (filter (\<lambda>(k, _). P k) xs) = filter P (map fst xs)"
  by (induction xs) auto

lemma period_of_keys:
  "period_of a h s = (case rev (filter (\<lambda>(c, k). c = a \<and> k \<le> slashing_period_key h) (map fst (sorted_list_of_fmap (slashingPeriods s)))) of
     [] \<Rightarrow> None | (_, k) # _ \<Rightarrow> Some k)"
proof -
  let ?xs = "rev (filter (\<lambda>((c, k), _). c = a \<and> k \<le> slashing_period_key h) (sorted_list_of_fmap (slashingPeriods s)))"
  have "rev (filter (\<lambda>(c, k). c = a \<and> k \<le> slashing_period_key h) (map fst (sorted_list_of_fmap (slashingPeriods s)))) = map fst ?xs"
    by (simp add: filter_keys [symmetric] rev_map case_prod_unfold)
  then show ?thesis
    by (cases ?xs) (auto simp: period_of_def)
qed

lemma period_found:
  assumes "getValidatorSlashingPeriodForHeight a h s = Ok p t"
  shows "t = s \<and> (\<exists>k val. period_of a h s = Some k \<and> fmlookup (slashingPeriods s) (a, k) = Some val \<and>
    p = unmarshalSlashingPeriodKeyValue ((a, k), val))"
proof -
  let ?xs = "rev (filter (\<lambda>((c, k), _). c = a \<and> k \<le> slashing_period_key h) (sorted_list_of_fmap (slashingPeriods s)))"
  obtain kv ys where xs: "?xs = kv # ys" "p = unmarshalSlashingPeriodKeyValue kv" "t = s"
    using assms unfolding getValidatorSlashingPeriodForHeight_def by (cases ?xs) simp_all
  then have "kv \<in> set ?xs"
    by simp
  then obtain k val where "kv = ((a, k), val)" "fmlookup (slashingPeriods s) (a, k) = Some val"
    by (auto simp: set_sorted_list_of_fmap)
  then show ?thesis
    using xs unfolding period_of_def by simp
qed

lemma cap_step:
  assumes "capBySlashingPeriod a f h s = Ok r t"
  shows "\<exists>k val. period_of a h s = Some k \<and> fmlookup (slashingPeriods s) (a, k) = Some val \<and>
    r = max (spv_SlashedSoFar val) f - spv_SlashedSoFar val \<and>
    slashingPeriods t = fmupd (a, k) \<lparr>spv_EndHeight = spv_EndHeight val, spv_SlashedSoFar = max (spv_SlashedSoFar val) f\<rparr> (slashingPeriods s)"
proof -
  obtain p u where p: "getValidatorSlashingPeriodForHeight a h s = Ok p u" "r = max (sp_SlashedSoFar p) f - sp_SlashedSoFar p"
    "SetValidatorSlashingPeriod (p\<lparr>sp_SlashedSoFar := max (sp_SlashedSoFar p) f\<rparr>) u = Ok () t"
    using assms by (auto simp: capBySlashingPeriod_def Let_def MaxDec_def Dec_Sub_def max_def split: if_splits)
  obtain k val where k: "period_of a h s = Some k" "fmlookup (slashingPeriods s) (a, k) = Some val"
    "p = unmarshalSlashingPeriodKeyValue ((a, k), val)" and u: "u = s"
    using period_found [OF p(1)] by (elim exE conjE)
  have "sp_SlashedSoFar p = spv_SlashedSoFar val"
    by (simp add: k(3) unmarshalSlashingPeriodKeyValue_def)
  moreover have "t = s\<lparr>slashingPeriods := fmupd (a, k) \<lparr>spv_EndHeight = spv_EndHeight val,
      spv_SlashedSoFar = max (sp_SlashedSoFar p) f\<rparr> (slashingPeriods s)\<rparr>"
    using p(3) by (simp add: u k(3) unmarshalSlashingPeriodKeyValue_def SetValidatorSlashingPeriod_def period_key_inverse)
  ultimately show ?thesis
    using k p(2) by simp
qed

lemma period_of_upd:
  assumes "(a, k) |\<in>| fmdom (slashingPeriods s)" "slashingPeriods t = fmupd (a, k) v (slashingPeriods s)"
  shows "period_of b h t = period_of b h s"
  using assms by (simp add: period_of_keys sorted_keys_upd)

lemma cap_all_sum:
  assumes "cap_all a xs s = Ok rs t" "\<forall>(f, h)\<in>set xs. period_of a h s = Some k" "fmlookup (slashingPeriods s) (a, k) = Some val"
  shows "sum_list rs = foldl max (spv_SlashedSoFar val) (map fst xs) - spv_SlashedSoFar val \<and> (\<forall>r\<in>set rs. 0 \<le> r)"
  using assms
proof (induction xs arbitrary: s val rs)
  case (Cons x xs)
  obtain f h where x: "x = (f, h)" by (cases x)
  obtain r s1 rs' where run: "capBySlashingPeriod a f h s = Ok r s1" "cap_all a xs s1 = Ok rs' t" "rs = r # rs'"
    using Cons.prems(1) x by auto
  let ?v = "\<lparr>spv_EndHeight = spv_EndHeight val, spv_SlashedSoFar = max (spv_SlashedSoFar val) f\<rparr>"
  have s1: "r = max (spv_SlashedSoFar val) f - spv_SlashedSoFar val" "slashingPeriods s1 = fmupd (a, k) ?v (slashingPeriods s)"
    using cap_step [OF run(1)] Cons.prems(2,3) by (simp_all add: x)
  have "(a, k) |\<in>| fmdom (slashingPeriods s)"
    using Cons.prems(3) by (rule fmdomI)
  then have "\<forall>(f, h)\<in>set xs. period_of a h s1 = Some k"
    using Cons.prems(2) period_of_upd [OF _ s1(2)] by auto
  from Cons.IH [OF run(2) this, of ?v] show ?case
    using s1 run(3) x by simp
qed simp

end
