(* ===== verification/Chain.thy ===== *)
theory Chain
  imports Slashing_Ledger Stake_Scenarios
begin

text \<open>
  Staking, distribution and slashing as they run together: the blocks and messages of the three
  modules, with the hooks that protocol version 2 installs. In every run the checks of the staking
  module hold and the counters of missed blocks are exact.
\<close>

section \<open>The books of staking under the slashing module\<close>

lemma books_untouched:
  "books E R0 UNIV n m s \<Longrightarrow> accounts_ok t \<Longrightarrow> stake_stores t = stake_stores s \<Longrightarrow> books E R0 UNIV n m t"
  by (rule books_drift) simp_all

lemma books_slash_frame: "slash_frame s t \<Longrightarrow> books E R0 UNIV n m s \<Longrightarrow> books E R0 UNIV n m t"
  by (rule books_untouched) (auto simp: slash_frame_def books_def accounts_ok_def)

lemma maintains_slash_frame: "(\<And>s u t. op s = Ok u t \<Longrightarrow> slash_frame s t) \<Longrightarrow> maintains (books E R0 UNIV n m) op"
  by (rule maintainsI) (blast intro: books_slash_frame)

lemma slash_record_frames:
  "SetValidatorSlashingPeriod p s = Ok u t \<Longrightarrow> slash_frame s t" "SetValidatorSigningInfo a info s = Ok u t \<Longrightarrow> slash_frame s t"
  "getPubkey c s = Ok k t \<Longrightarrow> slash_frame s t" "getValidatorSlashingPeriodForHeight c h s = Ok q t \<Longrightarrow> slash_frame s t"
  "setValidatorMissedBlockBitArray a i b s = Ok u t \<Longrightarrow> slash_frame s t" "clearValidatorMissedBlockBitArray a s = Ok u t \<Longrightarrow> slash_frame s t"
  by (auto simp: SetValidatorSlashingPeriod_def SetValidatorSigningInfo_def getPubkey_def setValidatorMissedBlockBitArray_def
      clearValidatorMissedBlockBitArray_def slash_frame_def stake_stores_def dest: period_read)

lemma books_records [maintains_intros]:
  "maintains (books E R0 UNIV n m) (SetValidatorSlashingPeriod p)" "maintains (books E R0 UNIV n m) (SetValidatorSigningInfo a info)"
  "maintains (books E R0 UNIV n m) (getPubkey c)" "maintains (books E R0 UNIV n m) (getValidatorSlashingPeriodForHeight c h)"
  "maintains (books E R0 UNIV n m) (setValidatorMissedBlockBitArray a i b)" "maintains (books E R0 UNIV n m) (clearValidatorMissedBlockBitArray a)"
  by (rule maintains_slash_frame, rule slash_record_frames, assumption)+

lemma books_stake_ops [maintains_intros]:
  "maintains (books E R0 UNIV n (\<lambda>_. 0)) (Slash E C (protocol_hooks E C) c h p f)"
  "maintains (books E R0 UNIV n (\<lambda>_. 0)) (Jail c)" "maintains (books E R0 UNIV n (\<lambda>_. 0)) (Unjail c)"
  by (rule maintainsI, erule protocol.Slash_books protocol.Jail_books protocol.Unjail_books, assumption?)+

lemma books_cap [maintains_intros]: "maintains (books E R0 UNIV n m) (capBySlashingPeriod c fr h)"
  unfolding capBySlashingPeriod_def by (intro maintains_intros)

lemma books_jail_until [maintains_intros]: "maintains (books E R0 UNIV n m) (jail_until c t)"
  unfolding jail_until_def by (intro maintains_intros)

lemma books_downtime [maintains_intros]:
  "maintains (books E R0 UNIV n m) (count_signature c i b info)"
  "maintains (books E R0 UNIV n (\<lambda>_. 0)) (punish_downtime E C (protocol_hooks E C) c p info)"
  unfolding count_signature_def punish_downtime_def by (intro maintains_intros)+

lemma books_infractions [maintains_intros]:
  "maintains (books E R0 UNIV n (\<lambda>_. 0)) (handleValidatorSignature E C (protocol_hooks E C) c p b)"
  "maintains (books E R0 UNIV n (\<lambda>_. 0)) (handleDoubleSign E C (protocol_hooks E C) c h p)"
  "maintains (books E R0 UNIV n (\<lambda>_. 0)) (handleProposerCensorship E C (protocol_hooks E C) c h)"
  unfolding handleValidatorSignature_def handleDoubleSign_def handleProposerCensorship_def by (intro maintains_intros)+

lemma books_blockers:
  "maintains (books E R0 UNIV n (\<lambda>_. 0)) (SlashBeginBlocker E C (protocol_hooks E C) votes evs)"
  "maintains (books E R0 UNIV n (\<lambda>_. 0)) (SlashEndBlocker E C (protocol_hooks E C) valid txs c)"
  "maintains (books E R0 UNIV n (\<lambda>_. 0)) (handleMsgUnjail E C a)"
  unfolding SlashBeginBlocker_def SlashEndBlocker_def handleMsgUnjail_def by (intro maintains_intros)+

section \<open>Collected fees\<close>

definition fees_ok :: "'z auth_state_scheme \<Rightarrow> bool" where
  "fees_ok s \<longleftrightarrow> ranged (collectedFees s)"

interpretation fees_rewards: rewards_keep "fees_ok :: 'z slash_state_scheme \<Rightarrow> bool"
  by unfold_locales (auto simp: fees_ok_def ranged_def)

interpretation fees_hooks: hooks_keep "protocol_hooks E C" "fees_ok :: 'z slash_state_scheme \<Rightarrow> bool" for E C
proof
  fix s t :: "'z slash_state_scheme"
  assume "hook_call (protocol_hooks E C) s t" and s: "fees_ok s"
  then obtain v where v: "hook_call (Some (distr_hooks E C)) s v" "hook_call (Some (slashing_hooks E C)) v t"
    using hook_call_both by (metis protocol_hooks_def)
  have "fees_ok v"
    using v(1) s by (rule fees_rewards.distr_hooks_kept)
  then show "fees_ok t"
    using slashing_hooks_frame [OF v(2)] by (simp add: fees_ok_def slash_frame_def)
qed (simp add: fees_ok_def)

lemma maintains_fees_frame: "(\<And>s u t. op s = Ok u t \<Longrightarrow> slash_frame s t) \<Longrightarrow> maintains fees_ok op"
  by (rule maintainsI) (simp add: fees_ok_def slash_frame_def)

lemma fees_records [maintains_intros]:
  "maintains fees_ok (SetValidatorSlashingPeriod p)" "maintains fees_ok (SetValidatorSigningInfo a info)"
  "maintains fees_ok (getPubkey c)" "maintains fees_ok (getValidatorSlashingPeriodForHeight c h)"
  "maintains fees_ok (setValidatorMissedBlockBitArray a i b)" "maintains fees_ok (clearValidatorMissedBlockBitArray a)"
  by (rule maintains_fees_frame, rule slash_record_frames, assumption)+

lemmas fees_stake [maintains_intros] =
  fees_hooks.keeps_slash(2) [THEN maintains_keeps] fees_hooks.keeps_jail [THEN maintains_keeps]

lemma fees_infractions [maintains_intros]:
  "maintains fees_ok (handleValidatorSignature E C (protocol_hooks E C) c p b)"
  "maintains fees_ok (handleDoubleSign E C (protocol_hooks E C) c h p)"
  "maintains fees_ok (handleProposerCensorship E C (protocol_hooks E C) c h)"
  unfolding handleValidatorSignature_def handleDoubleSign_def handleProposerCensorship_def count_signature_def punish_downtime_def
    capBySlashingPeriod_def jail_until_def
  by (intro maintains_intros)+

lemma fees_blockers:
  "maintains fees_ok (SlashBeginBlocker E C (protocol_hooks E C) votes evs)"
  "maintains fees_ok (SlashEndBlocker E C (protocol_hooks E C) valid txs c)"
  "maintains fees_ok (handleMsgUnjail E C a)"
  unfolding SlashBeginBlocker_def SlashEndBlocker_def handleMsgUnjail_def by (intro maintains_intros)+

section \<open>Runs of the chain\<close>

inductive chain_step :: "'e stake_externals_scheme \<Rightarrow> 'z slash_state_scheme \<Rightarrow> 'z slash_state_scheme \<Rightarrow> bool" for E where
  staking: "stake_step E (protocol_hooks E) s t \<Longrightarrow> chain_step E s t"
| rewards: "distr_step E s t \<Longrightarrow> chain_step E s t"
| signatures: "SlashBeginBlocker E C (protocol_hooks E C) votes evidences s = Ok u t \<Longrightarrow> chain_step E s t"
| censorship: "SlashEndBlocker E C (protocol_hooks E C) validTxs numTxs proposer s = Ok u t \<Longrightarrow> chain_step E s t"
| unjail: "handleMsgUnjail E C validatorAddr s = Ok u t \<Longrightarrow> chain_step E s t"

definition chain_ok :: "'e stake_externals_scheme \<Rightarrow> 'z slash_state_scheme \<Rightarrow> bool" where
  "chain_ok E s \<longleftrightarrow> books E (\<lambda>_. 0) UNIV 0 (\<lambda>_. 0) s \<and> fees_ok s"

lemma stake_step_kept:
  assumes "stake_step E Hs s t" "\<And>C. hooks_keep (Hs C) kept" "kept s"
  shows "kept t"
  using assms(1,3)
proof cases
  case (deliver msg C)
  show ?thesis using keeps_Ok [OF hooks_keep.keeps_StakeHandler [OF assms(2)] assms(3) deliver(3)] .
next
  case (end_block C updates)
  show ?thesis using keeps_Ok [OF hooks_keep.keeps_StakeEndBlocker [OF assms(2)] assms(3) end_block] .
next
  case (slash C consAddr infractionHeight pow slashFactor)
  show ?thesis using keeps_Ok [OF hooks_keep.keeps_slash(2) [OF assms(2)] assms(3) slash] .
next
  case (jail consAddr)
  show ?thesis using keeps_Ok [OF hooks_keep.keeps_jail(1) [OF assms(2)] assms(3) jail] .
next
  case (unjail consAddr)
  show ?thesis using keeps_Ok [OF hooks_keep.keeps_jail(2) [OF assms(2)] assms(3) unjail] .
qed

lemma chain_step_fees: "chain_step E s t \<Longrightarrow> fees_ok s \<Longrightarrow> fees_ok t"
proof (induction rule: chain_step.induct)
  case (staking s t)
  then show ?case by (rule stake_step_kept [OF _ fees_hooks.hooks_keep_axioms])
next
  case (rewards s t)
  then show ?case by (rule fees_rewards.distr_step_kept)
qed (auto dest: maintainsD [OF fees_blockers(1)] maintainsD [OF fees_blockers(2)] maintainsD [OF fees_blockers(3)])

lemma chain_step_counts: "chain_step E s t \<Longrightarrow> counts Map.empty s \<Longrightarrow> counts Map.empty t"
proof (induction rule: chain_step.induct)
  case (staking s t)
  then show ?case by (rule stake_step_kept [OF _ slash_hooks_keep.hooks_keep_axioms])
next
  case (rewards s t)
  then show ?case by (rule slash_rewards.distr_step_kept)
next
  case (unjail C a s u t)
  then show ?case by (rule maintainsD [OF counts_infractions(3)])
qed (auto dest: maintainsD [OF SlashBlockers_counts(1)] maintainsD [OF SlashBlockers_counts(2)])

lemma chain_step_ok: "chain_step E s t \<Longrightarrow> chain_ok E s \<Longrightarrow> chain_ok E t"
proof -
  assume step: "chain_step E s t" and ok: "chain_ok E s"
  have b: "books E (\<lambda>_. 0) UNIV 0 (\<lambda>_. 0) s" and f: "fees_ok s"
    using ok by (simp_all add: chain_ok_def)
  from step b f have "books E (\<lambda>_. 0) UNIV 0 (\<lambda>_. 0) t"
  proof (induction rule: chain_step.induct)
    case (staking s t)
    then show ?case by (blast intro: protocol_chain.step_books)
  next
    case (rewards s t)
    then have "moves s (\<lambda>_. 0) t"
      by (intro distr_step_moves) (auto simp: books_def fees_ok_def)
    then show ?case
      using rewards(2) by (auto simp: moves_def intro: books_untouched)
  qed (auto dest: maintainsD [OF books_blockers(1)] maintainsD [OF books_blockers(2)] maintainsD [OF books_blockers(3)])
  then show "chain_ok E t"
    using chain_step_fees [OF step f] by (simp add: chain_ok_def)
qed

lemma chain_run_ok: "(chain_step E)\<^sup>*\<^sup>* s t \<Longrightarrow> chain_ok E s \<Longrightarrow> chain_ok E t"
  by (induction rule: rtranclp_induct) (auto intro: chain_step_ok)

lemma chain_run_counts: "(chain_step E)\<^sup>*\<^sup>* s t \<Longrightarrow> counts Map.empty s \<Longrightarrow> counts Map.empty t"
  by (induction rule: rtranclp_induct) (auto intro: chain_step_counts)

section \<open>A block of the chain\<close>

definition demo_chain :: slash_state where
  "demo_chain =
     \<lparr>accounts = fmap_of_list [(''a'', demo_account ''a'' [demo_iris (10 ^ 20)])],
      globalAccountNumber = Some 1, totalLoosenToken = [demo_iris (10 ^ 20)], totalSupply = fmempty,
      burnedToken = None, collectedFees = [], feeAuth = None, authParams = DefaultAuthParams,
      stakePool = Some 0, lastTotalPower = None, lastValidatorPowers = fmempty, validators = fmempty,
      validatorsByConsAddr = fmempty, validatorsByPower = fmempty, delegations = fmempty, unbondings = fmempty,
      unbondingsByVal = {||}, redelegations = fmempty, redelegationsBySrc = {||}, redelegationsByDst = {||},
      unbondingQueue = fmempty, redelegationQueue = fmempty, validatorQueue = fmempty, stakeParams = DefaultStakeParams,
      feePool = Some InitialFeePool, valDistInfos = fmempty, delDistInfos = fmempty, withdrawAddrs = fmempty,
      previousProposer = None, distrParams = DefaultDistrParams,
      signingInfos = fmempty, missedBlocks = fmempty, slashingPeriods = fmempty, addrPubkeys = fmempty,
      slashParams = DefaultSlashParams\<rparr>"

text \<open>Validator \<open>a\<close> is created and bonded in block 1 and misses block 2.\<close>

definition demo_blocks :: "(slash_state, unit) op" where
  "demo_blocks =
     bind_op (StakeHandler demo_SE (demo_block 1) (protocol_hooks demo_SE (demo_block 1)) (demo_create ''a'' (10 ^ 19))) (\<lambda>_.
     bind_op (StakeEndBlocker demo_SE (demo_block 1) (protocol_hooks demo_SE (demo_block 1))) (\<lambda>_.
     SlashBeginBlocker demo_SE (demo_block 2) (protocol_hooks demo_SE (demo_block 2))
       [\<lparr>vote_Address = ''@a'', vote_Power = 10, vote_SignedLastBlock = False\<rparr>] []))"

lemma demo_chain_ok: "chain_ok demo_SE demo_chain" "counts Map.empty demo_chain"
proof -
  have "accounts_ok demo_chain"
    by code_simp
  moreover have "balanced (slack demo_SE (\<lambda>_. 0) demo_chain) (\<lambda>_. 0) (core demo_SE (\<lambda>_. 0) demo_chain)"
    by (simp add: balanced_def core_def demo_chain_def val_shares_def del_shares_def ubd_total_def fm_sum_def)
  ultimately show "chain_ok demo_SE demo_chain"
    by (auto simp: chain_ok_def books_def fees_ok_def ranged_def index_ok_def demo_chain_def)
  show "counts Map.empty demo_chain"
    by (simp add: counts_def missed_count_card missed_counter_def getValidatorSigningInfo_def demo_chain_def)
qed

lemma demo_blocks_Ok: "case demo_blocks demo_chain of Ok u t \<Rightarrow> missed_count ''@a'' t = 1 \<and> stakePool t = Some (10 ^ 29) | _ \<Rightarrow> False"
  by code_simp

lemma demo_blocks_run:
  obtains u t where "demo_blocks demo_chain = Ok u t" "(chain_step demo_SE)\<^sup>*\<^sup>* demo_chain t" "missed_count ''@a'' t = 1" "stakePool t = Some (10 ^ 29)"
proof -
  obtain u t where t: "demo_blocks demo_chain = Ok u t" "missed_count ''@a'' t = 1" "stakePool t = Some (10 ^ 29)"
    using demo_blocks_Ok by (auto split: outcome.splits)
  obtain s1 ups s2 where run: "StakeHandler demo_SE (demo_block 1) (protocol_hooks demo_SE (demo_block 1)) (demo_create ''a'' (10 ^ 19)) demo_chain = Ok () s1"
    "StakeEndBlocker demo_SE (demo_block 1) (protocol_hooks demo_SE (demo_block 1)) s1 = Ok ups s2"
    "SlashBeginBlocker demo_SE (demo_block 2) (protocol_hooks demo_SE (demo_block 2))
       [\<lparr>vote_Address = ''@a'', vote_Power = 10, vote_SignedLastBlock = False\<rparr>] [] s2 = Ok u t"
    using t(1) by (auto simp: demo_blocks_def)
  have "stake_ValidateBasic (demo_create ''a'' (10 ^ 19)) = Inr ()" "BurnedCoinsAccAddr demo_SE \<notin> set (stake_GetSigners (demo_create ''a'' (10 ^ 19)))"
    by code_simp+
  then have "stake_step demo_SE (protocol_hooks demo_SE) demo_chain s1"
    using run(1) by (rule stake_step.deliver)
  moreover have "stake_step demo_SE (protocol_hooks demo_SE) s1 s2"
    using run(2) by (rule stake_step.end_block)
  ultimately have "(chain_step demo_SE)\<^sup>*\<^sup>* demo_chain t"
    using chain_step.signatures [OF run(3)] by (meson chain_step.staking converse_rtranclp_into_rtranclp rtranclp.rtrancl_refl)
  then show ?thesis
    using that t by blast
qed

section \<open>Properties\<close>

text \<open>C27: In every run of staking, distribution and slashing with the hooks of the protocol, from a
  state with balanced books, the staking module's own checks on powers and shares hold, and the
  recorded bonded tokens are the sum of the tokens of the bonded validators.\<close>

theorem chain_staking_checks:
  assumes "(chain_step E)\<^sup>*\<^sup>* s t" "chain_ok E s"
  shows "NonNegativePowerInvariant t \<and> DelegatorSharesInvariant t \<and> stakePool t = Some (fm_sum BondedTokens (validators t))"
  using chain_run_ok [OF assms] NonNegativePower_books DelegatorShares_books books_pool unfolding chain_ok_def by blast

theorem chain_staking_checks_witness:
  "case demo_blocks demo_chain of Ok u t \<Rightarrow> NonNegativePowerInvariant t \<and> fm_sum BondedTokens (validators t) = 10 ^ 29 | _ \<Rightarrow> False"
proof (rule demo_blocks_run)
  fix u t assume t: "demo_blocks demo_chain = Ok u t" "(chain_step demo_SE)\<^sup>*\<^sup>* demo_chain t" "stakePool t = Some (10 ^ 29)"
  then show ?thesis
    using chain_staking_checks [OF t(2) demo_chain_ok(1)] by simp
qed

text \<open>C30: In every run of the chain, from a state where this holds, each validator's counter of missed
  blocks is exactly the number of missed blocks recorded in its window, so it is never negative.\<close>

theorem missed_counter_exact:
  assumes "(chain_step E)\<^sup>*\<^sup>* s t" "counts Map.empty s"
  shows "missed_counter a t = missed_count a t \<and> 0 \<le> missed_counter a t"
proof -
  have "missed_count a t = missed_counter a t"
    using chain_run_counts [OF assms] by (simp add: counts_def)
  moreover have "0 \<le> missed_count a t"
    by (simp add: missed_count_def)
  ultimately show ?thesis
    by simp
qed

theorem missed_counter_exact_witness:
  "case demo_blocks demo_chain of Ok u t \<Rightarrow> missed_counter ''@a'' t = 1 | _ \<Rightarrow> False"
proof (rule demo_blocks_run)
  fix u t assume t: "demo_blocks demo_chain = Ok u t" "(chain_step demo_SE)\<^sup>*\<^sup>* demo_chain t" "missed_count ''@a'' t = 1"
  then show ?thesis
    using missed_counter_exact [OF t(2) demo_chain_ok(2), of "''@a''"] by simp
qed


definition demo_period :: slash_state where
  "demo_period = demo_chain\<lparr>slashingPeriods := fmap_of_list [((''@a'', 2), \<lparr>spv_EndHeight = 0, spv_SlashedSoFar = 0\<rparr>)]\<rparr>"



definition demo_double_sign :: "(slash_state, unit) op" where
  "demo_double_sign = handleDoubleSign demo_SE (demo_block 3) (protocol_hooks demo_SE (demo_block 3)) ''@a'' 2 10"

lemma demo_double_sign_Ok:
  "case demo_blocks demo_chain of
     Ok _ s \<Rightarrow>
       (case GetValidatorByConsAddr ''@a'' s of None \<Rightarrow> False | Some v \<Rightarrow> v_Status v = Bonded) \<and> slashParams s = DefaultSlashParams \<and>
       (case demo_double_sign s of
          Ok _ t \<Rightarrow> (case GetValidator ''a'' t of None \<Rightarrow> False | Some v \<Rightarrow> v_ConsPubKey v = PubKeyEd25519 ''a'')
        | _ \<Rightarrow> False)
   | _ \<Rightarrow> False"
  by code_simp



text \<open>Fees of 1000 are collected in block 1; block 2 shares them out and in block 3 the validator
  withdraws.\<close>

definition demo_fees :: "(slash_state, unit) op" where
  "demo_fees = bind_op demo_blocks (\<lambda>_.
     modify (\<lambda>s. s\<lparr>collectedFees := [demo_iris 1000], previousProposer := Some ''@a''\<rparr>))"

definition demo_share_out :: "(slash_state, unit) op" where
  "demo_share_out =
     DistrBeginBlocker demo_SE (demo_block 2) [\<lparr>vote_Address = ''@a'', vote_Power = 10, vote_SignedLastBlock = True\<rparr>] ''@a''"

definition demo_withdraw :: "(slash_state, unit) op" where
  "demo_withdraw = DistrHandler demo_SE (demo_block 3) (MsgWithdrawValidatorRewardsAll (Some ''a''))"

lemma demo_rewards_Ok:
  "case demo_fees demo_chain of
     Ok _ s \<Rightarrow> accounts_ok s \<and> vdis_ok s \<and> collectedFees s = [demo_iris 1000] \<and>
       (case bind_op demo_share_out (\<lambda>_. demo_withdraw) s of
          Ok _ t \<Rightarrow> balance ''a'' IrisAtto t = balance ''a'' IrisAtto s + 980
        | _ \<Rightarrow> False)
   | _ \<Rightarrow> False"
  by code_simp


text \<open>C28: Staking on its own keeps exact account of the loose tokens: in every run, what is recorded as
  loose is what the accounts other than that of burned coins hold, plus the collected fees, the
  unbonding delegations and the tokens of the validators that are not bonded.\<close>

theorem loose_tokens_exact:
  assumes "(stake_step E (\<lambda>_. None))\<^sup>*\<^sup>* s t" "books E (\<lambda>_. 0) {0} 0 (\<lambda>_. 0) s"
  shows "loosen t =
    (total_coins IrisAtto t - balance (BurnedCoinsAccAddr E) IrisAtto t + bal (collectedFees t) IrisAtto) * precisionReuse +
    fm_sum (\<lambda>u. Amount (ubd_Balance u) * precisionReuse) (unbondings t) + fm_sum loose_tokens (validators t)"
  using no_hooks_chain.run_books [OF assms] by (simp add: books_def balanced_def core_def slack_def ubd_total_def)

lemma demo_stake_books: "books demo_SE (\<lambda>_. 0) {0} 0 (\<lambda>_. 0) demo_stake"
proof -
  have "accounts_ok demo_stake" "slack demo_SE (\<lambda>_. 0) demo_stake = 0"
    by code_simp+
  then show ?thesis
    by (simp add: books_def index_ok_def balanced_def core_def val_shares_def del_shares_def ubd_total_def)
      (simp add: demo_stake_def fm_sum_def)
qed

lemma demo_unbonded_Ok:
  "case demo_unbonded 100 demo_stake of
     Ok _ t \<Rightarrow> fm_sum (\<lambda>u. Amount (ubd_Balance u) * precisionReuse) (unbondings t) = 100 * 10 ^ 10 \<and>
       balance (BurnedCoinsAccAddr demo_SE) IrisAtto t = 0 \<and> collectedFees t = [] \<and> fm_sum loose_tokens (validators t) = 0
   | _ \<Rightarrow> False"
  by code_simp

theorem loose_tokens_exact_witness:
  "case demo_unbonded 100 demo_stake of Ok _ t \<Rightarrow> loosen t = (total_coins IrisAtto t + 100) * 10 ^ 10 | _ \<Rightarrow> False"
proof -
  obtain u t where t: "demo_unbonded 100 demo_stake = Ok u t"
      "fm_sum (\<lambda>u. Amount (ubd_Balance u) * precisionReuse) (unbondings t) = 100 * 10 ^ 10"
      "balance (BurnedCoinsAccAddr demo_SE) IrisAtto t = 0" "collectedFees t = []" "fm_sum loose_tokens (validators t) = 0"
    using demo_unbonded_Ok by (auto split: outcome.splits)
  obtain s1 ups s2 where run: "StakeHandler demo_SE (demo_block 1) None (demo_create ''a'' (10 ^ 19)) demo_stake = Ok () s1"
    "StakeEndBlocker demo_SE (demo_block 1) None s1 = Ok ups s2"
    "StakeHandler demo_SE (demo_block 2) None (demo_unbond (100 * 10 ^ 10)) s2 = Ok () t"
    using t(1) by (auto simp: demo_unbonded_def demo_deliver_def)
  have ok: "list_all (\<lambda>msg. stake_ValidateBasic msg = Inr () \<and> BurnedCoinsAccAddr demo_SE \<notin> set (stake_GetSigners msg))
      [demo_create ''a'' (10 ^ 19), demo_unbond (100 * 10 ^ 10)]"
    by code_simp
  have "stake_step demo_SE (\<lambda>_. None) demo_stake s1"
    using ok by (intro stake_step.deliver [OF _ _ run(1)]) simp_all
  moreover have "stake_step demo_SE (\<lambda>_. None) s1 s2"
    using run(2) by (rule stake_step.end_block)
  moreover have "stake_step demo_SE (\<lambda>_. None) s2 t"
    using ok by (intro stake_step.deliver [OF _ _ run(3)]) simp_all
  ultimately have "(stake_step demo_SE (\<lambda>_. None))\<^sup>*\<^sup>* demo_stake t"
    by (meson converse_rtranclp_into_rtranclp rtranclp.rtrancl_refl)
  then show ?thesis
    using loose_tokens_exact [OF _ demo_stake_books] t by (simp add: precisionReuse_def Precision_def)
qed

end
