(* ===== verification/Asset_Supply.thy ===== *)
theory Asset_Supply
  imports Asset Chain
begin

text \<open>
  Lemmas on \<open>Asset\<close>: the keys of tokens and of their supplies agree, no operation of the bank raises the
  supply of a token, and the supply of every token stays within its maximum as long as messages name
  a maximum.
\<close>

section \<open>Keys of tokens and supplies\<close>

definition token_gw :: "FungibleToken \<Rightarrow> string" where
  "token_gw t =
     (if ft_Source t = NATIVE then [] else if ft_Source t = EXTERNAL then ''x.'' else ft_Gateway t @ ''.'')"

definition token_ok :: "FungibleToken \<Rightarrow> bool" where
  "token_ok t \<longleftrightarrow> ft_Source t \<in> {NATIVE, EXTERNAL, GATEWAY} \<and> name_parts [] (token_gw t) (ft_Symbol t) \<and>
     ft_Symbol t \<noteq> Iris"

definition key_id :: "FungibleToken \<Rightarrow> string" where
  "key_id t = (if ft_Source t = NATIVE then ''i.'' @ ft_Symbol t else token_gw t @ ft_Symbol t)"

lemma lower_parts: "name_parts [] gw tok \<Longrightarrow> ToLower (gw @ tok) = gw @ tok"
  using name_parts_chars [of "[]" gw tok] lower_name [of "gw @ tok"] by simp

lemma lower_native: "name_parts [] gw tok \<Longrightarrow> ToLower (''i.'' @ tok) = ''i.'' @ tok"
  using name_parts_tok(3) [of "[]" gw tok]
  by (intro lower_name) (auto simp: name_char_def list_all_iff ralnum_def ralpha_def less_eq_char_def)

lemma token_id_ok: "token_ok t \<Longrightarrow> token_id t = Inr (key_id t)"
  using lower_parts [of "token_gw t" "ft_Symbol t"] lower_native [of "token_gw t" "ft_Symbol t"]
  by (auto simp: token_ok_def token_id_def GetTokenID_def key_id_def token_gw_def)

lemma no_space: "list_all name_char s \<Longrightarrow> TrimSpace s = s"
proof -
  assume s: "list_all name_char s"
  have n: "\<not> is_space c" if "name_char c" for c
    using that by (auto simp: is_space_def name_char_def ralnum_def ralpha_def rdigit_def less_eq_char_def)
  have "dropWhile is_space u = u" if "list_all name_char u" for u
    using that n by (cases u) auto
  then show "TrimSpace s = s" using s by (simp add: TrimSpace_def list_all_iff)
qed

lemma GetUniqueID_ok: "token_ok t \<Longrightarrow> GetUniqueID t = token_gw t @ ft_Symbol t"
  using lower_parts [of "token_gw t" "ft_Symbol t"]
  by (auto simp: token_ok_def GetUniqueID_def token_gw_def)

lemma parts_not_iris: "name_parts [] gw tok \<Longrightarrow> tok \<noteq> Iris \<Longrightarrow> gw @ tok \<noteq> Iris"
  by (auto simp: name_parts_def Iris_def append_eq_Cons_conv)

lemma GetDenom_ok:
  assumes "token_ok t"
  shows "GetDenom t = token_gw t @ ft_Symbol t @ MinDenomSuffix"
  using assms GetUniqueID_ok [OF assms] lower_parts [of "token_gw t" "ft_Symbol t"]
    no_space [of "token_gw t @ ft_Symbol t"] name_parts_chars [of "[]" "token_gw t" "ft_Symbol t"]
    parts_not_iris [of "token_gw t" "ft_Symbol t"]
  by (simp add: GetDenom_def GetCoinMinDenom_def token_ok_def)

lemma supply_key_ok:
  assumes "token_ok t"
  shows "TotalSupplyStoreKey (GetDenom t) = ''totalSupply:'' @ key_id t"
  using TokenKeyId_valid [of "[]" "token_gw t" "ft_Symbol t"] assms
  by (auto simp: TotalSupplyStoreKey_def GetDenom_ok key_id_def token_ok_def token_gw_def)

lemma KeyToken_ok:
  assumes "token_ok t"
  shows "KeyToken (key_id t) = ''token:'' @ key_id t"
proof -
  have np: "name_parts [] (token_gw t) (ft_Symbol t)" using assms by (simp add: token_ok_def)
  have "accepts (rrep 3 14 (RCls token_char)) (ft_Symbol t)"
    using name_parts_tok [OF np]
    by (auto simp: accepts_rrep_cls token_char_def list_all_iff simp del: rrep.simps)
  then have m: "MatchString (rrep 3 14 (RCls token_char)) (key_id t)"
    unfolding MatchString_iff key_id_def by (metis append_Nil2)
  have "CHR ''.'' \<in> set (key_id t)" "ToLower (key_id t) = key_id t"
    using lower_parts [OF np] lower_native [OF np] by (auto simp: key_id_def token_gw_def)
  with m show ?thesis by (simp add: KeyToken_def ConvertIdToTokenKeyId_def del: rrep.simps)
qed

section \<open>The bank never raises the supply of a token\<close>

definition at_most :: "'z asset_state_scheme \<Rightarrow> 'z asset_state_scheme \<Rightarrow> bool" where
  "at_most s0 u \<longleftrightarrow> tokens u = tokens s0 \<and> gateways u = gateways s0 \<and>
     (\<forall>k c. fmlookup (totalSupply u) k = Some c \<longrightarrow>
       (\<exists>c0. fmlookup (totalSupply s0) k = Some c0 \<and> Denom c = Denom c0 \<and> Amount c \<le> Amount c0))"

lemma at_most_refl [simp]: "at_most s s"
  by (simp add: at_most_def)

lemma at_most_frame:
  "tokens t = tokens u \<Longrightarrow> gateways t = gateways u \<Longrightarrow> totalSupply t = totalSupply u \<Longrightarrow> at_most s u \<Longrightarrow> at_most s t"
  by (simp add: at_most_def)

lemma at_most_decrease: "keeps (at_most s0) (DecreaseTotalSupply c)"
proof (rule keepsI)
  fix u x t
  assume u: "at_most s0 u" and run: "DecreaseTotalSupply c u = Ok x t"
  show "at_most s0 t"
  proof (cases "t = u")
    case False
    then obtain c' where c': "GetTotalSupply (Denom c) u = Some c'" "Denom c' = Denom c" "Amount c > 0"
      "t = u\<lparr>totalSupply := fmupd (TotalSupplyStoreKey (Denom c)) \<lparr>Denom = Denom c, Amount = Amount c' - Amount c\<rparr> (totalSupply u)\<rparr>"
      using DecreaseTotalSupply_Ok [OF run] run by (auto simp: DecreaseTotalSupply_def split: if_splits)
    then show ?thesis using u by (fastforce simp: at_most_def GetTotalSupply_def split: if_splits)
  qed (use u in simp)
next
  fix u e t
  assume "at_most s0 u" "DecreaseTotalSupply c u = Err e t"
  then show "at_most s0 t"
    by (auto simp: DecreaseTotalSupply_def SetTotalSupply_def split: if_splits option.splits)
qed

lemma at_most_bank:
  shows at_most_subtract: "keeps (at_most s0) (subtractCoins a amt)"
    and at_most_add: "keeps (at_most s0) (addCoins E a amt)"
proof -
  have set: "keeps (at_most s0) (setCoins b cs)" for b cs
    unfolding setCoins_def NewAccountWithAddress_def SetAccount_def GetNextAccountNumber_def
    by (intro keeps_intros keeps_modify; (erule at_most_frame [rotated -1]; simp)?)
  have burn: "keeps (at_most s0) (burn_coin c)" for c
    unfolding burn_coin_def DecreaseTotalLoosenToken_def
    by (intro keeps_intros keeps_modify at_most_decrease) (erule at_most_frame [rotated -1]; simp)
  show "keeps (at_most s0) (subtractCoins a amt)"
    unfolding subtractCoins_def by (intro keeps_intros set)
  show "keeps (at_most s0) (addCoins E a amt)"
    unfolding addCoins_def by (intro keeps_intros set burn)
qed

lemma at_most_send: "keeps (at_most s0) (sendCoins E a b amt)"
  unfolding sendCoins_def by (intro keeps_intros at_most_bank)

lemma at_most_fee: "keeps (at_most s0) (pay_fee E a f)"
  unfolding pay_fee_def feeHandler_def BurnCoins_def by (intro keeps_intros at_most_send)

section \<open>Supplies within their maximum\<close>

definition word_ok :: "string \<Rightarrow> bool" where
  "word_ok str \<longleftrightarrow> (\<exists>a w. str = a # w \<and> ralpha a \<and> 2 \<le> length w \<and> length w \<le> 7 \<and> list_all ralnum w)"

definition supply_capped :: "'z asset_state_scheme \<Rightarrow> bool" where
  "supply_capped s \<longleftrightarrow>
     (\<forall>m g. fmlookup (gateways s) m = Some g \<longrightarrow> gw_Moniker g = m \<and> word_ok m) \<and>
     (\<forall>k t. fmlookup (tokens s) k = Some t \<longrightarrow> token_ok t \<and> k = KeyToken (key_id t) \<and>
        (\<forall>c. GetTotalSupply (GetDenom t) s = Some c \<longrightarrow> Amount c \<le> ft_MaxSupply t))"

lemma token_okI:
  assumes "ft_Source t \<in> {NATIVE, EXTERNAL, GATEWAY}" "word_ok (ft_Symbol t)" "ft_Symbol t \<noteq> Iris"
    "ft_Source t = GATEWAY \<Longrightarrow> word_ok (ft_Gateway t)"
  shows "token_ok t"
  using assms by (auto simp: token_ok_def name_parts_def token_gw_def word_ok_def)

lemma cappedD:
  assumes "supply_capped s" "fmlookup (tokens s) k = Some t"
  shows "token_ok t" "k = KeyToken (key_id t)"
    "GetTotalSupply (GetDenom t) s = Some c \<Longrightarrow> Amount c \<le> ft_MaxSupply t"
  using assms by (auto simp: supply_capped_def)

lemma capped_gateway:
  assumes "supply_capped s" "GetGateway m s = Inr g"
  shows "gw_Moniker g = m" "word_ok m"
  using assms by (auto simp: supply_capped_def GetGateway_def split: option.splits)

lemma capped_at_most: "supply_capped s \<Longrightarrow> at_most s t \<Longrightarrow> supply_capped t"
  unfolding supply_capped_def at_most_def GetTotalSupply_def by (simp, meson order_trans)

lemma capped_frame:
  "supply_capped s \<Longrightarrow> tokens t = tokens s \<Longrightarrow> gateways t = gateways s \<Longrightarrow> totalSupply t = totalSupply s \<Longrightarrow> supply_capped t"
  by (simp add: supply_capped_def GetTotalSupply_def)

lemma capped_bank:
  assumes "\<And>s0. keeps (at_most s0) m"
  shows "keeps supply_capped m"
proof (rule keepsI)
  show "supply_capped t" if "supply_capped s" "m s = Ok x t" for s x t
    using keeps_Ok [OF assms, of s, OF at_most_refl that(2)] that(1) by (rule capped_at_most [rotated])
  show "supply_capped t" if "supply_capped s" "m s = Err e t" for s e t
    using keeps_Err [OF assms, of s, OF at_most_refl that(2)] that(1) by (rule capped_at_most [rotated])
qed

lemmas capped_send = capped_bank [OF at_most_send]
lemmas capped_add = capped_bank [OF at_most_add]
lemmas capped_fee = capped_bank [OF at_most_fee]

text \<open>Two tokens with different keys have supplies with different keys.\<close>

lemma supply_keys_differ:
  assumes "token_ok t" "token_ok u" "KeyToken (key_id t) \<noteq> KeyToken (key_id u)"
  shows "TotalSupplyStoreKey (GetDenom t) \<noteq> TotalSupplyStoreKey (GetDenom u)"
  using assms by (simp add: supply_key_ok KeyToken_ok)

text \<open>Storing a token that is within its maximum, and changing the supply of one token.\<close>

definition stored_token :: "FungibleToken \<Rightarrow> FungibleToken" where
  "stored_token t = (if ft_Source t = GATEWAY then t\<lparr>ft_Owner := []\<rparr> else t)"

lemma stored_token_same [simp]:
  "key_id (stored_token t) = key_id t" "GetDenom (stored_token t) = GetDenom t" "token_ok (stored_token t) = token_ok t"
  "ft_MaxSupply (stored_token t) = ft_MaxSupply t"
  by (auto simp: stored_token_def key_id_def token_gw_def GetDenom_def GetUniqueID_def token_ok_def)

lemma SetToken_run:
  "token_ok t \<Longrightarrow> SetToken t s = Ok () (s\<lparr>tokens := fmupd (KeyToken (key_id t)) (stored_token t) (tokens s)\<rparr>)"
  using token_id_ok [of "stored_token t"] by (simp add: SetToken_def Let_def stored_token_def [symmetric])

lemma capped_store:
  assumes "supply_capped s" "token_ok t" "\<And>c. GetTotalSupply (GetDenom t) s = Some c \<Longrightarrow> Amount c \<le> ft_MaxSupply t"
    "SetToken t s = Ok x u"
  shows "supply_capped u"
  using assms SetToken_run [OF assms(2), of s]
  by (auto simp: supply_capped_def GetTotalSupply_def split: if_splits)

lemma capped_supply:
  assumes "supply_capped s" "fmlookup (tokens s) (KeyToken (key_id t)) = Some t'" "token_ok t" "GetDenom t' = GetDenom t"
    "Amount c \<le> ft_MaxSupply t'" "Denom c = GetDenom t" "SetTotalSupply c s = Ok x u"
  shows "supply_capped u"
proof -
  have u: "u = s\<lparr>totalSupply := fmupd (TotalSupplyStoreKey (GetDenom t)) c (totalSupply s)\<rparr>"
    using assms(6,7) by (simp add: SetTotalSupply_def)
  have "Amount d \<le> ft_MaxSupply v"
    if v: "fmlookup (tokens s) k = Some v" "GetTotalSupply (GetDenom v) u = Some d" for k v d
  proof (cases "k = KeyToken (key_id t)")
    case True
    then have "v = t'" using v(1) assms(2) by simp
    then show ?thesis using v(2) assms(4,5) by (simp add: u GetTotalSupply_def)
  next
    case False
    then have "TotalSupplyStoreKey (GetDenom v) \<noteq> TotalSupplyStoreKey (GetDenom t)"
      using cappedD(1,2) [OF assms(1) v(1)] assms(3) by (intro supply_keys_differ) auto
    then show ?thesis
      using cappedD(3) [OF assms(1) v(1)] v(2) by (auto simp: u GetTotalSupply_def)
  qed
  then show ?thesis using assms(1) by (auto simp: supply_capped_def u)
qed

section \<open>The operations\<close>

lemma AddToken_Ok:
  assumes "AddToken token s = Ok (tok, owner) t"
  obtains tokenId u where "token_id token = Inr tokenId" "\<not> HasToken tokenId s"
    "ft_Source token = GATEWAY \<Longrightarrow> \<exists>g. GetGateway (ft_Gateway token) s = Inr g"
    "tok = (if ft_Source token = NATIVE then token\<lparr>ft_CanonicalSymbol := '''', ft_Gateway := ''''\<rparr> else token)"
    "SetToken tok s = Ok () u" "tokens t = tokens u" "gateways t = gateways u" "totalSupply t = totalSupply u"
proof -
  have index: "tokens v = tokens u \<and> gateways v = gateways u \<and> totalSupply v = totalSupply u"
    if "SetTokens a tk u = Ok () v" for a tk u v
    using that by (auto simp: SetTokens_def)
  obtain tokenId where id: "token_id token = Inr tokenId" "\<not> HasToken tokenId s"
    using assms by (auto simp: AddToken_def split: if_splits)
  consider (gateway) g where "ft_Source token = GATEWAY" "GetGateway (ft_Gateway token) s = Inr g" "tok = token"
    | (native) "ft_Source token = NATIVE" "tok = token\<lparr>ft_CanonicalSymbol := '''', ft_Gateway := ''''\<rparr>"
    | (external) "ft_Source token \<noteq> GATEWAY" "ft_Source token \<noteq> NATIVE" "tok = token"
    using assms id by (auto simp: AddToken_def split: if_splits)
  moreover obtain u v where u: "SetToken tok s = Ok () u" "(if ft_Source tok = NATIVE then SetTokens owner tok else ret ()) u = Ok () v"
    "SetTokens '''' tok v = Ok () t"
    using assms id by (auto simp: AddToken_def split: if_splits)
  moreover have "tokens t = tokens u \<and> gateways t = gateways u \<and> totalSupply t = totalSupply u"
    using index [OF u(3)] u(2) index [of owner tok u v] by (cases "ft_Source tok = NATIVE") simp_all
  ultimately show ?thesis using id that by cases auto
qed

definition issue_ok :: "FungibleToken \<Rightarrow> bool" where
  "issue_ok token \<longleftrightarrow> ft_Source token \<in> {NATIVE, EXTERNAL, GATEWAY} \<and> word_ok (ft_Symbol token) \<and>
     ft_Symbol token \<noteq> Iris \<and> ft_InitialSupply token \<le> ft_MaxSupply token"

lemma IssueToken_Ok:
  assumes "IssueToken E token s = Ok x t"
  obtains tok owner u c v where "AddToken token s = Ok (tok, owner) u"
    "NewCoin (GetDenom tok) (ft_InitialSupply tok) = Some c"
    "(if owner \<noteq> '''' then bind_op (addCoins E owner [c]) (\<lambda>_. ret ()) else ret ()) u = Ok () v"
    "SetTotalSupply c v = Ok x t"
proof -
  let ?check = "if ft_Source token = GATEWAY
              then bind_op (bind_op (gets (GetGateway (ft_Gateway token))) lift_res) (\<lambda>gateway.
                if gw_Owner gateway \<noteq> ft_Owner token then fail (AssetErr CodeUnauthorizedIssueGatewayAsset) else ret ())
              else ret ()"
  have "\<exists>w. ?check s = Ok () w \<Longrightarrow> ?check s = Ok () s" by (auto split: if_splits)
  then show ?thesis
    using assms that unfolding IssueToken_def bind_op_Ok [of ?check] 
    by (auto simp del: bind_op_Ok simp: bind_op_Ok [of "AddToken token"] bind_op_Ok [where m = "lift_go X" for X]
        bind_op_Ok [where f = "\<lambda>_. SetTotalSupply c" for c])
qed

text \<open>A token is stored and its supply is set, the bank running in between.\<close>

lemma capped_new:
  assumes capped: "supply_capped s" and tok: "token_ok tok" and w: "SetToken tok s = Ok () w"
    and u: "tokens u = tokens w" "gateways u = gateways w" "totalSupply u = totalSupply w"
    and v: "at_most u v" and t: "SetTotalSupply c v = Ok x t"
    and c: "Denom c = GetDenom tok" "Amount c \<le> ft_MaxSupply tok"
  shows "supply_capped t"
proof -
  have t': "t = v\<lparr>totalSupply := fmupd (TotalSupplyStoreKey (GetDenom tok)) c (totalSupply v)\<rparr>"
    using t c(1) by (simp add: SetTotalSupply_def)
  have w': "w = s\<lparr>tokens := fmupd (KeyToken (key_id tok)) (stored_token tok) (tokens s)\<rparr>"
    using w SetToken_run [OF tok, of s] by simp
  have fields: "tokens t = fmupd (KeyToken (key_id tok)) (stored_token tok) (tokens s)" "gateways t = gateways s"
    using u v by (simp_all add: t' w' at_most_def)
  have "Amount d \<le> ft_MaxSupply b" if b: "fmlookup (tokens s) k = Some b" "k \<noteq> KeyToken (key_id tok)"
    "GetTotalSupply (GetDenom b) t = Some d" for k b d
  proof -
    have "TotalSupplyStoreKey (GetDenom b) \<noteq> TotalSupplyStoreKey (GetDenom tok)"
      using cappedD(1,2) [OF capped b(1)] tok b(2) by (intro supply_keys_differ) auto
    then obtain d0 where "GetTotalSupply (GetDenom b) s = Some d0" "Amount d \<le> Amount d0"
      using b(3) v u(3) by (auto simp: t' GetTotalSupply_def at_most_def w')
    then show ?thesis using cappedD(3) [OF capped b(1)] by fastforce
  qed
  moreover have "Amount d \<le> ft_MaxSupply tok" if "GetTotalSupply (GetDenom tok) t = Some d" for d
    using that c(2) by (simp add: t' GetTotalSupply_def)
  ultimately show ?thesis
    using capped tok by (auto simp: supply_capped_def fields split: if_splits)
qed

lemma capped_issue:
  assumes capped: "supply_capped s" and ok: "issue_ok token" and run: "IssueToken E token s = Ok x t"
  shows "supply_capped t"
proof -
  obtain tok owner u c v where u: "AddToken token s = Ok (tok, owner) u"
    and c: "NewCoin (GetDenom tok) (ft_InitialSupply tok) = Some c"
    and v: "(if owner \<noteq> [] then bind_op (addCoins E owner [c]) (\<lambda>_. ret ()) else ret ()) u = Ok () v"
    and t: "SetTotalSupply c v = Ok x t"
    using IssueToken_Ok [OF run] by metis
  obtain tokenId w where tok: "token_id token = Inr tokenId" "\<not> HasToken tokenId s"
    "ft_Source token = GATEWAY \<Longrightarrow> \<exists>g. GetGateway (ft_Gateway token) s = Inr g"
    "tok = (if ft_Source token = NATIVE then token\<lparr>ft_CanonicalSymbol := [], ft_Gateway := []\<rparr> else token)"
    "SetToken tok s = Ok () w" "tokens u = tokens w" "gateways u = gateways w" "totalSupply u = totalSupply w"
    using AddToken_Ok [OF u] by metis
  have tok_ok: "token_ok tok" "ft_InitialSupply tok \<le> ft_MaxSupply tok"
    using ok tok(3,4) capped_gateway(2) [OF capped] by (auto simp: issue_ok_def intro!: token_okI)
  have "at_most u v"
    using v keeps_Ok [OF at_most_add [of u], of u] by (auto split: if_splits)
  then show ?thesis
    using capped_new [OF capped tok_ok(1) tok(5-8) _ t] c tok_ok(2) by (auto simp: NewCoin_def split: if_splits)
qed

lemma current_owner_same:
  "key_id (current_owner t s) = key_id t" "GetDenom (current_owner t s) = GetDenom t"
  "token_ok (current_owner t s) = token_ok t" "ft_MaxSupply (current_owner t s) = ft_MaxSupply t"
  "ft_Source (current_owner t s) = ft_Source t"
  by (auto simp: current_owner_def key_id_def token_gw_def GetDenom_def GetUniqueID_def token_ok_def)

lemma find_token_Ok: "find_token i s = Ok tok t \<longleftrightarrow> t = s \<and> fmlookup (tokens s) (KeyToken i) = Some tok"
  by (auto simp: find_token_def getToken_def split: option.splits)

lemma edit_same [simp]:
  "key_id (t\<lparr>ft_Name := a\<rparr>) = key_id t" "key_id (t\<lparr>ft_CanonicalSymbol := a\<rparr>) = key_id t" "key_id (t\<lparr>ft_MinUnitAlias := a\<rparr>) = key_id t"
  "key_id (t\<lparr>ft_MaxSupply := n\<rparr>) = key_id t" "key_id (t\<lparr>ft_Mintable := b\<rparr>) = key_id t" "key_id (t\<lparr>ft_Owner := a\<rparr>) = key_id t"
  "GetDenom (t\<lparr>ft_Name := a\<rparr>) = GetDenom t" "GetDenom (t\<lparr>ft_CanonicalSymbol := a\<rparr>) = GetDenom t" "GetDenom (t\<lparr>ft_MinUnitAlias := a\<rparr>) = GetDenom t"
  "GetDenom (t\<lparr>ft_MaxSupply := n\<rparr>) = GetDenom t" "GetDenom (t\<lparr>ft_Mintable := b\<rparr>) = GetDenom t" "GetDenom (t\<lparr>ft_Owner := a\<rparr>) = GetDenom t"
  "token_ok (t\<lparr>ft_Name := a\<rparr>) = token_ok t" "token_ok (t\<lparr>ft_CanonicalSymbol := a\<rparr>) = token_ok t" "token_ok (t\<lparr>ft_MinUnitAlias := a\<rparr>) = token_ok t"
  "token_ok (t\<lparr>ft_MaxSupply := n\<rparr>) = token_ok t" "token_ok (t\<lparr>ft_Mintable := b\<rparr>) = token_ok t" "token_ok (t\<lparr>ft_Owner := a\<rparr>) = token_ok t"
  by (simp_all add: key_id_def token_gw_def GetDenom_def GetUniqueID_def token_ok_def)

lemma checks_Ok:
  "(if b then fail e else m) s = Ok x t \<longleftrightarrow> \<not> b \<and> m s = Ok x t"
  "(case r of None \<Rightarrow> fail e | Some y \<Rightarrow> f y) s = Ok x t \<longleftrightarrow> (\<exists>y. r = Some y \<and> f y s = Ok x t)"
  "(if b then bind_op p (\<lambda>_. fail e) else m) s = Ok x t \<longleftrightarrow> \<not> b \<and> m s = Ok x t"
  by (auto split: option.splits)

lemma capped_edit:
  assumes capped: "supply_capped s" and run: "EditToken msg s = Ok x t"
  shows "supply_capped t"
proof -
  obtain stored where stored: "fmlookup (tokens s) (KeyToken (met_TokenId msg)) = Some stored"
    using run by (auto simp: EditToken_def find_token_Ok)
  define tok where "tok = current_owner stored s"
  obtain issued tok2 where issued: "GetTotalSupply (GetDenom tok) s = Some issued"
    and tok2: "SetToken tok2 s = Ok x t" "GetDenom tok2 = GetDenom tok" "token_ok tok2 = token_ok tok"
      "ft_MaxSupply tok2 = ft_MaxSupply tok \<or> Amount issued \<le> ft_MaxSupply tok2"
    using run stored unfolding EditToken_def
    by (auto simp: find_token_Ok checks_Ok tok_def [symmetric] not_less cong: if_cong split: if_splits)
  then show ?thesis
    using cappedD(1,3) [OF capped stored]
    by (intro capped_store [OF capped _ _ tok2(1)]) (auto simp: tok_def current_owner_same)
qed

lemma capped_transfer:
  assumes capped: "supply_capped s" and run: "TransferTokenOwner msg s = Ok x t"
  shows "supply_capped t"
proof -
  obtain tok u where tok: "fmlookup (tokens s) (KeyToken (mtt_TokenId msg)) = Some tok"
    "SetToken (tok\<lparr>ft_Owner := mtt_DstOwner msg\<rparr>) s = Ok () u"
    "resetStoreKeyForQueryToken msg (tok\<lparr>ft_Owner := mtt_DstOwner msg\<rparr>) u = Ok x t"
    using run by (auto simp: TransferTokenOwner_def find_token_Ok split: if_splits)
  have "supply_capped u"
    using cappedD [OF capped tok(1)] by (intro capped_store [OF capped _ _ tok(2)]) auto
  moreover have "tokens t = tokens u" "gateways t = gateways u" "totalSupply t = totalSupply u"
    using tok(3) by (auto simp: resetStoreKeyForQueryToken_def SetTokens_def)
  ultimately show ?thesis by (rule capped_frame)
qed

lemma IncreaseTotalSupply_Ok:
  assumes "IncreaseTotalSupply c s = Ok x t"
  shows "t = s \<or> (\<exists>c'. GetTotalSupply (Denom c) s = Some c' \<and>
    SetTotalSupply \<lparr>Denom = Denom c, Amount = Amount c' + Amount c\<rparr> s = Ok x t)"
  using assms by (auto simp: IncreaseTotalSupply_def Coin_Add_def Int_Add_def Let_def bind_eq_Some_conv
      split: if_splits option.splits)

lemma capped_mint:
  fixes s :: "'z asset_state_scheme"
  assumes capped: "supply_capped s" and run: "MintToken E msg s = Ok x t"
  shows "supply_capped t"
proof -
  obtain stored where stored: "fmlookup (tokens s) (KeyToken (mmt_TokenId msg)) = Some stored"
    using run by (auto simp: MintToken_def find_token_Ok)
  define tok where "tok = current_owner stored s"
  define fee :: "('z asset_state_scheme, unit) op" where "fee = (if ft_Source tok = NATIVE then TokenMintFeeHandler E (mmt_Owner msg) (ft_Symbol tok)
    else if ft_Source tok = GATEWAY then GatewayTokenMintFeeHandler E (mmt_Owner msg) (ft_Symbol tok) else ret ())"
  obtain issued amt c u v r w where
    issued: "GetTotalSupply (GetDenom tok) s = Some issued" "\<not> amt + Amount issued > ft_MaxSupply tok"
    and u: "fee s = Ok () u" and c: "NewCoin (GetDenom tok) amt = Some c"
    and v: "IncreaseTotalSupply c u = Ok () v" and w: "addCoins E r [c] v = Ok w t"
    using run stored unfolding MintToken_def
    by (auto simp: find_token_Ok checks_Ok tok_def [symmetric] fee_def [symmetric] cong: if_cong)
  have "keeps (at_most s) fee"
    unfolding fee_def TokenMintFeeHandler_def GatewayTokenMintFeeHandler_def by (intro keeps_intros at_most_fee)
  then have au: "at_most s u" using keeps_Ok u by (metis at_most_refl)
  have ok: "token_ok tok" "KeyToken (key_id tok) = KeyToken (mmt_TokenId msg)" "GetDenom tok = GetDenom stored"
    using cappedD(1,2) [OF capped stored] by (simp_all add: tok_def current_owner_same)
  have "supply_capped v"
  proof (cases "v = u")
    case False
    then obtain c' where c': "GetTotalSupply (Denom c) u = Some c'"
      "SetTotalSupply \<lparr>Denom = Denom c, Amount = Amount c' + Amount c\<rparr> u = Ok () v"
      using IncreaseTotalSupply_Ok [OF v] by blast
    have cc: "Denom c = GetDenom tok" "Amount c = amt" using c by (auto simp: NewCoin_def split: if_splits)
    have "Amount c' \<le> Amount issued" using c'(1) issued(1) au cc(1) by (fastforce simp: at_most_def GetTotalSupply_def)
    then have "Amount c' + Amount c \<le> ft_MaxSupply stored" using issued(2) cc(2) by (simp add: tok_def current_owner_same)
    then show ?thesis
      using capped_supply [OF capped_at_most [OF capped au] _ ok(1) _ _ _ c'(2)] stored au ok cc(1)
      by (simp add: at_most_def)
  qed (use capped_at_most [OF capped au] in simp)
  then show ?thesis using keeps_Ok [OF capped_add _ w] by simp
qed

section \<open>What the checks of messages give\<close>

lemma lower_letter: "letter_char c \<Longrightarrow> ralpha (lower_char c)"
  by (auto simp: letter_char_def lower_char_def ralpha_def less_eq_char_def)

lemma lower_digit: "rdigit c \<Longrightarrow> lower_char c = c"
  by (auto simp: rdigit_def lower_char_def less_eq_char_def)

lemma letter_lower: "letter_char (lower_char c) \<Longrightarrow> ralpha (lower_char c)"
  by (auto simp: letter_char_def lower_char_def ralpha_def less_eq_char_def split: if_splits)

lemma lower_letter_char: "letter_char c \<Longrightarrow> letter_char (lower_char c)"
  using lower_letter by (simp add: letter_char_def)

lemma check_Inr: "(if b then Inl e else r) = Inr y \<longleftrightarrow> \<not> b \<and> r = Inr y"
  by simp

lemma small_sint:
  fixes w :: uint64
  assumes "w \<le> MaximumAssetMaxSupply"
  shows "sint w = uint w"
proof -
  have "uint w \<le> uint MaximumAssetMaxSupply" using assms by (simp add: word_le_def)
  then have "uint w < 2 ^ 63" by (simp add: MaximumAssetMaxSupply_def)
  moreover have "- (2 ^ 63) \<le> uint w" by (rule order_trans [OF _ uint_ge_0]) simp
  ultimately show ?thesis using signed_take_bit_int_eq_self [of 63 "uint w"] by (simp add: sint_uint)
qed

lemma word_okI:
  assumes "3 \<le> length str" "length str \<le> 8" "IsBeginWithAlpha str" "IsAlphaNumeric str" "list_all (\<lambda>c. letter_char c \<longrightarrow> ralpha c) str"
  shows "word_ok str"
  using assms by (cases str) (auto simp: word_ok_def IsBeginWithAlpha_def IsAlphaNumeric_def list_all_iff ralnum_def)

lemma lower_only: "list_all (\<lambda>c. letter_char c \<longrightarrow> ralpha c) (ToLower str)"
  by (auto simp: list_all_iff ToLower_def dest: letter_lower)

lemma moniker_word:
  assumes "ValidateMoniker m = Inr u"
  shows "word_ok (ToLower m)"
proof -
  have m: "3 \<le> length m" "length m \<le> 8" "IsBeginWithAlpha m" "IsAlphaNumeric m"
    using assms by (auto simp: ValidateMoniker_def MinimumGatewayMonikerSize_def MaximumGatewayMonikerSize_def split: if_splits)
  have "IsBeginWithAlpha (ToLower m)" "IsAlphaNumeric (ToLower m)"
    using m(3,4) by (auto simp: IsBeginWithAlpha_def IsAlphaNumeric_def ToLower_def list_all_iff lower_letter_char
        lower_digit split: list.splits)
  with m(1,2) lower_only show ?thesis by (intro word_okI) (simp_all add: ToLower_def)
qed

lemma issue_msg_ok:
  assumes "ValidateMsgIssueToken msg = Inr msg'"
    and supplies: "NewIntWithDecimal (sint (mi_InitialSupply msg)) (uint (mi_Decimal msg)) = Some initialSupply"
      "NewIntWithDecimal (sint (mi_MaxSupply msg)) (uint (mi_Decimal msg)) = Some maxSupply"
    and named: "\<not> (mi_MaxSupply msg = 0 \<and> mi_Mintable msg)"
  shows "issue_ok (NewFungibleToken (mi_Source msg) gw (mi_Symbol msg) name dec cs al initialSupply maxSupply (mi_Mintable msg) owner)"
proof -
  let ?sym = "lower_trim (mi_Symbol msg)"
  have sym: "3 \<le> length ?sym" "length ?sym \<le> 8" "IsBeginWithAlpha ?sym" "IsAlphaNumeric ?sym"
      "\<not> Contains (ToLower ?sym) Iris"
    and src: "mi_Source msg \<in> {NATIVE, EXTERNAL, GATEWAY}"
    and init: "mi_InitialSupply msg \<le> MaximumAssetInitSupply"
      "mi_InitialSupply msg \<le> mi_MaxSupply (normalise_issue msg)" "mi_MaxSupply (normalise_issue msg) \<le> MaximumAssetMaxSupply"
    using assms(1) unfolding ValidateMsgIssueToken_def Let_def check_Inr
    by (auto simp: normalise_issue_def MinimumAssetSymbolSize_def MaximumAssetSymbolSize_def not_less)
  have "ToLower Iris = Iris" by (simp add: ToLower_def Iris_def lower_char_def less_eq_char_def)
  then have iris: "?sym \<noteq> Iris" using sym(5) by (auto simp: Contains_def)
  have "initialSupply \<le> (if maxSupply = 0 then if mi_Mintable msg then uint MaximumAssetMaxSupply else initialSupply else maxSupply)"
  proof (cases "mi_MaxSupply msg = 0")
    case True
    then show ?thesis using named supplies by (auto simp: NewIntWithDecimal_def Let_def split: if_splits)
  next
    case False
    then have le: "mi_InitialSupply msg \<le> mi_MaxSupply msg" "mi_MaxSupply msg \<le> MaximumAssetMaxSupply"
      using init(2,3) by (simp_all add: normalise_issue_def)
    have "uint (mi_MaxSupply msg) \<noteq> 0" using False by (simp add: uint_0_iff)
    then have "0 < uint (mi_MaxSupply msg)" using uint_ge_0 [of "mi_MaxSupply msg"] by (metis order_le_less)
    then have "sint (mi_InitialSupply msg) \<le> sint (mi_MaxSupply msg)" "0 < sint (mi_MaxSupply msg)"
      using small_sint order_trans [OF le] le by (simp_all add: word_le_def)
    then have "initialSupply \<le> maxSupply" "maxSupply > 0"
      using supplies by (auto simp: NewIntWithDecimal_def Let_def split: if_splits)
    then show ?thesis by simp
  qed
  moreover have "word_ok ?sym"
    using sym by (intro word_okI) (simp_all add: lower_trim_def lower_only)
  ultimately show ?thesis
    using src iris by (simp add: issue_ok_def NewFungibleToken_def NewBaseToken_def Let_def)
qed

section \<open>Runs of the asset module and the bank\<close>

lemma capped_gateways:
  assumes "supply_capped s" "word_ok (gw_Moniker g)" "tokens t = tokens s" "totalSupply t = totalSupply s"
    "gateways t = fmupd (gw_Moniker g) g (gateways s)"
  shows "supply_capped t"
  using assms by (auto simp: supply_capped_def GetTotalSupply_def)

lemma capped_create:
  assumes "supply_capped s" "word_ok (mcg_Moniker msg)" "CreateGateway msg s = Ok x t"
  shows "supply_capped t"
  using assms(3)
  by (intro capped_gateways [OF assms(1), where g = "\<lparr>gw_Owner = mcg_Owner msg, gw_Moniker = mcg_Moniker msg,
         gw_Identity = mcg_Identity msg, gw_Details = mcg_Details msg, gw_Website = mcg_Website msg\<rparr>"])
    (auto simp: CreateGateway_def SetGateway_def SetOwnerGateway_def assms(2) split: if_splits)

lemma capped_gateway_edits:
  assumes "supply_capped s"
  shows "EditGateway m s = Ok x t \<Longrightarrow> supply_capped t"
    and "TransferGatewayOwner m' s = Ok x t \<Longrightarrow> supply_capped t"
proof -
  assume "EditGateway m s = Ok x t"
  then obtain g i d w where g: "GetGateway (meg_Moniker m) s = Inr g"
    "SetGateway (g\<lparr>gw_Identity := i, gw_Details := d, gw_Website := w\<rparr>) s = Ok x t"
    by (auto simp: EditGateway_def split: if_splits)
  then show "supply_capped t"
    using capped_gateway [OF assms g(1)]
    by (intro capped_gateways [OF assms, where g = "g\<lparr>gw_Identity := i, gw_Details := d, gw_Website := w\<rparr>"])
      (auto simp: SetGateway_def)
next
  assume "TransferGatewayOwner m' s = Ok x t"
  then obtain g where g: "GetGateway (mtg_Moniker m') s = Inr g"
    "bind_op (SetGateway (g\<lparr>gw_Owner := mtg_To m'\<rparr>)) (\<lambda>_. UpdateOwnerGateway (gw_Moniker g) (mtg_Owner m') (mtg_To m')) s = Ok x t"
    by (auto simp: TransferGatewayOwner_def split: if_splits)
  then show "supply_capped t"
    using capped_gateway [OF assms g(1)]
    by (intro capped_gateways [OF assms, where g = "g\<lparr>gw_Owner := mtg_To m'\<rparr>"])
      (auto simp: SetGateway_def UpdateOwnerGateway_def)
qed

fun names_maximum :: "asset_msg \<Rightarrow> bool" where
  "names_maximum (AssetIssueToken msg) \<longleftrightarrow> \<not> (mi_MaxSupply msg = 0 \<and> mi_Mintable msg)"
| "names_maximum _ \<longleftrightarrow> True"

lemma capped_handle_issue:
  fixes s :: "'z asset_state_scheme"
  assumes capped: "supply_capped s" and valid: "MsgIssueToken_ValidateBasic msg = Inr ()"
    and named: "names_maximum (AssetIssueToken msg)" and run: "handleIssueToken E msg s = Ok x t"
  shows "supply_capped t"
proof -
  define fee :: "('z asset_state_scheme, unit) op" where
    "fee = (if mi_Source msg = NATIVE then TokenIssueFeeHandler E (mi_Owner msg) (mi_Symbol msg)
      else if mi_Source msg = GATEWAY then GatewayTokenIssueFeeHandler E (mi_Owner msg) (mi_Symbol msg) else ret ())"
  obtain msg' where msg': "ValidateMsgIssueToken msg = Inr msg'"
    using valid by (auto simp: MsgIssueToken_ValidateBasic_def split: if_splits sum.splits)
  obtain i m u where im: "NewIntWithDecimal (sint (mi_InitialSupply msg)) (uint (mi_Decimal msg)) = Some i"
      "NewIntWithDecimal (sint (mi_MaxSupply msg)) (uint (mi_Decimal msg)) = Some m"
    and u: "fee s = Ok () u"
    and t: "IssueToken E (NewFungibleToken (mi_Source msg) (mi_Gateway msg) (mi_Symbol msg) (mi_Name msg) (mi_Decimal msg)
            (mi_CanonicalSymbol msg) (mi_MinUnitAlias msg) i m (mi_Mintable msg) (mi_Owner msg)) u = Ok x t"
    using run unfolding handleIssueToken_def fee_def [symmetric]
    by (auto simp: checks_Ok bind_eq_Some_conv)
  have "keeps supply_capped fee"
    unfolding fee_def TokenIssueFeeHandler_def GatewayTokenIssueFeeHandler_def by (intro keeps_intros capped_fee)
  then have "supply_capped u" using keeps_Ok capped u by metis
  then show ?thesis
    using capped_issue issue_msg_ok [OF msg' im] named t by (metis names_maximum.simps(1))
qed

text \<open>A step: a checked message of the module that names a maximum when it issues, a transfer of coins,
  or the token of a passed token-addition proposal.\<close>

inductive asset_step :: "'e asset_externals_scheme \<Rightarrow> 'z asset_state_scheme \<Rightarrow> 'z asset_state_scheme \<Rightarrow> bool"
  for E :: "'e asset_externals_scheme" where
  handled: "asset_ValidateBasic msg = Inr () \<Longrightarrow> names_maximum msg \<Longrightarrow> AssetHandler E msg s = Ok () t \<Longrightarrow> asset_step E s t"
| sent: "sendCoins E a b amt s = Ok r t \<Longrightarrow> asset_step E s t"
| added: "ValidateMsgIssueToken msg = Inr msg' \<Longrightarrow> mi_Source msg = EXTERNAL \<Longrightarrow>
    NewIntWithDecimal (sint MaximumAssetMaxSupply) (uint (mi_Decimal msg)) = Some maxSupply \<Longrightarrow>
    IssueToken E (NewFungibleToken EXTERNAL '''' (mi_Symbol msg) (mi_Name msg) (mi_Decimal msg)
      (mi_CanonicalSymbol msg) (mi_MinUnitAlias msg) 0 maxSupply True '''') s = Ok () t \<Longrightarrow> asset_step E s t"

lemma issue_external_ok:
  assumes "ValidateMsgIssueToken msg = Inr msg'" "mi_Source msg = EXTERNAL"
    "NewIntWithDecimal (sint MaximumAssetMaxSupply) (uint (mi_Decimal msg)) = Some maxSupply"
  shows "issue_ok (NewFungibleToken EXTERNAL '''' (mi_Symbol msg) name dec cs al 0 maxSupply True '''')"
proof -
  let ?msg = "msg\<lparr>mi_InitialSupply := 0, mi_MaxSupply := MaximumAssetMaxSupply, mi_Mintable := True\<rparr>"
  have norm: "normalise_issue ?msg = normalise_issue msg\<lparr>mi_InitialSupply := 0, mi_MaxSupply := MaximumAssetMaxSupply, mi_Mintable := True\<rparr>"
    by (simp add: normalise_issue_def)
  have "\<exists>m. ValidateMsgIssueToken ?msg = Inr m"
    using assms(1) unfolding ValidateMsgIssueToken_def Let_def check_Inr norm
    by (auto simp: MaximumAssetMaxSupply_def MaximumAssetInitSupply_def)
  then obtain m where m: "ValidateMsgIssueToken ?msg = Inr m" ..
  have "issue_ok (NewFungibleToken (mi_Source ?msg) '''' (mi_Symbol ?msg) name dec cs al 0 maxSupply (mi_Mintable ?msg) '''')"
    using assms(3) by (intro issue_msg_ok [OF m]) (auto simp: NewIntWithDecimal_def MaximumAssetMaxSupply_def)
  then show ?thesis by (simp add: assms(2))
qed

lemma capped_step: "asset_step E s t \<Longrightarrow> supply_capped s \<Longrightarrow> supply_capped t"
proof (induction rule: asset_step.induct)
  case (handled msg s t)
  show ?case
  proof (cases msg)
    case (AssetIssueToken m)
    then show ?thesis using handled capped_handle_issue by auto
  next
    case (AssetCreateGateway m)
    then obtain u where u: "pay_fee E (mcg_Owner m) (GetGatewayCreateFee E (mcg_Moniker m)) s = Ok () u"
      "CreateGateway (m\<lparr>mcg_Moniker := ToLower (mcg_Moniker m)\<rparr>) u = Ok () t"
      using handled(3) by (auto simp: handleMsgCreateGateway_def GatewayCreateFeeHandler_def)
    have "ValidateMoniker (mcg_Moniker m) = Inr ()"
      using handled(1) AssetCreateGateway by (auto simp: MsgCreateGateway_ValidateBasic_def split: if_splits sum.splits)
    then show ?thesis
      using capped_create [OF keeps_Ok [OF capped_fee handled(4) u(1)] _ u(2)] moniker_word by simp
  next
    case (AssetEditGateway m)
    then show ?thesis using handled capped_gateway_edits(1) by (auto simp: handleMsgEditGateway_def)
  next
    case (AssetEditToken m)
    then show ?thesis using handled capped_edit by auto
  next
    case (AssetTransferGatewayOwner m)
    then show ?thesis using handled capped_gateway_edits(2) by (auto simp: handleMsgTransferGatewayOwner_def)
  next
    case (AssetMintToken m)
    then show ?thesis using handled capped_mint by auto
  next
    case (AssetTransferTokenOwner m)
    then show ?thesis using handled capped_transfer by auto
  qed
next
  case (sent a b amt s r t)
  then show ?case using keeps_Ok [OF capped_send] by blast
next
  case (added msg msg' maxSupply s t)
  then show ?case using capped_issue issue_external_ok by blast
qed

lemma capped_run: "(asset_step E)\<^sup>*\<^sup>* s t \<Longrightarrow> supply_capped s \<Longrightarrow> supply_capped t"
  by (induction rule: rtranclp_induct) (auto intro: capped_step)

section \<open>Properties\<close>

text \<open>A state with one funded account, low fees and no token; \<open>a\<close> issues five units of the token
  \<open>abc\<close> and mints ten more.\<close>

definition demo_AE :: asset_externals where
  "demo_AE = stake_externals.extend demo_SE \<lparr>FormatFeeFactor = (\<lambda>n. if n = 3 then ''1.00'' else ''2.54'')\<rparr>"

definition demo_asset :: asset_state where
  "demo_asset = slash_state.extend demo_chain
     \<lparr>tokens = fmempty, ownerTokens = {||}, gateways = fmempty, ownerGateways = {||},
      assetParams = DefaultAssetParams\<lparr>IssueTokenBaseFee := demo_iris (2 * 10 ^ 18)\<rparr>\<rparr>"

definition demo_issue :: "uint64 \<Rightarrow> 8 word \<Rightarrow> MsgIssueToken" where
  "demo_issue maxSupply decimal =
     \<lparr>mi_Family = FUNGIBLE, mi_Source = NATIVE, mi_Gateway = '''', mi_Symbol = ''abc'', mi_CanonicalSymbol = '''',
      mi_Name = ''token'', mi_Decimal = decimal, mi_MinUnitAlias = '''', mi_InitialSupply = 5, mi_MaxSupply = maxSupply,
      mi_Mintable = True, mi_Owner = ''a''\<rparr>"

definition demo_mint :: MsgMintToken where
  "demo_mint = \<lparr>mmt_TokenId = ''abc'', mmt_Owner = ''a'', mmt_To = '''', mmt_Amount = 10\<rparr>"

definition final_state :: "('a, 's) outcome \<Rightarrow> 's \<Rightarrow> 's" where
  "final_state r s = (case r of Ok _ t \<Rightarrow> t | _ \<Rightarrow> s)"

definition demo_issued :: asset_state where
  "demo_issued = final_state (AssetHandler demo_AE (AssetIssueToken (demo_issue 100 0)) demo_asset) demo_asset"

definition demo_minted :: asset_state where
  "demo_minted = final_state (AssetHandler demo_AE (AssetMintToken demo_mint) demo_issued) demo_issued"

fun returned :: "('a, 's) outcome \<Rightarrow> bool" where
  "returned (Ok _ _) = True"
| "returned _ = False"

lemma returned_final: "returned (m s) \<Longrightarrow> (m s :: (unit, 's) outcome) = Ok () (final_state (m s) s)"
  by (cases "m s") (simp_all add: final_state_def)

lemma demo_issue_runs: "AssetHandler demo_AE (AssetIssueToken (demo_issue 100 0)) demo_asset = Ok () demo_issued"
  unfolding demo_issued_def by (rule returned_final) code_simp

lemma demo_mint_runs: "AssetHandler demo_AE (AssetMintToken demo_mint) demo_issued = Ok () demo_minted"
  unfolding demo_minted_def by (rule returned_final) code_simp

lemma demo_asset_run: "(asset_step demo_AE)\<^sup>*\<^sup>* demo_asset demo_minted"
proof -
  have "asset_step demo_AE demo_asset demo_issued"
    by (rule asset_step.handled [OF _ _ demo_issue_runs]) code_simp+
  moreover have "asset_step demo_AE demo_issued demo_minted"
    by (rule asset_step.handled [OF _ _ demo_mint_runs]) code_simp+
  ultimately show ?thesis by auto
qed

text \<open>C33: As long as every message that issues a mintable token names a maximum, no sequence of checked
  asset messages, transfers, burns and token additions raises the recorded supply of a token above
  the token's maximum supply.\<close>

theorem supply_within_maximum:
  assumes "supply_capped s" "(asset_step E)\<^sup>*\<^sup>* s t" "getToken tokenId t = Some token"
    "GetTotalSupply (GetDenom token) t = Some issued"
  shows "Amount issued \<le> ft_MaxSupply token"
  using cappedD(3) [OF capped_run [OF assms(2,1)]] assms(3,4) by (auto simp: getToken_def)

theorem supply_within_maximum_witness:
  "\<exists>token issued. getToken ''abc'' demo_minted = Some token \<and> GetTotalSupply (GetDenom token) demo_minted = Some issued \<and>
     Amount issued = 15 \<and> Amount issued \<le> ft_MaxSupply token"
proof -
  have empty: "supply_capped demo_asset"
    by (simp add: supply_capped_def demo_asset_def slash_state.defs)
  have "case getToken ''abc'' demo_minted of None \<Rightarrow> False | Some token \<Rightarrow>
      (case GetTotalSupply (GetDenom token) demo_minted of None \<Rightarrow> False | Some issued \<Rightarrow> Amount issued = 15)"
    by code_simp
  then obtain token issued where "getToken ''abc'' demo_minted = Some token"
    "GetTotalSupply (GetDenom token) demo_minted = Some issued" "Amount issued = 15"
    by (auto split: option.splits)
  then show ?thesis using supply_within_maximum [OF empty demo_asset_run] by blast
qed

text \<open>C35: A mintable native token that is issued without naming a maximum gets the default maximum of
  the code in minimal units, not scaled by its decimals: when the initial supply is larger, the message
  passes every check and leaves more of the token in circulation than its maximum supply.\<close>

theorem default_maximum_unscaled:
  assumes valid: "MsgIssueToken_ValidateBasic msg = Inr ()" and native: "mi_Source msg = NATIVE"
    and default: "mi_MaxSupply msg = 0" "mi_Mintable msg"
    and big: "uint MaximumAssetMaxSupply < uint (mi_InitialSupply msg) * 10 ^ unat (mi_Decimal msg)"
    and run: "handleIssueToken E msg s = Ok () t"
  shows "\<exists>token issued. getToken (''i.'' @ lower_trim (mi_Symbol msg)) t = Some token \<and>
    GetTotalSupply (GetDenom token) t = Some issued \<and> Amount issued > ft_MaxSupply token"
proof -
  define sym where "sym = lower_trim (mi_Symbol msg)"
  have msg_ok: "\<exists>m. ValidateMsgIssueToken (msg\<lparr>mi_Mintable := False\<rparr>) = Inr m"
    and small: "mi_InitialSupply msg \<le> MaximumAssetMaxSupply"
    using valid default unfolding MsgIssueToken_ValidateBasic_def ValidateMsgIssueToken_def Let_def check_Inr
    by (auto simp: normalise_issue_def split: if_splits)
  obtain i u where i: "NewIntWithDecimal (sint (mi_InitialSupply msg)) (uint (mi_Decimal msg)) = Some i"
    and t: "IssueToken E (NewFungibleToken NATIVE (mi_Gateway msg) (mi_Symbol msg) (mi_Name msg) (mi_Decimal msg)
            (mi_CanonicalSymbol msg) (mi_MinUnitAlias msg) i 0 True (mi_Owner msg)) u = Ok () t"
    using run native default unfolding handleIssueToken_def
    by (auto simp: checks_Ok bind_eq_Some_conv NewIntWithDecimal_def Let_def split: if_splits)
  let ?token = "NewFungibleToken NATIVE (mi_Gateway msg) (mi_Symbol msg) (mi_Name msg) (mi_Decimal msg)
    (mi_CanonicalSymbol msg) (mi_MinUnitAlias msg) i 0 True (mi_Owner msg)"
  obtain tok owner w c v where w: "AddToken ?token u = Ok (tok, owner) w"
    and c: "NewCoin (GetDenom tok) (ft_InitialSupply tok) = Some c"
    and v: "(if owner \<noteq> [] then bind_op (addCoins E owner [c]) (\<lambda>_. ret ()) else ret ()) w = Ok () v"
    and t': "SetTotalSupply c v = Ok () t"
    using IssueToken_Ok [OF t] by metis
  obtain x where tok: "tok = ?token\<lparr>ft_CanonicalSymbol := [], ft_Gateway := []\<rparr>" "SetToken tok u = Ok () x" "tokens w = tokens x"
    using AddToken_Ok [OF w] by (auto simp: NewFungibleToken_def NewBaseToken_def Let_def)
  have fields: "ft_Source tok = NATIVE" "ft_Symbol tok = sym" "ft_MaxSupply tok = uint MaximumAssetMaxSupply" "ft_InitialSupply tok = i"
    by (simp_all add: tok(1) NewFungibleToken_def NewBaseToken_def Let_def sym_def)
  have "word_ok sym \<and> sym \<noteq> Iris"
    using msg_ok issue_msg_ok [of "msg\<lparr>mi_Mintable := False\<rparr>" _ i 0] i default(1) native
    by (auto simp: issue_ok_def NewFungibleToken_def NewBaseToken_def Let_def sym_def NewIntWithDecimal_def)
  then have ok: "token_ok tok" using fields by (intro token_okI) simp_all
  have key: "KeyToken (''i.'' @ sym) = KeyToken (key_id tok)" by (simp add: key_id_def fields)
  have "at_most w v" using v keeps_Ok [OF at_most_add [of w], of w] by (auto split: if_splits)
  then have "getToken (''i.'' @ sym) t = Some (stored_token tok)"
    using t' tok(2,3) key SetToken_run [OF ok, of u] by (auto simp: getToken_def at_most_def SetTotalSupply_def)
  moreover have "GetTotalSupply (GetDenom tok) t = Some c" "Amount c = i"
    using t' c fields by (auto simp: SetTotalSupply_def NewCoin_def GetTotalSupply_def split: if_splits)
  moreover have "i = uint (mi_InitialSupply msg) * 10 ^ unat (mi_Decimal msg)"
    using i small_sint [OF small] by (simp add: NewIntWithDecimal_def Let_def split: if_splits)
  ultimately show ?thesis using big fields by (auto simp: sym_def)
qed

text \<open>The token of \<open>demo_issue\<close> with eighteen decimals and no maximum.\<close>

theorem default_maximum_unscaled_witness:
  "\<exists>t token issued. handleIssueToken demo_AE (demo_issue 0 18) demo_asset = Ok () t \<and>
     getToken ''i.abc'' t = Some token \<and> GetTotalSupply (GetDenom token) t = Some issued \<and>
     Amount issued > ft_MaxSupply token"
proof -
  let ?t = "final_state (handleIssueToken demo_AE (demo_issue 0 18) demo_asset) demo_asset"
  have run: "handleIssueToken demo_AE (demo_issue 0 18) demo_asset = Ok () ?t"
    by (rule returned_final) code_simp
  have "\<exists>token issued. getToken (''i.'' @ lower_trim (mi_Symbol (demo_issue 0 18))) ?t = Some token \<and>
      GetTotalSupply (GetDenom token) ?t = Some issued \<and> Amount issued > ft_MaxSupply token"
    by (rule default_maximum_unscaled [OF _ _ _ _ _ run]) code_simp+
  moreover have "''i.'' @ lower_trim (mi_Symbol (demo_issue 0 18)) = ''i.abc''" by code_simp
  ultimately show ?thesis using run by metis
qed

text \<open>The denomination of a stored token is one that coins may have, and the token's record and its
  supply are stored under the same id.\<close>

lemma parts_coin_name:
  assumes "name_parts [] gw tok"
  shows "accepts reCoinName (gw @ tok)"
proof -
  have "accepts (ropt (RSeq (RAlt reName (rlit ''x'')) (rlit ''.''))) gw"
    using assms by (auto simp: name_parts_def accepts_RSeq accepts_reName simp del: rlit.simps)
  moreover have "accepts reName tok" using assms by (auto simp: name_parts_def accepts_reName)
  ultimately have "accepts (RSeq (ropt (RSeq (RAlt reName (rlit ''x'')) (rlit ''.''))) reName) (gw @ tok)"
    by (rule acc_seq)
  from acc_seq [of reABS "[]", OF _ this] show ?thesis by (simp add: reCoinName_def accepts_reABS)
qed

lemma GetDenom_valid:
  assumes "token_ok t"
  shows "IsCoinMinDenomValid (GetDenom t)"
proof -
  let ?n = "token_gw t @ ft_Symbol t"
  have parts: "name_parts [] (token_gw t) (ft_Symbol t)" "ft_Symbol t \<noteq> Iris" using assms by (simp_all add: token_ok_def)
  have "CHR ''-'' \<notin> set ?n" using name_no_dash name_parts_chars [OF parts(1)] by fastforce
  then have "\<not> HasPrefix (?n @ MinDenomSuffix) (Iris @ ''-'')"
    using append_Cons_eq_iff [of "CHR ''-''" ?n _ Iris] parts_not_iris [OF parts]
    by (auto simp: HasPrefix_def prefix_def MinDenomSuffix_def Iris_def)
  moreover have "accepts (ropt (RSeq (rlit ''-'') (rrep 3 2 (RCls ralpha)))) MinDenomSuffix"
    unfolding matches_iff [symmetric] by code_simp
  then have "accepts reDenom (?n @ MinDenomSuffix)"
    unfolding reDenom_def using parts_coin_name [OF parts(1)] by (rule acc_seq [rotated])
  ultimately show ?thesis
    by (auto simp: GetDenom_ok [OF assms] IsCoinMinDenomValid_def matches_iff HasSuffix_def suffix_def)
qed



end
