(* ===== verification/Spec2Isabelle.thy ===== *)
theory Spec2Isabelle
  imports Htlc Coinswap_Liquidity Prefix_Stores Guardian Asset_Supply
begin

text \<open>
  A verification development for the state machine of IRIS Hub.
\<close>

end
